theory Spec2Isabelle
  imports Complex_Main "HOL-Library.AList" "HOL-Library.Product_Lexorder"
begin

section \<open>Robot soccer simulation: data model and operations\<close>

text \<open>
  Python floats are idealised as the real numbers: every operation of the source is read
  as the exact operation on \<open>real\<close>, and \<open>math.pi\<close>, \<open>math.sqrt\<close>, \<open>math.exp\<close>,
  \<open>math.cos\<close>, \<open>math.sin\<close> as the HOL constants. Rounding is not modelled.

  Field names follow the source, except that the coordinates and velocities of robot and
  ball (\<open>x\<close>, \<open>y\<close>, \<open>vx\<close>, \<open>vy\<close> in both classes) carry the prefixes \<open>rob_\<close> and
  \<open>ball_\<close>, and the world's \<open>t\<close>, \<open>state\<close> and \<open>ball\<close> the prefix \<open>w_\<close>. The display
  strings (\<open>Team.name\<close>, \<open>Robot.dbg_action\<close>) take no part in the logic and are left out.
\<close>

subsection \<open>Arithmetic helpers of the source\<close>

text \<open>Python's \<open>a % m\<close> on floats, for a positive modulus: the result has the sign of \<open>m\<close>.\<close>

definition py_fmod :: "real \<Rightarrow> real \<Rightarrow> real" where
  "py_fmod a m = a - m * of_int \<lfloor>a / m\<rfloor>"

text \<open>\<open>math.hypot\<close>, \<open>math.radians\<close> and \<open>math.atan2\<close> (without signed zeros).\<close>

definition hypot :: "real \<Rightarrow> real \<Rightarrow> real" where
  "hypot a b = sqrt (a * a + b * b)"

definition radians :: "real \<Rightarrow> real" where
  "radians d = d * pi / 180"

definition atan2 :: "real \<Rightarrow> real \<Rightarrow> real" where
  "atan2 b a =
     (if 0 < a then arctan (b / a)
      else if a < 0 then (if 0 \<le> b then arctan (b / a) + pi else arctan (b / a) - pi)
      else if 0 < b then pi / 2
      else if b < 0 then - (pi / 2)
      else 0)"

text \<open>\<open>_wrap_pi\<close> and \<open>_clamp\<close> of \<open>models/robot.py\<close>.\<close>

definition wrap_pi :: "real \<Rightarrow> real" where
  "wrap_pi a = py_fmod (a + pi) (2 * pi) - pi"

definition clamp :: "real \<Rightarrow> real \<Rightarrow> real \<Rightarrow> real" where
  "clamp v lo hi = max lo (min hi v)"

subsection \<open>Robot\<close>

record robot =
  robot_id :: int
  team_id :: int
  rob_x :: real
  rob_y :: real
  theta :: real
  rob_vx :: real
  rob_vy :: real
  omega :: real
  desired_vx :: real
  desired_vy :: real
  desired_omega :: real
  side_len :: real
  max_speed :: real
  max_omega :: real
  max_accel :: real
  max_alpha :: real
  tau_v :: real
  tau_w :: real
  active :: bool
  has_ball :: bool

text \<open>The dataclass defaults: \<open>Robot()\<close>.\<close>

definition Robot :: robot where
  "Robot = \<lparr> robot_id = 0, team_id = 0, rob_x = 0, rob_y = 0, theta = 0,
     rob_vx = 0, rob_vy = 0, omega = 0,
     desired_vx = 0, desired_vy = 0, desired_omega = 0,
     side_len = 45 / 100, max_speed = 25 / 10, max_omega = 6, max_accel = 4,
     max_alpha = 20, tau_v = 12 / 100, tau_w = 10 / 100,
     active = True, has_ball = False \<rparr>"

definition speed :: "robot \<Rightarrow> real" where
  "speed r = hypot (rob_vx r) (rob_vy r)"

definition half_side :: "robot \<Rightarrow> real" where
  "half_side r = (1 / 2) * side_len r"

definition outer_radius :: "robot \<Rightarrow> real" where
  "outer_radius r = hypot (half_side r) (half_side r)"

definition half_extents_xy :: "robot \<Rightarrow> real \<times> real" where
  "half_extents_xy r =
     (let h = half_side r; c = \<bar>cos (theta r)\<bar>; s = \<bar>sin (theta r)\<bar>; e = h * (c + s)
      in (e, e))"

definition set_pose :: "robot \<Rightarrow> real \<Rightarrow> real \<Rightarrow> real \<Rightarrow> robot" where
  "set_pose r px py th = r\<lparr> rob_x := px, rob_y := py, theta := wrap_pi th \<rparr>"

definition set_vel :: "robot \<Rightarrow> real \<Rightarrow> real \<Rightarrow> real \<Rightarrow> robot" where
  "set_vel r ux uy w = r\<lparr> rob_vx := ux, rob_vy := uy, omega := w \<rparr>"

definition stop :: "robot \<Rightarrow> robot" where
  "stop r = r\<lparr> desired_vx := 0, desired_vy := 0, desired_omega := 0 \<rparr>"

definition command_velocity :: "robot \<Rightarrow> real \<Rightarrow> real \<Rightarrow> real \<Rightarrow> robot" where
  "command_velocity r ux uy w =
     (let sp = hypot ux uy;
          k = (if sp > 1 / 10 ^ 9 \<and> sp > max_speed r then max_speed r / sp else 1)
      in r\<lparr> desired_vx := ux * k, desired_vy := uy * k,
             desired_omega := clamp w (- max_omega r) (max_omega r) \<rparr>)"

text \<open>\<open>speed = None\<close> selects \<open>max_speed\<close>.\<close>

definition command_move_towards :: "robot \<Rightarrow> real \<Rightarrow> real \<Rightarrow> real option \<Rightarrow> robot" where
  "command_move_towards r tx ty speed_opt =
     (let sp = (case speed_opt of None \<Rightarrow> max_speed r | Some s \<Rightarrow> s);
          dx = tx - rob_x r; dy = ty - rob_y r;
          d = hypot dx dy
      in if d < 1 / 10 ^ 6 then command_velocity r 0 0 (desired_omega r)
         else command_velocity r (dx / d * sp) (dy / d * sp) (desired_omega r))"

text \<open>
  \<open>max_rate or self.max_omega\<close>: Python's \<open>or\<close> takes the right operand when the left one
  is \<open>None\<close> and also when it is \<open>0.0\<close>.
\<close>

definition rate_or :: "real option \<Rightarrow> real \<Rightarrow> real" where
  "rate_or max_rate dflt =
     (case max_rate of None \<Rightarrow> dflt | Some m \<Rightarrow> if m = 0 then dflt else m)"

definition command_face_point :: "robot \<Rightarrow> real \<Rightarrow> real \<Rightarrow> real \<Rightarrow> real option \<Rightarrow> robot" where
  "command_face_point r tx ty kp max_rate =
     (let err = wrap_pi (atan2 (ty - rob_y r) (tx - rob_x r) - theta r);
          w = kp * err
      in r\<lparr> desired_omega := clamp w (- rate_or max_rate (max_omega r))
                                       (rate_or max_rate (max_omega r)) \<rparr>)"

definition alpha :: "real \<Rightarrow> real \<Rightarrow> real" where
  "alpha tau dt = (if tau \<le> 0 then 1 else 1 - exp (- dt / tau))"

text \<open>
  \<open>Robot.update\<close>: first-order tracking, speed clamp, acceleration clamp, Euler step.
  The body is cut into the target velocity (lag, then speed clamp), the velocity after the
  acceleration clamp, and the angular velocity; \<open>update\<close> assembles them.
\<close>

definition target_vel :: "robot \<Rightarrow> real \<Rightarrow> real \<times> real" where
  "target_vel r dt =
     (let av = alpha (tau_v r) dt;
          vx_tgt = rob_vx r + av * (desired_vx r - rob_vx r);
          vy_tgt = rob_vy r + av * (desired_vy r - rob_vy r);
          sp = hypot vx_tgt vy_tgt
      in if sp > max_speed r \<and> max_speed r > 0
         then (vx_tgt * (max_speed r / sp), vy_tgt * (max_speed r / sp))
         else (vx_tgt, vy_tgt))"

definition step_vel :: "robot \<Rightarrow> real \<Rightarrow> real \<times> real" where
  "step_vel r dt =
     (case target_vel r dt of (vx_tgt, vy_tgt) \<Rightarrow>
        let max_dv = max_accel r * dt;
            dvx = vx_tgt - rob_vx r;
            dvy = vy_tgt - rob_vy r;
            dv = hypot dvx dvy
        in if dv > max_dv \<and> max_dv > 0
           then (rob_vx r + dvx * (max_dv / dv), rob_vy r + dvy * (max_dv / dv))
           else (rob_vx r + dvx, rob_vy r + dvy))"

definition step_omega :: "robot \<Rightarrow> real \<Rightarrow> real" where
  "step_omega r dt =
     (let aw = alpha (tau_w r) dt;
          w_tgt0 = omega r + aw * (desired_omega r - omega r);
          w_tgt = clamp w_tgt0 (- max_omega r) (max_omega r)
      in omega r + clamp (w_tgt - omega r) (- max_alpha r * dt) (max_alpha r * dt))"

definition update :: "robot \<Rightarrow> real \<Rightarrow> robot" where
  "update r dt =
     (if \<not> active r \<or> dt \<le> 0 then r
      else case step_vel r dt of (vx', vy') \<Rightarrow>
        r\<lparr> rob_vx := vx', rob_vy := vy', omega := step_omega r dt,
           rob_x := rob_x r + vx' * dt,
           rob_y := rob_y r + vy' * dt,
           theta := wrap_pi (theta r + step_omega r dt * dt) \<rparr>)"

text \<open>Ball detection in the front cone, and the anchor of a dribbled ball.\<close>

definition ball_relative :: "robot \<Rightarrow> real \<Rightarrow> real \<Rightarrow> real \<times> real" where
  "ball_relative r bx by' =
     (let dx = bx - rob_x r; dy = by' - rob_y r
      in (hypot dx dy, wrap_pi (atan2 dy dx - theta r)))"

definition sees_ball_front :: "robot \<Rightarrow> real \<Rightarrow> real \<Rightarrow> real \<Rightarrow> real \<Rightarrow> bool" where
  "sees_ball_front r bx by' max_dist half_angle_deg =
     (case ball_relative r bx by' of
        (d, ang_err) \<Rightarrow> d \<le> max_dist \<and> \<bar>ang_err\<bar> \<le> radians half_angle_deg)"

definition dribble_anchor :: "robot \<Rightarrow> real \<Rightarrow> real \<Rightarrow> real \<times> real \<times> real \<times> real" where
  "dribble_anchor r ball_radius gap =
     (let h = half_side r;
          front = h + ball_radius + gap;
          c = cos (theta r); s = sin (theta r);
          ax = rob_x r + c * front;
          ay = rob_y r + s * front;
          qx = c * front; qy = s * front;
          avx = rob_vx r - omega r * qy;
          avy = rob_vy r + omega r * qx
      in (ax, ay, avx, avy))"

subsection \<open>Ball (\<open>models/ball.py\<close>)\<close>

record ball =
  ball_x :: real
  ball_y :: real
  ball_vx :: real
  ball_vy :: real
  radius :: real
  min_speed :: real
  lin_drag_per_s :: real
  restitution :: real

definition Ball :: ball where
  "Ball = \<lparr> ball_x = 0, ball_y = 0, ball_vx = 0, ball_vy = 0,
     radius = 11 / 100, min_speed = 5 / 100, lin_drag_per_s = 15 / 10,
     restitution = 25 / 100 \<rparr>"

datatype boundary_mode = Clip | Bounce

definition set_pos :: "ball \<Rightarrow> real \<Rightarrow> real \<Rightarrow> ball" where
  "set_pos b px py = b\<lparr> ball_x := px, ball_y := py \<rparr>"

definition ball_set_vel :: "ball \<Rightarrow> real \<Rightarrow> real \<Rightarrow> ball" where
  "ball_set_vel b ux uy = b\<lparr> ball_vx := ux, ball_vy := uy \<rparr>"

definition set_speed_dir :: "ball \<Rightarrow> real \<Rightarrow> real \<Rightarrow> ball" where
  "set_speed_dir b sp theta_rad = b\<lparr> ball_vx := sp * cos theta_rad, ball_vy := sp * sin theta_rad \<rparr>"

definition kick :: "ball \<Rightarrow> real \<Rightarrow> real \<Rightarrow> ball" where
  "kick b sp theta_rad = set_speed_dir b sp theta_rad"

definition time_invariant_damping :: "ball \<Rightarrow> real \<Rightarrow> real" where
  "time_invariant_damping b dt = exp (- (max 0 (lin_drag_per_s b)) * dt)"

text \<open>
  \<open>Ball.update\<close>, steps 1 to 3 (Euler step, damping, snap to zero below \<open>min_speed\<close>) and
  step 4 (the field boundary), then the method itself.
\<close>

definition ball_integrate :: "ball \<Rightarrow> real \<Rightarrow> ball" where
  "ball_integrate b dt =
     (let damp = time_invariant_damping b dt;
          ux = ball_vx b * damp;
          uy = ball_vy b * damp;
          slow = (ux * ux + uy * uy < min_speed b * min_speed b)
      in b\<lparr> ball_x := ball_x b + ball_vx b * dt,
             ball_y := ball_y b + ball_vy b * dt,
             ball_vx := (if slow then 0 else ux),
             ball_vy := (if slow then 0 else uy) \<rparr>)"

definition bound_x :: "boundary_mode \<Rightarrow> real \<Rightarrow> ball \<Rightarrow> ball" where
  "bound_x mode max_x b =
     (if ball_x b > max_x
      then b\<lparr> ball_x := max_x,
               ball_vx := (case mode of Clip \<Rightarrow> 0 | Bounce \<Rightarrow> - ball_vx b * restitution b) \<rparr>
      else if ball_x b < - max_x
      then b\<lparr> ball_x := - max_x,
               ball_vx := (case mode of Clip \<Rightarrow> 0 | Bounce \<Rightarrow> - ball_vx b * restitution b) \<rparr>
      else b)"

definition bound_y :: "boundary_mode \<Rightarrow> real \<Rightarrow> ball \<Rightarrow> ball" where
  "bound_y mode max_y b =
     (if ball_y b > max_y
      then b\<lparr> ball_y := max_y,
               ball_vy := (case mode of Clip \<Rightarrow> 0 | Bounce \<Rightarrow> - ball_vy b * restitution b) \<rparr>
      else if ball_y b < - max_y
      then b\<lparr> ball_y := - max_y,
               ball_vy := (case mode of Clip \<Rightarrow> 0 | Bounce \<Rightarrow> - ball_vy b * restitution b) \<rparr>
      else b)"

definition ball_update :: "ball \<Rightarrow> real \<Rightarrow> real option \<Rightarrow> real option \<Rightarrow> boundary_mode \<Rightarrow> ball" where
  "ball_update b dt field_half_w field_half_h mode =
     (if dt \<le> 0 then b
      else let b1 = ball_integrate b dt
           in case (field_half_w, field_half_h) of
                (Some hw, Some hh) \<Rightarrow> bound_y mode (hh - radius b1) (bound_x mode (hw - radius b1) b1)
              | _ \<Rightarrow> b1)"

subsection \<open>Team (\<open>models/team.py\<close>)\<close>

datatype side = Left | Right

text \<open>
  The roster \<open>robots: Dict[int, Robot]\<close> is an association list in insertion order, the
  order in which \<open>robots.values()\<close> iterates.
\<close>

record team =
  tm_id :: int
  side :: side
  max_size :: int
  robots :: "(int \<times> robot) list"
  goalie_id :: "int option"
  next_robot_id :: int

definition attack_sign :: "team \<Rightarrow> real" where
  "attack_sign tm = (if side tm = Left then 1 else - 1)"

definition alloc_id :: "team \<Rightarrow> int \<times> team" where
  "alloc_id tm = (next_robot_id tm, tm\<lparr> next_robot_id := next_robot_id tm + 1 \<rparr>)"

definition add_robot :: "team \<Rightarrow> robot option \<Rightarrow> int option \<Rightarrow> team" where
  "add_robot tm robot_opt id_opt =
     (let r0 = (case robot_opt of None \<Rightarrow> Robot | Some r \<Rightarrow> r);
          (rid, tm1) = (case id_opt of
                          None \<Rightarrow> alloc_id tm
                        | Some i \<Rightarrow> (i, tm\<lparr> next_robot_id := max (next_robot_id tm) (i + 1) \<rparr>));
          r1 = r0\<lparr> team_id := tm_id tm, robot_id := rid \<rparr>;
          tm2 = tm1\<lparr> robots := AList.update rid r1 (robots tm1) \<rparr>
      in if goalie_id tm2 = None then tm2\<lparr> goalie_id := Some rid \<rparr> else tm2)"

definition remove_robot :: "team \<Rightarrow> int \<Rightarrow> team" where
  "remove_robot tm rid =
     (let tm1 = tm\<lparr> robots := AList.delete rid (robots tm) \<rparr>
      in if goalie_id tm1 = Some rid
         then tm1\<lparr> goalie_id := (case robots tm1 of [] \<Rightarrow> None | (k, _) # _ \<Rightarrow> Some k) \<rparr>
         else tm1)"

text \<open>\<open>robots_list\<close>: the roster in ascending order of the key, each robot with its key.\<close>

definition robots_list :: "team \<Rightarrow> (int \<times> robot) list" where
  "robots_list tm = sort_key fst (robots tm)"

definition team_update :: "team \<Rightarrow> real \<Rightarrow> team" where
  "team_update tm dt = tm\<lparr> robots := map (\<lambda>(k, r). (k, update r dt)) (robots tm) \<rparr>"

definition ensure_size :: "team \<Rightarrow> int \<Rightarrow> team" where
  "ensure_size tm n0 =
     (let n = max 1 n0; current = int (length (robots tm))
      in if current < n then ((\<lambda>t. add_robot t None None) ^^ nat (n - current)) tm
         else if current > n
         then fold (\<lambda>rid t. remove_robot t rid)
                (take (nat (current - n)) (rev (sort (map fst (robots tm))))) tm
         else tm)"

text \<open>The slot list of \<open>auto_position_kickoff\<close> for \<open>n\<close> robots.\<close>

definition kickoff_templates ::
  "nat \<Rightarrow> real \<Rightarrow> real \<Rightarrow> real \<Rightarrow> real \<Rightarrow> real \<Rightarrow> real \<Rightarrow> (real \<times> real) list" where
  "kickoff_templates n x_gk x_def x_mid x_fwd y_mid y_max =
     (let base = take n [(x_gk, 0), (x_def, 0), (x_mid, y_mid), (x_mid, - y_mid), (x_fwd, 0)];
          extra = n - length base;
          step = max 1 (y_max / (real extra + 1))
      in base @ map (\<lambda>i. (x_mid, (real i + 1) * step * (if i mod 2 \<noteq> 0 then - 1 else 1)))
                  [0..<extra])"

definition clip_xy :: "real \<Rightarrow> real \<Rightarrow> real \<times> real \<Rightarrow> real \<times> real" where
  "clip_xy hw hh p =
     (case p of (px, py) \<Rightarrow>
        (max (- hw + 1 / 10) (min (hw - 1 / 10) px), max (- hh + 1 / 10) (min (hh - 1 / 10) py)))"

text \<open>The body of the placement loop: pose, zero velocity, zero command.\<close>

definition place_kickoff :: "real \<Rightarrow> real \<Rightarrow> real \<Rightarrow> robot \<Rightarrow> real \<times> real \<Rightarrow> robot" where
  "place_kickoff hw hh face_theta r p =
     (case clip_xy hw hh p of (px, py) \<Rightarrow> stop (set_vel (set_pose r px py face_theta) 0 0 0))"

definition auto_position_kickoff :: "team \<Rightarrow> real \<Rightarrow> real \<Rightarrow> real \<Rightarrow> team" where
  "auto_position_kickoff tm field_w' field_h' margin_goal =
     (let hw = field_w' * (1 / 2);
          hh = field_h' * (1 / 2);
          s = attack_sign tm;
          x_gk = - s * (hw - margin_goal);
          x_def = - s * 6;
          x_mid = - s * 3;
          x_fwd = - s * 1;
          y_mid = 2;
          y_max = hh - 1 / 2;
          face_theta = (if s = 1 then 0 else pi);
          tm1 = (if robots_list tm = [] then ensure_size tm (max_size tm) else tm);
          order0 = robots_list tm1;
          order = (if goalie_id tm1 \<noteq> None
                   then sort_key (\<lambda>(k, r). (if Some (robot_id r) = goalie_id tm1 then 0 else 1 :: nat,
                                             robot_id r)) order0
                   else order0);
          tm2 = (if goalie_id tm1 \<noteq> None then tm1
                 else case order0 of [] \<Rightarrow> tm1
                      | (k, r) # _ \<Rightarrow> tm1\<lparr> goalie_id := Some (robot_id r) \<rparr>);
          templates = kickoff_templates (length order) x_gk x_def x_mid x_fwd y_mid y_max;
          placed = map (\<lambda>((k, r), p). (k, place_kickoff hw hh face_theta r p)) (zip order templates)
      in tm2\<lparr> robots := map (\<lambda>(k, r). (k, case map_of placed k of None \<Rightarrow> r | Some r' \<Rightarrow> r'))
                              (robots tm2) \<rparr>)"

subsection \<open>World (\<open>models/world.py\<close>)\<close>

datatype game_state = Stopped | Playing | Kickoff_left | Kickoff_right | Goal | Halt

record score_board =
  score_left :: int
  score_right :: int

record world =
  field_w :: real
  field_h :: real
  w_t :: real
  w_ball :: ball
  team_left :: team
  team_right :: team
  score :: score_board
  w_state :: game_state
  cone_dist_on :: real
  cone_angle_on_deg :: real
  cone_dist_off :: real
  cone_angle_off_deg :: real
  sticky_enabled :: bool
  sticky_ball_radius :: real
  sticky_gap :: real
  sticky_clip_field :: bool
  kick_cooldown :: real

text \<open>The dataclass defaults, with the two default teams (empty rosters).\<close>

definition World :: world where
  "World = \<lparr> field_w = 22, field_h = 14, w_t = 0, w_ball = Ball,
     team_left = \<lparr> tm_id = 0, side = Left, max_size = 5, robots = [], goalie_id = None,
                   next_robot_id = 1 \<rparr>,
     team_right = \<lparr> tm_id = 1, side = Right, max_size = 5, robots = [], goalie_id = None,
                    next_robot_id = 1 \<rparr>,
     score = \<lparr> score_left = 0, score_right = 0 \<rparr>, w_state = Stopped,
     cone_dist_on = 35 / 100, cone_angle_on_deg = 40,
     cone_dist_off = 45 / 100, cone_angle_off_deg = 60,
     sticky_enabled = True, sticky_ball_radius = 11 / 100, sticky_gap = 15 / 1000,
     sticky_clip_field = True, kick_cooldown = 0 \<rparr>"

definition half_w :: "world \<Rightarrow> real" where
  "half_w w = (1 / 2) * field_w w"

definition half_h :: "world \<Rightarrow> real" where
  "half_h w = (1 / 2) * field_h w"

text \<open>
  \<open>all_robots\<close>: the robots of the left team, then those of the right team, in roster
  order. A robot object is identified by its position in this list; \<open>put_robots\<close> writes
  a list of the same length back into the two rosters.
\<close>

definition all_robots :: "world \<Rightarrow> robot list" where
  "all_robots w = map snd (robots (team_left w)) @ map snd (robots (team_right w))"

definition put_robots :: "world \<Rightarrow> robot list \<Rightarrow> world" where
  "put_robots w rs =
     (let nl = length (robots (team_left w))
      in w\<lparr> team_left := (team_left w)\<lparr> robots := zip (map fst (robots (team_left w))) (take nl rs) \<rparr>,
             team_right := (team_right w)\<lparr> robots := zip (map fst (robots (team_right w))) (drop nl rs) \<rparr> \<rparr>)"

definition reset_ball_center :: "world \<Rightarrow> world" where
  "reset_ball_center w = w\<lparr> w_ball := ball_set_vel (set_pos (w_ball w) 0 0) 0 0 \<rparr>"

definition world_auto_position_kickoff :: "world \<Rightarrow> world" where
  "world_auto_position_kickoff w =
     reset_ball_center
       (w\<lparr> team_left := auto_position_kickoff (team_left w) (field_w w) (field_h w) (1 / 2),
            team_right := auto_position_kickoff (team_right w) (field_w w) (field_h w) (1 / 2) \<rparr>)"

definition set_kickoff :: "world \<Rightarrow> side \<Rightarrow> world" where
  "set_kickoff w sd =
     world_auto_position_kickoff
       (w\<lparr> w_state := (if sd = Left then Kickoff_left else Kickoff_right) \<rparr>)"

definition world_start :: "world \<Rightarrow> world" where
  "world_start w = w\<lparr> w_state := Playing \<rparr>"

definition world_stop :: "world \<Rightarrow> world" where
  "world_stop w = w\<lparr> w_state := Stopped \<rparr>"

definition halt :: "world \<Rightarrow> world" where
  "halt w = w\<lparr> w_state := Halt \<rparr>"

definition goal_scored :: "world \<Rightarrow> side \<Rightarrow> world" where
  "goal_scored w by_side =
     (if by_side = Left
      then set_kickoff (w\<lparr> score := (score w)\<lparr> score_left := score_left (score w) + 1 \<rparr> \<rparr>) Right
      else set_kickoff (w\<lparr> score := (score w)\<lparr> score_right := score_right (score w) + 1 \<rparr> \<rparr>) Left)"

subsection \<open>Collision resolution (\<open>simulation/collisions.py\<close>)\<close>

text \<open>
  The two uses of the \<open>random\<close> module are inputs of the model: \<open>rnd_perm n\<close> is the
  order left by the \<open>random.shuffle\<close> of pass \<open>n\<close>, and \<open>rnd_unit k\<close> the value of the
  \<open>k\<close>-th call of \<open>random.random()\<close> (counted within one call of \<open>enforce_no_overlap\<close>).
\<close>

record rand_source =
  rnd_perm :: "nat \<Rightarrow> nat list"
  rnd_unit :: "nat \<Rightarrow> real"

definition clamp_robot_inside_field :: "world \<Rightarrow> robot \<Rightarrow> robot" where
  "clamp_robot_inside_field w r =
     (case half_extents_xy r of (ex, ey) \<Rightarrow>
        r\<lparr> rob_x := clamp (rob_x r) (- half_w w + ex) (half_w w - ex),
           rob_y := clamp (rob_y r) (- half_h w + ey) (half_h w - ey) \<rparr>)"

text \<open>
  The state of the resolver: the list of active robots and the number of calls of
  \<open>random.random()\<close> so far. First the branch for coincident centres.
\<close>

definition separate_coincident :: "rand_source \<Rightarrow> nat \<Rightarrow> nat \<Rightarrow> robot list \<times> nat \<Rightarrow> robot list \<times> nat" where
  "separate_coincident rnd i j st =
     (case st of (rs, k) \<Rightarrow>
        let ang = rnd_unit rnd k * 2 * pi;
            eps = 1 / 1000;
            ri = rs ! i; rj = rs ! j;
            ri' = ri\<lparr> rob_x := rob_x ri - eps * cos ang, rob_y := rob_y ri - eps * sin ang \<rparr>;
            rj' = rj\<lparr> rob_x := rob_x rj + eps * cos ang, rob_y := rob_y rj + eps * sin ang \<rparr>
        in (rs[i := ri', j := rj'], Suc k))"

text \<open>The position push and the velocity correction of an overlapping pair.\<close>

definition push_apart ::
  "real \<Rightarrow> real \<Rightarrow> nat \<Rightarrow> nat \<Rightarrow> real \<Rightarrow> real \<Rightarrow> real \<Rightarrow> real \<Rightarrow> robot list \<Rightarrow> robot list" where
  "push_apart restitution' limit_push_per_iter i j dx dy d min_d rs =
     (let nx = (if d > 1 / 10 ^ 9 then dx / d else 1);
          ny = (if d > 1 / 10 ^ 9 then dy / d else 0);
          overlap = min_d - d;
          push = min ((1 / 2) * overlap) limit_push_per_iter;
          ri = rs ! i; rj = rs ! j;
          ri1 = ri\<lparr> rob_x := rob_x ri - nx * push, rob_y := rob_y ri - ny * push \<rparr>;
          rj1 = rj\<lparr> rob_x := rob_x rj + nx * push, rob_y := rob_y rj + ny * push \<rparr>;
          rvx = rob_vx rj - rob_vx ri;
          rvy = rob_vy rj - rob_vy ri;
          vn = rvx * nx + rvy * ny;
          j_imp = - (1 + restitution') * vn * (1 / 2)
      in if vn < 0
         then rs[i := ri1\<lparr> rob_vx := rob_vx ri - nx * j_imp, rob_vy := rob_vy ri - ny * j_imp \<rparr>,
                 j := rj1\<lparr> rob_vx := rob_vx rj + nx * j_imp, rob_vy := rob_vy rj + ny * j_imp \<rparr>]
         else rs[i := ri1, j := rj1])"

text \<open>
  The body of the inner loop for the pair \<open>(i, j)\<close>; \<open>xi\<close>, \<open>yi\<close> are the coordinates of
  robot \<open>i\<close> read once before the inner loop.
\<close>

definition resolve_pair ::
  "real \<Rightarrow> real \<Rightarrow> rand_source \<Rightarrow> real list \<Rightarrow> nat \<Rightarrow> real \<Rightarrow> real \<Rightarrow> nat
     \<Rightarrow> robot list \<times> nat \<Rightarrow> robot list \<times> nat" where
  "resolve_pair restitution' limit_push_per_iter rnd radii i xi yi j st =
     (let dx0 = rob_x (fst st ! j) - xi;
          dy0 = rob_y (fst st ! j) - yi;
          degenerate = (dx0 * dx0 + dy0 * dy0 < 1 / 10 ^ 12);
          min_d = radii ! i + radii ! j;
          st1 = (if degenerate then separate_coincident rnd i j st else st);
          dx = (if degenerate then rob_x (fst st1 ! j) - rob_x (fst st1 ! i) else dx0);
          dy = (if degenerate then rob_y (fst st1 ! j) - rob_y (fst st1 ! i) else dy0);
          d = sqrt (dx * dx + dy * dy)
      in if d \<ge> min_d then st1
         else (push_apart restitution' limit_push_per_iter i j dx dy d min_d (fst st1), snd st1))"

definition resolve_from ::
  "real \<Rightarrow> real \<Rightarrow> rand_source \<Rightarrow> real list \<Rightarrow> nat \<Rightarrow> robot list \<times> nat \<Rightarrow> robot list \<times> nat" where
  "resolve_from restitution' limit_push_per_iter rnd radii i st =
     fold (resolve_pair restitution' limit_push_per_iter rnd radii i
             (rob_x (fst st ! i)) (rob_y (fst st ! i)))
       [Suc i..<length (fst st)] st"

text \<open>One relaxation pass: the pairs in the shuffled order, then the clamp of every robot.\<close>

definition relax_pass ::
  "world \<Rightarrow> real \<Rightarrow> real \<Rightarrow> rand_source \<Rightarrow> real list \<Rightarrow> nat \<Rightarrow> robot list \<times> nat \<Rightarrow> robot list \<times> nat" where
  "relax_pass w restitution' limit_push_per_iter rnd radii n st =
     (case fold (resolve_from restitution' limit_push_per_iter rnd radii) (rnd_perm rnd n) st of
        (rs, k) \<Rightarrow> (map (clamp_robot_inside_field w) rs, k))"

text \<open>Writing the active robots back to their places among all robots.\<close>

fun put_active :: "robot list \<Rightarrow> robot list \<Rightarrow> robot list" where
  "put_active [] acts = []"
| "put_active (r # rs) acts =
     (if active r
      then (case acts of [] \<Rightarrow> r # put_active rs [] | a # acts' \<Rightarrow> a # put_active rs acts')
      else r # put_active rs acts)"

definition resolve_active ::
  "world \<Rightarrow> int \<Rightarrow> real \<Rightarrow> real \<Rightarrow> real \<Rightarrow> rand_source \<Rightarrow> robot list \<Rightarrow> robot list" where
  "resolve_active w iterations clearance restitution' limit_push_per_iter rnd acts =
     (if length acts \<le> 1 then map (clamp_robot_inside_field w) acts
      else let radii = map (\<lambda>r. outer_radius r + clearance * (1 / 2)) acts
           in fst (fold (relax_pass w restitution' limit_push_per_iter rnd radii)
                     [0..<nat (max 1 iterations)] (acts, 0)))"

definition enforce_no_overlap ::
  "world \<Rightarrow> int \<Rightarrow> real \<Rightarrow> real \<Rightarrow> real \<Rightarrow> rand_source \<Rightarrow> world" where
  "enforce_no_overlap w iterations clearance restitution' limit_push_per_iter rnd =
     put_robots w
       (put_active (all_robots w)
          (resolve_active w iterations clearance restitution' limit_push_per_iter rnd
             (filter active (all_robots w))))"

subsection \<open>Possession and anchor (\<open>World._update_possession_and_anchor\<close>)\<close>

text \<open>
  Step 1: the first robot, in the order of \<open>all_robots\<close>, that is flagged \<open>has_ball\<close> and
  sees the ball in the wide cone; the result is its position in the list.
\<close>

definition keeps_ball :: "world \<Rightarrow> real \<Rightarrow> real \<Rightarrow> robot \<Rightarrow> bool" where
  "keeps_ball w bx by' r \<longleftrightarrow>
     has_ball r \<and> sees_ball_front r bx by' (cone_dist_off w) (cone_angle_off_deg w)"

definition find_keeper :: "world \<Rightarrow> real \<Rightarrow> real \<Rightarrow> robot list \<Rightarrow> nat option" where
  "find_keeper w bx by' rs =
     map_option fst (find (\<lambda>(i, r). keeps_ball w bx by' r) (enumerate 0 rs))"

text \<open>
  Step 2: the scan for the nearest active robot that sees the ball in the narrow cone.
  The accumulator is \<open>(best_r, best_d2)\<close>; \<open>None\<close> for \<open>best_d2\<close> is \<open>float("inf")\<close>.
\<close>

definition can_take :: "world \<Rightarrow> real \<Rightarrow> real \<Rightarrow> robot \<Rightarrow> bool" where
  "can_take w bx by' r \<longleftrightarrow>
     active r \<and> sees_ball_front r bx by' (cone_dist_on w) (cone_angle_on_deg w)"

definition dist2 :: "real \<Rightarrow> real \<Rightarrow> robot \<Rightarrow> real" where
  "dist2 bx by' r = (rob_x r - bx)\<^sup>2 + (rob_y r - by')\<^sup>2"

definition nearest_step ::
  "world \<Rightarrow> real \<Rightarrow> real \<Rightarrow> nat \<times> robot \<Rightarrow> nat option \<times> real option \<Rightarrow> nat option \<times> real option" where
  "nearest_step w bx by' ir best =
     (case ir of (i, r) \<Rightarrow>
        if \<not> active r then best
        else if \<not> sees_ball_front r bx by' (cone_dist_on w) (cone_angle_on_deg w) then best
        else let d2 = dist2 bx by' r
             in if (case snd best of None \<Rightarrow> True | Some best_d2 \<Rightarrow> d2 < best_d2)
                then (Some i, Some d2) else best)"

definition find_nearest :: "world \<Rightarrow> real \<Rightarrow> real \<Rightarrow> robot list \<Rightarrow> nat option" where
  "find_nearest w bx by' rs = fst (fold (nearest_step w bx by') (enumerate 0 rs) (None, None))"

definition determine_holder :: "world \<Rightarrow> real \<Rightarrow> real \<Rightarrow> robot list \<Rightarrow> nat option" where
  "determine_holder w bx by' rs =
     (case find_keeper w bx by' rs of
        Some i \<Rightarrow> Some i
      | None \<Rightarrow> find_nearest w bx by' rs)"

text \<open>Step 3: \<open>r.has_ball = (r is holder)\<close> for every robot.\<close>

definition set_flags :: "nat option \<Rightarrow> robot list \<Rightarrow> robot list" where
  "set_flags holder rs = map (\<lambda>(i, r). r\<lparr> has_ball := (holder = Some i) \<rparr>) (enumerate 0 rs)"

text \<open>Step 4: the anchor of the holder, clipped to the field when \<open>sticky_clip_field\<close>.\<close>

definition anchor_ball :: "world \<Rightarrow> robot \<Rightarrow> ball" where
  "anchor_ball w holder =
     (case dribble_anchor holder (sticky_ball_radius w) (sticky_gap w) of
        (ax, ay, avx, avy) \<Rightarrow>
          let ax' = (if sticky_clip_field w
                     then max (- half_w w + sticky_ball_radius w)
                            (min (half_w w - sticky_ball_radius w) ax)
                     else ax);
              ay' = (if sticky_clip_field w
                     then max (- half_h w + sticky_ball_radius w)
                            (min (half_h w - sticky_ball_radius w) ay)
                     else ay)
          in ball_set_vel (set_pos (w_ball w) ax' ay') avx avy)"

definition count_down :: "world \<Rightarrow> real \<Rightarrow> world" where
  "count_down w dt =
     (if kick_cooldown w > 0 then w\<lparr> kick_cooldown := max 0 (kick_cooldown w - dt) \<rparr> else w)"

definition update_possession_and_anchor :: "world \<Rightarrow> real \<Rightarrow> world" where
  "update_possession_and_anchor w dt =
     (let w0 = count_down w dt;
          bx = ball_x (w_ball w0); by' = ball_y (w_ball w0);
          rs = all_robots w0
      in if kick_cooldown w0 > 0
         then put_robots w0 (map (\<lambda>r. r\<lparr> has_ball := False \<rparr>) rs)
         else let holder = determine_holder w0 bx by' rs;
                  w1 = put_robots w0 (set_flags holder rs)
              in case holder of
                   None \<Rightarrow> w1
                 | Some i \<Rightarrow>
                     if sticky_enabled w1
                     then w1\<lparr> w_ball := anchor_ball w1 (all_robots w1 ! i) \<rparr>
                     else w1)"

text \<open>
  \<open>World.update\<close>. The \<open>try\<close> around the collision step guards a missing module; the
  module is part of the sources, and its arithmetic raises nothing over the reals.
\<close>

definition world_update :: "world \<Rightarrow> real \<Rightarrow> rand_source \<Rightarrow> world" where
  "world_update w dt rnd =
     (if dt \<le> 0 then w
      else let w1 = w\<lparr> team_left := team_update (team_left w) dt,
                        team_right := team_update (team_right w) dt \<rparr>;
               w2 = enforce_no_overlap w1 6 (1 / 100) 0 (10 / 100) rnd;
               w3 = update_possession_and_anchor w2 dt;
               w4 = w3\<lparr> w_ball := ball_update (w_ball w3) dt (Some (half_w w3)) (Some (half_h w3)) Clip \<rparr>
           in w4\<lparr> w_t := w_t w4 + dt \<rparr>)"

text \<open>A sequence of ticks, each with its time step and its random inputs.\<close>

definition run_ticks :: "world \<Rightarrow> (real \<times> rand_source) list \<Rightarrow> world" where
  "run_ticks w ticks = fold (\<lambda>(dt, rnd) v. world_update v dt rnd) ticks w"

subsection \<open>Kick executors (\<open>actions/planning.py\<close>)\<close>

text \<open>
  \<open>BALL_RADIUS = 0.11\<close>. The robot argument of the executors is given by its position
  \<open>i\<close> in \<open>all_robots\<close>; of the team argument only \<open>side\<close> is read.
\<close>

definition place_ball_in_front :: "robot \<Rightarrow> real \<Rightarrow> real \<times> real" where
  "place_ball_in_front r gap =
     (let front = half_side r + 11 / 100 + gap
      in (rob_x r + cos (theta r) * front, rob_y r + sin (theta r) * front))"

definition set_cooldown :: "world \<Rightarrow> real \<Rightarrow> world" where
  "set_cooldown w seconds = w\<lparr> kick_cooldown := seconds \<rparr>"

definition release_ball :: "world \<Rightarrow> nat \<Rightarrow> real \<times> real \<Rightarrow> world" where
  "release_ball w i p =
     (case p of (bx, by') \<Rightarrow>
        (put_robots w ((all_robots w)[i := (all_robots w ! i)\<lparr> has_ball := False \<rparr>]))
          \<lparr> w_ball := set_pos (w_ball w) bx by' \<rparr>)"

definition exec_shoot :: "world \<Rightarrow> team \<Rightarrow> nat \<Rightarrow> real \<Rightarrow> world" where
  "exec_shoot w tm i sp =
     (case place_ball_in_front (all_robots w ! i) (2 / 100) of (bx, by') \<Rightarrow>
        let w1 = release_ball w i (bx, by');
            goal_x = (if side tm = Left then half_w w1 else - half_w w1);
            ang = atan2 (0 - by') (goal_x - bx);
            w2 = w1\<lparr> w_ball := kick (w_ball w1) sp ang \<rparr>
        in set_cooldown w2 (25 / 100))"

definition exec_pass :: "world \<Rightarrow> team \<Rightarrow> nat \<Rightarrow> real \<times> real \<Rightarrow> real \<Rightarrow> world" where
  "exec_pass w tm i to_xy sp =
     (case place_ball_in_front (all_robots w ! i) (2 / 100) of (bx, by') \<Rightarrow>
        let w1 = release_ball w i (bx, by');
            ang = atan2 (snd to_xy - by') (fst to_xy - bx);
            w2 = w1\<lparr> w_ball := kick (w_ball w1) sp ang \<rparr>
        in set_cooldown w2 (25 / 100))"

subsection \<open>Interception probability (\<open>actions/planning.py\<close>)\<close>

definition seg_point_distance :: "real \<times> real \<Rightarrow> real \<times> real \<Rightarrow> real \<times> real \<Rightarrow> real \<times> real" where
  "seg_point_distance p0 p1 p =
     (case p0 of (x0, y0) \<Rightarrow> case p1 of (x1, y1) \<Rightarrow> case p of (px, py) \<Rightarrow>
        let vx = x1 - x0; vy = y1 - y0; L2 = vx * vx + vy * vy
        in if L2 \<le> 1 / 10 ^ 12 then (hypot (px - x0) (py - y0), 0)
           else let t0 = ((px - x0) * vx + (py - y0) * vy) / L2;
                    t = max 0 (min 1 t0)
                in (hypot (px - (x0 + t * vx)) (py - (y0 + t * vy)), t))"

definition linear_in_interval :: "real \<Rightarrow> real \<Rightarrow> real \<Rightarrow> real \<Rightarrow> real \<Rightarrow> real" where
  "linear_in_interval v x0 x1 y0 y1 =
     (if v \<le> x0 then y0
      else if v \<ge> x1 then y1
      else y0 + (y1 - y0) * (v - x0) / (x1 - x0))"

text \<open>
  The body of the loop over the interceptors: the ratio appended to \<open>crits\<close> for one
  opponent position, with \<open>L\<close> the length of the segment.
\<close>

definition interception_crit ::
  "real \<times> real \<Rightarrow> real \<times> real \<Rightarrow> real \<Rightarrow> real \<Rightarrow> real \<Rightarrow> real \<Rightarrow> real \<Rightarrow> real \<times> real \<Rightarrow> real" where
  "interception_crit start cible vitesse_deplacement opponent_max_speed
       inter_centre_distance temps_reaction_opponent L i =
     (case seg_point_distance start cible i of (d, t) \<Rightarrow>
        let d_eff = max 0 (d - inter_centre_distance);
            tr = (if d_eff = 0 then 0 else temps_reaction_opponent);
            t_opp = d_eff / max (1 / 10 ^ 6) opponent_max_speed + tr;
            d_start_proj = t * L;
            t_ball = d_start_proj / max (1 / 10 ^ 6) vitesse_deplacement
        in t_opp / max (1 / 10 ^ 6) t_ball)"

definition evaluate_success_probability_absence_interception ::
  "real \<times> real \<Rightarrow> real \<times> real \<Rightarrow> (real \<times> real) list \<Rightarrow> real \<Rightarrow> real \<Rightarrow> real \<Rightarrow> real \<Rightarrow> real" where
  "evaluate_success_probability_absence_interception start cible interceptors
       vitesse_deplacement opponent_max_speed inter_centre_distance temps_reaction_opponent =
     (case start of (sx, sy) \<Rightarrow> case cible of (cx, cy) \<Rightarrow>
        let L = hypot (cx - sx) (cy - sy)
        in if L \<le> 1 / 10 ^ 9 then 1
           else let crits = map (interception_crit start cible vitesse_deplacement
                                   opponent_max_speed inter_centre_distance
                                   temps_reaction_opponent L) interceptors
                in if crits = [] then 1
                   else linear_in_interval (min_list crits) (8 / 10) 1 0 1)"

text \<open>
  The ramp in the words of the specification: ratio at most 0.8 gives 0, ratio at least
  1.0 gives 1, linear in between.
\<close>

definition ramp_spec :: "real \<Rightarrow> real" where
  "ramp_spec ratio =
     (if ratio \<le> 8 / 10 then 0 else if 1 \<le> ratio then 1 else (ratio - 8 / 10) / (2 / 10))"

text \<open>
  The ratio in the words of the specification. \<open>opponent_time\<close>: the time the opponent
  needs to come within \<open>inter_centre_distance\<close> of a point at distance \<open>d\<close>, nothing if it
  is there already, else the way at its speed plus its reaction time. \<open>mover_time\<close>: the
  time of the mover over a way. \<open>time_ratio\<close>: opponent time over mover time for the point
  of the segment that \<open>_seg_point_distance\<close> returns; speeds and the mover time are floored
  at \<open>1e-6\<close> as in the source. \<open>seg_point\<close> is the point of the segment at parameter \<open>u\<close>
  and \<open>point_dist\<close> the Euclidean distance.
\<close>

definition opponent_time :: "real \<Rightarrow> real \<Rightarrow> real \<Rightarrow> real \<Rightarrow> real" where
  "opponent_time opponent_max_speed inter_centre_distance temps_reaction_opponent d =
     (if d \<le> inter_centre_distance then 0
      else (d - inter_centre_distance) / max (1 / 10 ^ 6) opponent_max_speed
           + temps_reaction_opponent)"

definition mover_time :: "real \<Rightarrow> real \<Rightarrow> real" where
  "mover_time vitesse_deplacement way = way / max (1 / 10 ^ 6) vitesse_deplacement"

definition time_ratio ::
  "real \<times> real \<Rightarrow> real \<times> real \<Rightarrow> real \<Rightarrow> real \<Rightarrow> real \<Rightarrow> real \<Rightarrow> real \<times> real \<Rightarrow> real" where
  "time_ratio start cible vitesse_deplacement opponent_max_speed inter_centre_distance
       temps_reaction_opponent p =
     opponent_time opponent_max_speed inter_centre_distance temps_reaction_opponent
         (fst (seg_point_distance start cible p))
       / max (1 / 10 ^ 6)
           (mover_time vitesse_deplacement
              (snd (seg_point_distance start cible p)
                 * hypot (fst cible - fst start) (snd cible - snd start)))"

definition seg_point :: "real \<times> real \<Rightarrow> real \<times> real \<Rightarrow> real \<Rightarrow> real \<times> real" where
  "seg_point p0 p1 u = (fst p0 + u * (fst p1 - fst p0), snd p0 + u * (snd p1 - snd p0))"

definition point_dist :: "real \<times> real \<Rightarrow> real \<times> real \<Rightarrow> real" where
  "point_dist p q = sqrt ((fst p - fst q)\<^sup>2 + (snd p - snd q)\<^sup>2)"

subsection \<open>State predicates and example states\<close>

text \<open>The heading invariant: a heading in the closed interval \<open>[-\<pi>, \<pi>]\<close>.\<close>

definition theta_wrapped :: "robot \<Rightarrow> bool" where
  "theta_wrapped r \<longleftrightarrow> - pi \<le> theta r \<and> theta r \<le> pi"

text \<open>A robot that is switched off, with a heading of 4 rad given to the constructor.\<close>

definition parked_robot :: robot where
  "parked_robot = Robot\<lparr> theta := 4, active := False \<rparr>"

text \<open>No robot of either team is flagged \<open>has_ball\<close>.\<close>

definition no_holder :: "world \<Rightarrow> bool" where
  "no_holder w \<longleftrightarrow> (\<forall>r \<in> set (all_robots w). \<not> has_ball r)"

text \<open>
  An example world: the default world with one robot in the left team, at the centre,
  facing the opponent goal and flagged as holder, and the ball at its anchor point; and
  fixed random inputs.
\<close>

definition holder_robot :: robot where
  "holder_robot = Robot\<lparr> robot_id := 1, has_ball := True \<rparr>"

definition demo_world :: world where
  "demo_world = World\<lparr> team_left := (team_left World)\<lparr> robots := [(1, holder_robot)],
                                       goalie_id := Some 1, next_robot_id := 2 \<rparr>,
                          w_ball := Ball\<lparr> ball_x := 35 / 100 \<rparr> \<rparr>"

definition rnd_fixed :: rand_source where
  "rnd_fixed = \<lparr> rnd_perm = (\<lambda>n. [0, 1]), rnd_unit = (\<lambda>k. 0) \<rparr>"

text \<open>The scan for the nearest taker, after any prefix of the list.\<close>

definition nearest_inv :: "world \<Rightarrow> real \<Rightarrow> real \<Rightarrow> robot list \<Rightarrow> nat option \<times> real option \<Rightarrow> bool" where
  "nearest_inv w bx by' rs best \<longleftrightarrow>
     (case fst best of
        None \<Rightarrow> snd best = None \<and> (\<forall>j<length rs. \<not> can_take w bx by' (rs ! j))
      | Some i \<Rightarrow>
          i < length rs \<and> can_take w bx by' (rs ! i) \<and> snd best = Some (dist2 bx by' (rs ! i))
          \<and> (\<forall>j<length rs. can_take w bx by' (rs ! j) \<longrightarrow> dist2 bx by' (rs ! i) \<le> dist2 bx by' (rs ! j))
          \<and> (\<forall>j<i. can_take w bx by' (rs ! j) \<longrightarrow> dist2 bx by' (rs ! i) < dist2 bx by' (rs ! j)))"

text \<open>The holder that the possession update determines in a world.\<close>

definition holder_of :: "world \<Rightarrow> nat option" where
  "holder_of w = determine_holder w (ball_x (w_ball w)) (ball_y (w_ball w)) (all_robots w)"

text \<open>
  The anchor point in the words of the specification: the point offset from the holder's
  centre by half its footprint side plus the ball radius plus the configured gap, along
  the holder's heading, clamped inside the field minus the ball radius when sticky
  field-clipping is enabled.
\<close>

definition anchor_point :: "world \<Rightarrow> robot \<Rightarrow> real \<times> real" where
  "anchor_point w r =
     (let off = side_len r / 2 + sticky_ball_radius w + sticky_gap w;
          px = rob_x r + off * cos (theta r);
          py = rob_y r + off * sin (theta r)
      in if sticky_clip_field w
         then (clamp px (- (field_w w / 2 - sticky_ball_radius w)) (field_w w / 2 - sticky_ball_radius w),
               clamp py (- (field_h w / 2 - sticky_ball_radius w)) (field_h w / 2 - sticky_ball_radius w))
         else (px, py))"

text \<open>
  A second example world: as \<open>demo_world\<close>, but the robot moves at 1 m/s along its
  heading and is commanded to keep that velocity.
\<close>

definition runner_robot :: robot where
  "runner_robot = holder_robot\<lparr> rob_vx := 1, desired_vx := 1 \<rparr>"

definition moving_world :: world where
  "moving_world = demo_world\<lparr> team_left := (team_left demo_world)\<lparr> robots := [(1, runner_robot)] \<rparr> \<rparr>"


text \<open>
  A third example world: two default robots at rest, 1 mm apart, next to the right
  touch line of the default field.
\<close>

definition wall_robot :: "int \<Rightarrow> real \<Rightarrow> robot" where
  "wall_robot n px = Robot\<lparr> robot_id := n, rob_x := px \<rparr>"

definition wall_world :: world where
  "wall_world = World\<lparr> team_left := (team_left World)
       \<lparr> robots := [(1, wall_robot 1 (10774 / 1000)), (2, wall_robot 2 (10775 / 1000))],
         goalie_id := Some 1, next_robot_id := 3 \<rparr> \<rparr>"

text \<open>
  Predicates for the kickoff formation. \<open>team_ok\<close>: every robot carries its roster key as
  \<open>robot_id\<close> and the \<open>goalie_id\<close>, if any, names a member of the roster, as
  \<open>add_robot\<close>, \<open>remove_robot\<close> and \<open>set_goalie\<close> keep it. \<open>kickoff_pose\<close>: a robot stands
  on the clipped slot \<open>p\<close>, faces the attack direction, and has zero velocities and zero
  commands. \<open>formation\<close>: the slots of a team of \<open>n\<close> robots. \<open>goal_dist\<close>: the distance of
  a robot from the centre of its own goal line.
\<close>

definition team_ok :: "team \<Rightarrow> bool" where
  "team_ok tm \<longleftrightarrow>
     (\<forall>(k, r) \<in> set (robots tm). robot_id r = k)
     \<and> (case goalie_id tm of None \<Rightarrow> True | Some g \<Rightarrow> g \<in> fst ` set (robots tm))"

definition face_theta :: "team \<Rightarrow> real" where
  "face_theta tm = (if side tm = Left then 0 else pi)"

definition kickoff_pose :: "real \<Rightarrow> real \<Rightarrow> real \<Rightarrow> real \<times> real \<Rightarrow> robot \<Rightarrow> bool" where
  "kickoff_pose hw hh face p r \<longleftrightarrow>
     (rob_x r, rob_y r) = clip_xy hw hh p \<and> theta r = wrap_pi face
     \<and> rob_vx r = 0 \<and> rob_vy r = 0 \<and> omega r = 0
     \<and> desired_vx r = 0 \<and> desired_vy r = 0 \<and> desired_omega r = 0"

definition formation :: "team \<Rightarrow> real \<Rightarrow> real \<Rightarrow> nat \<Rightarrow> (real \<times> real) list" where
  "formation tm fw fh n =
     kickoff_templates n (- attack_sign tm * (fw / 2 - 1 / 2)) (- attack_sign tm * 6)
       (- attack_sign tm * 3) (- attack_sign tm * 1) 2 (fh / 2 - 1 / 2)"

definition goal_dist :: "team \<Rightarrow> real \<Rightarrow> robot \<Rightarrow> real" where
  "goal_dist tm fw r = hypot (rob_x r + attack_sign tm * (fw / 2)) (rob_y r)"

text \<open>
  \<open>kickoff_formed tm fw fh tm'\<close>: the team \<open>tm'\<close> is \<open>tm\<close> in kickoff formation on a field
  of \<open>fw\<close> by \<open>fh\<close>: every robot is in a kickoff pose on a slot of the formation; for a
  well-formed team the goalkeeper exists and stands on the first slot, half a metre in
  front of its own goal line; and on a field at least 13 m long (and 0.2 m wide) no robot
  is nearer to the own goal than the goalkeeper.
\<close>

definition kickoff_formed :: "team \<Rightarrow> real \<Rightarrow> real \<Rightarrow> team \<Rightarrow> bool" where
  "kickoff_formed tm fw fh tm' \<longleftrightarrow>
     side tm' = side tm
     \<and> (\<forall>(k, r) \<in> set (robots tm').
          \<exists>p \<in> set (formation tm fw fh (length (robots tm'))).
            kickoff_pose (fw / 2) (fh / 2) (face_theta tm) p r)
     \<and> (team_ok tm \<longrightarrow>
          (\<exists>g. goalie_id tm' = Some g \<and> g \<in> fst ` set (robots tm')
             \<and> (\<forall>(k, r) \<in> set (robots tm'). k = g \<longrightarrow>
                   kickoff_pose (fw / 2) (fh / 2) (face_theta tm)
                     (- attack_sign tm * (fw / 2 - 1 / 2), 0) r)))
     \<and> (team_ok tm \<and> 13 \<le> fw \<and> 1 / 5 \<le> fh \<longrightarrow>
          (\<forall>(k, r) \<in> set (robots tm'). \<forall>(k', r') \<in> set (robots tm').
             goalie_id tm' = Some k \<longrightarrow> goal_dist tm fw r \<le> goal_dist tm fw r'))"

text \<open>
  A fourth example world: a field of 4 m by 3 m, the left team with a goalkeeper and one
  more robot.
\<close>

definition small_world :: world where
  "small_world = World\<lparr> field_w := 4, field_h := 3,
       team_left := (team_left World)
         \<lparr> robots := [(1, Robot\<lparr> robot_id := 1 \<rparr>), (2, Robot\<lparr> robot_id := 2 \<rparr>)],
           goalie_id := Some 1, next_robot_id := 3 \<rparr> \<rparr>"

text \<open>
  The parts of \<open>auto_position_kickoff\<close> by name: the team after the roster check, the
  placement order, the goalkeeper id after the call, and the placed robots by key.
\<close>

definition kickoff_team :: "team \<Rightarrow> team" where
  "kickoff_team tm = (if robots_list tm = [] then ensure_size tm (max_size tm) else tm)"

definition kickoff_order :: "team \<Rightarrow> (int \<times> robot) list" where
  "kickoff_order tm1 =
     (if goalie_id tm1 \<noteq> None
      then sort_key (\<lambda>(k, r). (if Some (robot_id r) = goalie_id tm1 then 0 else 1 :: nat,
                               robot_id r)) (robots_list tm1)
      else robots_list tm1)"

definition kickoff_goalie :: "team \<Rightarrow> int option" where
  "kickoff_goalie tm1 =
     (if goalie_id tm1 \<noteq> None then goalie_id tm1
      else case robots_list tm1 of [] \<Rightarrow> None | (k, r) # _ \<Rightarrow> Some (robot_id r))"

definition kickoff_placed :: "team \<Rightarrow> real \<Rightarrow> real \<Rightarrow> team \<Rightarrow> (int \<times> robot) list" where
  "kickoff_placed tm fw fh tm1 =
     map (\<lambda>((k, r), p). (k, place_kickoff (fw / 2) (fh / 2) (face_theta tm) r p))
       (zip (kickoff_order tm1) (formation tm fw fh (length (kickoff_order tm1))))"

text \<open>
  Two more example worlds: \<open>demo_world\<close> with sticky attach switched off and the ball
  0.30 m in front of the centre of the resting holder; and a field 0.4 m long, shorter
  than a robot, with one default robot at the centre.
\<close>

definition loose_world :: world where
  "loose_world = demo_world\<lparr> sticky_enabled := False, w_ball := Ball\<lparr> ball_x := 30 / 100 \<rparr> \<rparr>"


text \<open>
  A robot with given position, velocity and commanded velocity, and a world in which two
  such robots drive into each other at full speed, one along \<open>x\<close> and one along \<open>y\<close>:
  after 0.1 s they stand 0.5 m apart on the \<open>x\<close> axis.
\<close>

definition cruiser :: "int \<Rightarrow> real \<Rightarrow> real \<Rightarrow> real \<Rightarrow> real \<Rightarrow> real \<Rightarrow> real \<Rightarrow> robot" where
  "cruiser n px py ux uy cx cy =
     Robot\<lparr> robot_id := n, rob_x := px, rob_y := py, rob_vx := ux, rob_vy := uy,
            desired_vx := cx, desired_vy := cy \<rparr>"

definition crash_world :: world where
  "crash_world = World\<lparr> team_left := (team_left World)
       \<lparr> robots := [(1, cruiser 1 (475 / 100) 0 (25 / 10) 0 (25 / 10) 0),
                    (2, cruiser 2 (55 / 10) (- 25 / 100) 0 (25 / 10) 0 (25 / 10))],
         goalie_id := Some 1, next_robot_id := 3 \<rparr> \<rparr>"

text \<open>
  The cone tests in the words of the specification: the distance from the robot's centre
  to the ball, the angular error between the robot's heading and the direction to the
  ball, and the wide (off) and narrow (on) cones of a world, with the half-angles in
  degrees.
\<close>

definition ball_distance :: "world \<Rightarrow> robot \<Rightarrow> real" where
  "ball_distance w r =
     sqrt ((ball_x (w_ball w) - rob_x r)\<^sup>2 + (ball_y (w_ball w) - rob_y r)\<^sup>2)"

definition angular_error :: "world \<Rightarrow> robot \<Rightarrow> real" where
  "angular_error w r =
     wrap_pi (atan2 (ball_y (w_ball w) - rob_y r) (ball_x (w_ball w) - rob_x r) - theta r)"

definition in_off_cone :: "world \<Rightarrow> robot \<Rightarrow> bool" where
  "in_off_cone w r \<longleftrightarrow>
     ball_distance w r \<le> cone_dist_off w
     \<and> \<bar>angular_error w r\<bar> \<le> cone_angle_off_deg w * pi / 180"

definition in_on_cone :: "world \<Rightarrow> robot \<Rightarrow> bool" where
  "in_on_cone w r \<longleftrightarrow>
     ball_distance w r \<le> cone_dist_on w
     \<and> \<bar>angular_error w r\<bar> \<le> cone_angle_on_deg w * pi / 180"

text \<open>
  A world with one robot in each team, 0.65 m apart and facing each other, and the ball
  between them, 0.35 m from the left robot and 0.30 m from the right one; both robots are
  flagged \<open>has_ball\<close> or neither is.
\<close>

definition duo_left :: "bool \<Rightarrow> robot" where
  "duo_left f = Robot\<lparr> robot_id := 1, has_ball := f \<rparr>"

definition duo_right :: "bool \<Rightarrow> robot" where
  "duo_right f = Robot\<lparr> robot_id := 1, team_id := 1, rob_x := 65 / 100, theta := pi,
                        has_ball := f \<rparr>"

definition duo_world :: "bool \<Rightarrow> world" where
  "duo_world f = World\<lparr>
       team_left := (team_left World)\<lparr> robots := [(1, duo_left f)], goalie_id := Some 1,
                                     next_robot_id := 2 \<rparr>,
       team_right := (team_right World)\<lparr> robots := [(1, duo_right f)], goalie_id := Some 1,
                                       next_robot_id := 2 \<rparr>,
       w_ball := Ball\<lparr> ball_x := 35 / 100 \<rparr> \<rparr>"

text \<open>
  Two more example worlds with the resting holder and sticky attach on: \<open>demo_world\<close> with
  the ball 0.30 m in front of the robot's centre; and the holder at \<open>x = 10.7\<close>, facing the
  goal line at \<open>x = 11\<close>, with field clipping of the anchor switched off and the ball in
  front of it.
\<close>

definition snap_world :: world where
  "snap_world = demo_world\<lparr> w_ball := Ball\<lparr> ball_x := 30 / 100 \<rparr> \<rparr>"

definition edge_world :: world where
  "edge_world = demo_world\<lparr> sticky_clip_field := False,
       team_left := (team_left demo_world)\<lparr> robots := [(1, holder_robot\<lparr> rob_x := 107 / 10 \<rparr>)] \<rparr>,
       w_ball := Ball\<lparr> ball_x := 1089 / 100 \<rparr> \<rparr>"

section \<open>Angle wrapping\<close>

lemma py_fmod_range:
  assumes "0 < m"
  shows "0 \<le> py_fmod a m" and "py_fmod a m < m"
proof -
  from assms have "of_int \<lfloor>a / m\<rfloor> * m \<le> a"
    by (rule floor_divide_lower)
  then show "0 \<le> py_fmod a m" by (simp add: py_fmod_def mult.commute)
  from assms have "a < (of_int \<lfloor>a / m\<rfloor> + 1) * m"
    by (rule floor_divide_upper)
  then show "py_fmod a m < m" by (simp add: py_fmod_def algebra_simps)
qed

lemma py_fmod_small:
  assumes "0 \<le> a" and "a < m"
  shows "py_fmod a m = a"
proof -
  from assms have "0 < m" by linarith
  with assms have "0 \<le> a / m" and "a / m < 1" by simp_all
  then have "\<lfloor>a / m\<rfloor> = 0" by linarith
  then show ?thesis by (simp add: py_fmod_def)
qed

lemma wrap_pi_range: "- pi \<le> wrap_pi a" "wrap_pi a < pi"
  using py_fmod_range [of "2 * pi" "a + pi"] pi_gt_zero
  by (simp_all add: wrap_pi_def)

lemma wrap_pi_fixed:
  assumes "- pi \<le> a" and "a < pi"
  shows "wrap_pi a = a"
  using assms py_fmod_small [of "a + pi" "2 * pi"] by (simp add: wrap_pi_def)

lemma wrap_pi_pi: "wrap_pi pi = - pi"
proof -
  have "py_fmod (2 * pi) (2 * pi) = 0"
    by (simp add: py_fmod_def)
  then show ?thesis by (simp add: wrap_pi_def)
qed

lemma wrap_pi_zero: "wrap_pi 0 = 0"
  by (rule wrap_pi_fixed) simp_all

lemma wrap_pi_turns: "wrap_pi a = a - 2 * pi * of_int \<lfloor>(a + pi) / (2 * pi)\<rfloor>"
  by (simp add: wrap_pi_def py_fmod_def)

lemma wrap_pi_direction: "cos (wrap_pi a) = cos a" "sin (wrap_pi a) = sin a"
proof -
  define n where "n = \<lfloor>(a + pi) / (2 * pi)\<rfloor>"
  have w: "wrap_pi a = a - 2 * pi * of_int n"
    unfolding n_def by (rule wrap_pi_turns)
  have c: "cos (2 * pi * of_int n) = 1" by (rule cos_int_2pin)
  have s: "sin (2 * pi * of_int n) = 0" by (rule sin_int_2pin)
  show "cos (wrap_pi a) = cos a" unfolding w cos_diff c s by simp
  show "sin (wrap_pi a) = sin a" unfolding w sin_diff c s by simp
qed

text \<open>
  Claim C8, as stated. At the angle \<open>\<pi>\<close> the wrapped value is \<open>-\<pi>\<close>, which lies outside
  the interval \<open>(-\<pi>, \<pi>]\<close> of the claim. And a heading is wrapped only where the code
  wraps it: the constructor stores the heading as given, and \<open>Robot.update\<close> returns early
  for a robot that is not active, so the switched-off robot built with a heading of 4 rad
  still has that heading after an update.
\<close>

theorem C8_wrap_pi_counterexample:
  "wrap_pi pi = - pi
   \<and> \<not> (- pi < wrap_pi pi \<and> wrap_pi pi \<le> pi)
   \<and> theta (update parked_robot 1) = 4
   \<and> \<not> (- pi < theta (update parked_robot 1) \<and> theta (update parked_robot 1) \<le> pi)"
proof -
  have u: "theta (update parked_robot 1) = 4"
    by (simp add: update_def parked_robot_def Robot_def)
  have "pi < 4" using pi_less_4 by simp
  with u show ?thesis by (simp add: wrap_pi_pi)
qed

text \<open>
  Claim C8, amended: for every real angle the wrapped value lies in the closed interval
  \<open>[-\<pi>, \<pi>]\<close> and is the angle up to whole turns (same cosine and sine); wrapping a
  wrapped value gives it back unless the wrapped value is \<open>\<pi>\<close> itself, and \<open>\<pi>\<close> wraps to
  \<open>-\<pi>\<close>, the same direction. \<open>set_pose\<close> stores a heading in the closed interval, an
  active robot stepped with a positive \<open>dt\<close> has its heading there, and \<open>Robot.update\<close>
  keeps a heading that is there for every robot and every \<open>dt\<close>.

  In exact arithmetic the end \<open>\<pi>\<close> is never returned (\<open>wrap_pi_range\<close>), so there wrapping
  is idempotent without exception. The statement keeps the end and the exception because
  the remainder of the source is rounded: it can come out as \<open>2\<pi>\<close>, and the wrapped value
  is then \<open>\<pi>\<close>.
\<close>

theorem C8_wrap_pi_range_idempotent:
  "(- pi \<le> wrap_pi a \<and> wrap_pi a \<le> pi)
   \<and> (cos (wrap_pi a) = cos a \<and> sin (wrap_pi a) = sin a)
   \<and> (wrap_pi a \<noteq> pi \<longrightarrow> wrap_pi (wrap_pi a) = wrap_pi a)
   \<and> wrap_pi pi = - pi
   \<and> theta_wrapped (set_pose r px py th)
   \<and> (active r \<and> 0 < dt \<longrightarrow> theta_wrapped (update r dt))
   \<and> (theta_wrapped r \<longrightarrow> theta_wrapped (update r dt))"
proof -
  have rng: "- pi \<le> wrap_pi b \<and> wrap_pi b \<le> pi" for b
    using wrap_pi_range [of b] by simp
  have dir: "cos (wrap_pi a) = cos a \<and> sin (wrap_pi a) = sin a"
    by (simp add: wrap_pi_direction)
  have idem: "wrap_pi (wrap_pi a) = wrap_pi a" if "wrap_pi a \<noteq> pi"
  proof (rule wrap_pi_fixed)
    show "- pi \<le> wrap_pi a" using rng by simp
    show "wrap_pi a < pi" using rng [of a] that by simp
  qed
  have sp: "theta_wrapped (set_pose r px py th)"
    using rng [of th] by (simp add: theta_wrapped_def set_pose_def)
  have up: "theta_wrapped (update r dt)" if "active r" "0 < dt"
    using that rng by (simp add: theta_wrapped_def update_def split: prod.split)
  have keep: "theta_wrapped (update r dt)" if "theta_wrapped r"
  proof (cases "active r \<and> 0 < dt")
    case True
    then show ?thesis using up by simp
  next
    case False
    then have "update r dt = r" by (auto simp: update_def)
    with that show ?thesis by simp
  qed
  from rng [of a] dir idem wrap_pi_pi sp up keep show ?thesis by blast
qed

theorem C8_wrap_pi_witness:
  "active Robot \<and> (0::real) < 1 \<and> theta_wrapped Robot \<and> wrap_pi 7 \<noteq> pi
   \<and> (- pi \<le> wrap_pi 7 \<and> wrap_pi 7 \<le> pi)
   \<and> (cos (wrap_pi 7) = cos 7 \<and> sin (wrap_pi 7) = sin 7)
   \<and> wrap_pi (wrap_pi 7) = wrap_pi 7
   \<and> theta_wrapped (set_pose Robot 1 2 pi)
   \<and> theta_wrapped (update Robot 1)"
proof -
  have a: "active Robot" by (simp add: Robot_def)
  have t: "theta_wrapped Robot" by (simp add: theta_wrapped_def Robot_def)
  have n: "wrap_pi 7 \<noteq> pi" using wrap_pi_range(2) [of 7] by simp
  show ?thesis
    using a t n C8_wrap_pi_range_idempotent [of 7 Robot 1 2 pi 1] by simp
qed

section \<open>The rosters as one list\<close>

lemma length_all_robots:
  "length (all_robots w) = length (robots (team_left w)) + length (robots (team_right w))"
  by (simp add: all_robots_def)

lemma all_robots_put_robots:
  assumes "length rs = length (all_robots w)"
  shows "all_robots (put_robots w rs) = rs"
proof -
  define nl where "nl = length (robots (team_left w))"
  have l: "length (take nl rs) = length (map fst (robots (team_left w)))"
    using assms by (simp add: nl_def length_all_robots)
  have r: "length (drop nl rs) = length (map fst (robots (team_right w)))"
    using assms by (simp add: nl_def length_all_robots)
  have "all_robots (put_robots w rs)
        = map snd (zip (map fst (robots (team_left w))) (take nl rs))
          @ map snd (zip (map fst (robots (team_right w))) (drop nl rs))"
    by (simp add: all_robots_def put_robots_def Let_def nl_def)
  also have "\<dots> = take nl rs @ drop nl rs"
    using l r by (simp only: map_snd_zip)
  finally show ?thesis by simp
qed

lemma put_robots_frame:
  "kick_cooldown (put_robots w rs) = kick_cooldown w"
  "w_ball (put_robots w rs) = w_ball w"
  "field_w (put_robots w rs) = field_w w"
  "field_h (put_robots w rs) = field_h w"
  "w_state (put_robots w rs) = w_state w"
  "w_t (put_robots w rs) = w_t w"
  "score (put_robots w rs) = score w"
  "sticky_enabled (put_robots w rs) = sticky_enabled w"
  "sticky_clip_field (put_robots w rs) = sticky_clip_field w"
  "sticky_ball_radius (put_robots w rs) = sticky_ball_radius w"
  "sticky_gap (put_robots w rs) = sticky_gap w"
  by (simp_all add: put_robots_def Let_def)

lemma half_put_robots:
  "half_w (put_robots w rs) = half_w w" "half_h (put_robots w rs) = half_h w"
  by (simp_all add: half_w_def half_h_def put_robots_frame)

lemma half_kick_cooldown_update:
  "half_w (w\<lparr> kick_cooldown := c \<rparr>) = half_w w" "half_h (w\<lparr> kick_cooldown := c \<rparr>) = half_h w"
  by (simp_all add: half_w_def half_h_def)

lemma possession_cooldown:
  assumes "kick_cooldown w - dt > 0" and "0 < dt"
  shows "update_possession_and_anchor w dt
         = put_robots (w\<lparr> kick_cooldown := kick_cooldown w - dt \<rparr>)
             (map (\<lambda>r. r\<lparr> has_ball := False \<rparr>) (all_robots w))"
proof -
  from assms have pos: "kick_cooldown w > 0" by linarith
  then have cd: "count_down w dt = w\<lparr> kick_cooldown := kick_cooldown w - dt \<rparr>"
    using assms by (simp add: count_down_def max_def)
  have ar: "all_robots (w\<lparr> kick_cooldown := kick_cooldown w - dt \<rparr>) = all_robots w"
    by (simp add: all_robots_def)
  show ?thesis
    using assms(1) by (simp add: update_possession_and_anchor_def cd Let_def ar)
qed

lemma enforce_frame:
  "kick_cooldown (enforce_no_overlap w it cl re li rnd) = kick_cooldown w"
  "w_ball (enforce_no_overlap w it cl re li rnd) = w_ball w"
  "half_w (enforce_no_overlap w it cl re li rnd) = half_w w"
  "half_h (enforce_no_overlap w it cl re li rnd) = half_h w"
  by (simp_all add: enforce_no_overlap_def put_robots_frame half_put_robots)

lemma world_update_cooldown:
  assumes "kick_cooldown w - dt > 0" and "0 < dt"
  shows "no_holder (world_update w dt rnd)"
    and "kick_cooldown (world_update w dt rnd) = kick_cooldown w - dt"
    and "w_ball (world_update w dt rnd)
         = ball_update (w_ball w) dt (Some (half_w w)) (Some (half_h w)) Clip"
proof -
  define w1 where "w1 = w\<lparr> team_left := team_update (team_left w) dt,
                        team_right := team_update (team_right w) dt \<rparr>"
  define w2 where "w2 = enforce_no_overlap w1 6 (1 / 100) 0 (10 / 100) rnd"
  define w3 where "w3 = update_possession_and_anchor w2 dt"
  have f1: "kick_cooldown w1 = kick_cooldown w" "w_ball w1 = w_ball w"
    "half_w w1 = half_w w" "half_h w1 = half_h w"
    by (simp_all add: w1_def half_w_def half_h_def)
  have f2: "kick_cooldown w2 = kick_cooldown w" "w_ball w2 = w_ball w"
    "half_w w2 = half_w w" "half_h w2 = half_h w"
    by (simp_all add: w2_def enforce_frame f1)
  have w3: "w3 = put_robots (w2\<lparr> kick_cooldown := kick_cooldown w2 - dt \<rparr>)
             (map (\<lambda>r. r\<lparr> has_ball := False \<rparr>) (all_robots w2))"
    unfolding w3_def using assms by (intro possession_cooldown) (simp_all add: f2)
  have ar: "all_robots (w2\<lparr> kick_cooldown := kick_cooldown w2 - dt \<rparr>) = all_robots w2"
    by (simp add: all_robots_def)
  have a3: "all_robots w3 = map (\<lambda>r. r\<lparr> has_ball := False \<rparr>) (all_robots w2)"
    unfolding w3 by (rule all_robots_put_robots) (simp add: ar)
  have f3: "kick_cooldown w3 = kick_cooldown w - dt" "w_ball w3 = w_ball w"
    "half_w w3 = half_w w" "half_h w3 = half_h w"
    by (simp_all add: w3 put_robots_frame half_put_robots half_kick_cooldown_update f2)
  have wu: "world_update w dt rnd
      = (w3\<lparr> w_ball := ball_update (w_ball w3) dt (Some (half_w w3)) (Some (half_h w3)) Clip \<rparr>)
          \<lparr> w_t := w_t w3 + dt \<rparr>"
    using assms(2) by (simp add: world_update_def Let_def w1_def w2_def w3_def)
  have ar2: "all_robots (world_update w dt rnd) = all_robots w3"
    by (simp add: wu all_robots_def)
  show "no_holder (world_update w dt rnd)"
    by (simp add: no_holder_def ar2 a3)
  show "kick_cooldown (world_update w dt rnd) = kick_cooldown w - dt"
    by (simp add: wu f3)
  show "w_ball (world_update w dt rnd)
         = ball_update (w_ball w) dt (Some (half_w w)) (Some (half_h w)) Clip"
    by (simp add: wu f3)
qed

lemma run_ticks_cooldown:
  assumes "\<forall>(dt, rnd) \<in> set ticks. 0 < dt"
    and "sum_list (map fst ticks) < kick_cooldown w"
  shows "kick_cooldown (run_ticks w ticks) = kick_cooldown w - sum_list (map fst ticks)
         \<and> (ticks \<noteq> [] \<longrightarrow> no_holder (run_ticks w ticks))"
  using assms
proof (induction ticks arbitrary: w rule: rev_induct)
  case Nil
  then show ?case by (simp add: run_ticks_def)
next
  case (snoc tk ticks)
  obtain dt rnd where tk: "tk = (dt, rnd)" by (cases tk)
  from snoc.prems tk have dt: "0 < dt" by simp
  from snoc.prems have pre: "\<forall>(dt, rnd) \<in> set ticks. 0 < dt" by simp
  from snoc.prems tk dt have sm: "sum_list (map fst ticks) < kick_cooldown w" by simp
  from snoc.IH [OF pre sm]
  have kc: "kick_cooldown (run_ticks w ticks) = kick_cooldown w - sum_list (map fst ticks)"
    by simp
  have step: "run_ticks w (ticks @ [(dt, rnd)]) = world_update (run_ticks w ticks) dt rnd"
    by (simp add: run_ticks_def)
  from snoc.prems tk kc have still: "kick_cooldown (run_ticks w ticks) - dt > 0" by simp
  from world_update_cooldown [OF still dt, of rnd] kc show ?case
    by (simp add: step tk)
qed

lemma exec_cooldown:
  "kick_cooldown (exec_shoot w tm i sp) = 25 / 100"
  "kick_cooldown (exec_pass w tm i to_xy sp) = 25 / 100"
  by (simp_all add: exec_shoot_def exec_pass_def set_cooldown_def Let_def split: prod.split)

text \<open>
  Claim C3: \<open>exec_shoot\<close> and \<open>exec_pass\<close> set \<open>kick_cooldown\<close> to 0.25; over any
  sequence of ticks with positive time steps that sum to less than 0.25 after such a kick
  the cooldown stays positive and no robot is flagged \<open>has_ball\<close> after the ticks, wherever
  the robots stand; and on every tick with \<open>dt > 0\<close> after whose decrement the cooldown is
  still positive, every flag is cleared and the ball is not anchored: its state is the
  free-flight step of its previous state. A call with \<open>dt \<le> 0\<close> changes nothing.
\<close>

theorem C3_cooldown_blocks_possession:
  "kick_cooldown (exec_shoot w tm i sp) = 25 / 100
   \<and> kick_cooldown (exec_pass w tm i to_xy sp) = 25 / 100
   \<and> ((\<forall>(dt, rnd) \<in> set ticks. 0 < dt) \<and> ticks \<noteq> [] \<and> sum_list (map fst ticks) < 25 / 100 \<longrightarrow>
        no_holder (run_ticks (exec_shoot w tm i sp) ticks)
        \<and> 0 < kick_cooldown (run_ticks (exec_shoot w tm i sp) ticks)
        \<and> no_holder (run_ticks (exec_pass w tm i to_xy sp) ticks)
        \<and> 0 < kick_cooldown (run_ticks (exec_pass w tm i to_xy sp) ticks))
   \<and> (0 < dt \<and> 0 < kick_cooldown v - dt \<longrightarrow>
        no_holder (world_update v dt rnd)
        \<and> kick_cooldown (world_update v dt rnd) = kick_cooldown v - dt
        \<and> w_ball (world_update v dt rnd)
            = ball_update (w_ball v) dt (Some (half_w v)) (Some (half_h v)) Clip)
   \<and> (dt \<le> 0 \<longrightarrow> world_update v dt rnd = v)"
proof -
  have run: "no_holder (run_ticks u ticks) \<and> 0 < kick_cooldown (run_ticks u ticks)"
    if "kick_cooldown u = 25 / 100"
      and "(\<forall>(dt, rnd) \<in> set ticks. 0 < dt) \<and> ticks \<noteq> [] \<and> sum_list (map fst ticks) < 25 / 100"
    for u
  proof -
    from that have a: "\<forall>(dt, rnd) \<in> set ticks. 0 < dt"
      and b: "sum_list (map fst ticks) < kick_cooldown u" and c: "ticks \<noteq> []"
      by simp_all
    from run_ticks_cooldown [OF a b] b c show ?thesis by simp
  qed
  have tick: "no_holder (world_update v dt rnd)
        \<and> kick_cooldown (world_update v dt rnd) = kick_cooldown v - dt
        \<and> w_ball (world_update v dt rnd)
            = ball_update (w_ball v) dt (Some (half_w v)) (Some (half_h v)) Clip"
    if "0 < dt \<and> 0 < kick_cooldown v - dt"
    using that world_update_cooldown [of v dt rnd] by simp
  have noop: "world_update v dt rnd = v" if "dt \<le> 0"
    using that by (simp add: world_update_def)
  have shoot: "kick_cooldown (exec_shoot w tm i sp) = 25 / 100"
    and pass: "kick_cooldown (exec_pass w tm i to_xy sp) = 25 / 100"
    by (rule exec_cooldown)+
  from run [OF shoot] run [OF pass] tick noop shoot pass
  show ?thesis by (intro conjI impI) simp_all
qed

theorem C3_cooldown_witness:
  "[(1 / 20 :: real, rnd_fixed), (1 / 20, rnd_fixed)] \<noteq> []
   \<and> sum_list (map fst [(1 / 20 :: real, rnd_fixed), (1 / 20, rnd_fixed)]) < 25 / 100
   \<and> (0::real) < 1 / 20
   \<and> 0 < kick_cooldown (exec_shoot demo_world (team_left demo_world) 0 (75 / 10)) - 1 / 20
   \<and> no_holder (run_ticks (exec_shoot demo_world (team_left demo_world) 0 (75 / 10))
                  [(1 / 20, rnd_fixed), (1 / 20, rnd_fixed)])
   \<and> no_holder (world_update (exec_shoot demo_world (team_left demo_world) 0 (75 / 10))
                  (1 / 20) rnd_fixed)"
proof -
  have p: "0 < kick_cooldown (exec_shoot demo_world (team_left demo_world) 0 (75 / 10)) - 1 / 20"
    by (simp add: exec_cooldown)
  from C3_cooldown_blocks_possession
         [of demo_world "team_left demo_world" 0 "75 / 10" "(0, 0)"
             "[(1 / 20, rnd_fixed), (1 / 20, rnd_fixed)]" "1 / 20"
             "exec_shoot demo_world (team_left demo_world) 0 (75 / 10)" rnd_fixed] p
  show ?thesis by (simp add: exec_cooldown)
qed

section \<open>Possession\<close>

lemma find_keeper_Some:
  "find_keeper w bx by' rs = Some i \<longleftrightarrow>
     i < length rs \<and> keeps_ball w bx by' (rs ! i) \<and> (\<forall>j<i. \<not> keeps_ball w bx by' (rs ! j))"
proof
  assume "find_keeper w bx by' rs = Some i"
  then obtain q where q: "find (\<lambda>(i, r). keeps_ball w bx by' r) (enumerate 0 rs) = Some q"
    and iq: "fst q = i"
    by (auto simp: find_keeper_def)
  from q obtain m where m: "m < length rs"
    "case enumerate 0 rs ! m of (i, r) \<Rightarrow> keeps_ball w bx by' r"
    "q = enumerate 0 rs ! m"
    "\<forall>j<m. \<not> (case enumerate 0 rs ! j of (i, r) \<Rightarrow> keeps_ball w bx by' r)"
    by (auto simp: find_Some_iff)
  from m(1,3) iq have mi: "m = i" by (simp add: nth_enumerate_eq)
  from m(1,2) have k: "keeps_ball w bx by' (rs ! m)" by (simp add: nth_enumerate_eq)
  from m(1,4) have "\<forall>j<m. \<not> keeps_ball w bx by' (rs ! j)" by (simp add: nth_enumerate_eq)
  with m(1) k mi
  show "i < length rs \<and> keeps_ball w bx by' (rs ! i) \<and> (\<forall>j<i. \<not> keeps_ball w bx by' (rs ! j))"
    by simp
next
  assume a: "i < length rs \<and> keeps_ball w bx by' (rs ! i) \<and> (\<forall>j<i. \<not> keeps_ball w bx by' (rs ! j))"
  then have "find (\<lambda>(i, r). keeps_ball w bx by' r) (enumerate 0 rs) = Some (i, rs ! i)"
    by (subst find_Some_iff) (auto simp: nth_enumerate_eq intro!: exI [of _ i])
  then show "find_keeper w bx by' rs = Some i" by (simp add: find_keeper_def)
qed

lemma find_keeper_None:
  "find_keeper w bx by' rs = None \<longleftrightarrow> (\<forall>j<length rs. \<not> keeps_ball w bx by' (rs ! j))"
proof -
  have "find_keeper w bx by' rs = None \<longleftrightarrow>
        \<not> (\<exists>q. q \<in> set (enumerate 0 rs) \<and> (case q of (i, r) \<Rightarrow> keeps_ball w bx by' r))"
    by (simp add: find_keeper_def find_None_iff)
  also have "\<dots> \<longleftrightarrow> (\<forall>j<length rs. \<not> keeps_ball w bx by' (rs ! j))"
    by (auto simp: in_set_enumerate_eq)
  finally show ?thesis .
qed

lemma nearest_step_inv:
  assumes "nearest_inv w bx by' rs best"
  shows "nearest_inv w bx by' (rs @ [r]) (nearest_step w bx by' (length rs, r) best)"
proof (cases "can_take w bx by' r")
  case False
  then have st: "nearest_step w bx by' (length rs, r) best = best"
    by (auto simp: nearest_step_def can_take_def)
  show ?thesis
    using assms False unfolding st nearest_inv_def
    by (auto simp: nth_append less_Suc_eq split: option.splits)
next
  case True
  then have act: "active r"
    and sees: "sees_ball_front r bx by' (cone_dist_on w) (cone_angle_on_deg w)"
    by (simp_all add: can_take_def)
  show ?thesis
  proof (cases "fst best")
    case None
    with assms have sb: "snd best = None" by (simp add: nearest_inv_def)
    have st: "nearest_step w bx by' (length rs, r) best = (Some (length rs), Some (dist2 bx by' r))"
      using act sees sb by (simp add: nearest_step_def Let_def)
    show ?thesis
      using assms None True unfolding st nearest_inv_def
      by (auto simp: nth_append less_Suc_eq)
  next
    case (Some i)
    with assms have inv: "i < length rs" "can_take w bx by' (rs ! i)"
      "snd best = Some (dist2 bx by' (rs ! i))"
      "\<forall>j<length rs. can_take w bx by' (rs ! j) \<longrightarrow> dist2 bx by' (rs ! i) \<le> dist2 bx by' (rs ! j)"
      "\<forall>j<i. can_take w bx by' (rs ! j) \<longrightarrow> dist2 bx by' (rs ! i) < dist2 bx by' (rs ! j)"
      by (simp_all add: nearest_inv_def)
    show ?thesis
    proof (cases "dist2 bx by' r < dist2 bx by' (rs ! i)")
      case True
      have st: "nearest_step w bx by' (length rs, r) best = (Some (length rs), Some (dist2 bx by' r))"
        using act sees inv(3) True by (simp add: nearest_step_def Let_def)
      have "\<forall>j<length rs. can_take w bx by' (rs ! j) \<longrightarrow> dist2 bx by' r < dist2 bx by' (rs ! j)"
        using inv(4) True by fastforce
      then show ?thesis
        using \<open>can_take w bx by' r\<close> unfolding st nearest_inv_def
        by (auto simp: nth_append less_Suc_eq intro: less_imp_le)
    next
      case False
      have st: "nearest_step w bx by' (length rs, r) best = best"
        using act sees inv(3) False by (simp add: nearest_step_def Let_def)
      show ?thesis
        using inv Some False unfolding st nearest_inv_def
        by (auto simp: nth_append less_Suc_eq)
    qed
  qed
qed

lemma fold_nearest_inv:
  "nearest_inv w bx by' rs (fold (nearest_step w bx by') (enumerate 0 rs) (None, None))"
proof (induction rs rule: rev_induct)
  case Nil
  then show ?case by (simp add: nearest_inv_def)
next
  case (snoc r rs)
  have "enumerate 0 (rs @ [r]) = enumerate 0 rs @ [(length rs, r)]"
    by (simp add: enumerate_append_eq)
  then show ?case using nearest_step_inv [OF snoc.IH, of r] by simp
qed

lemma find_nearest_Some:
  assumes "find_nearest w bx by' rs = Some i"
  shows "i < length rs \<and> can_take w bx by' (rs ! i)
     \<and> (\<forall>j<length rs. can_take w bx by' (rs ! j) \<longrightarrow> dist2 bx by' (rs ! i) \<le> dist2 bx by' (rs ! j))
     \<and> (\<forall>j<i. can_take w bx by' (rs ! j) \<longrightarrow> dist2 bx by' (rs ! i) < dist2 bx by' (rs ! j))"
  using fold_nearest_inv [of w bx by' rs] assms
  by (simp add: find_nearest_def nearest_inv_def)

lemma find_nearest_None:
  assumes "find_nearest w bx by' rs = None"
  shows "\<forall>j<length rs. \<not> can_take w bx by' (rs ! j)"
  using fold_nearest_inv [of w bx by' rs] assms
  by (simp add: find_nearest_def nearest_inv_def)

lemma set_flags_nth:
  "length (set_flags h rs) = length rs"
  "i < length rs \<Longrightarrow> set_flags h rs ! i = (rs ! i)\<lparr> has_ball := (h = Some i) \<rparr>"
  by (simp_all add: set_flags_def nth_enumerate_eq)


lemma hypot_axis: "hypot a 0 = \<bar>a\<bar>"
  by (simp add: hypot_def)

lemma all_robots_demo: "all_robots demo_world = [holder_robot]"
  by (simp add: all_robots_def demo_world_def World_def)

lemma sees_demo:
  assumes "0 < bx" and "bx \<le> md" and "0 \<le> deg"
  shows "sees_ball_front holder_robot bx 0 md deg"
proof -
  have "atan2 0 bx = 0" using assms(1) by (simp add: atan2_def)
  then have "ball_relative holder_robot bx 0 = (bx, 0)"
    using assms(1) by (simp add: ball_relative_def holder_robot_def Robot_def hypot_axis wrap_pi_zero)
  then show ?thesis using assms by (simp add: sees_ball_front_def radians_def)
qed

lemma keeps_demo: "keeps_ball demo_world (35 / 100) 0 holder_robot"
proof -
  have "sees_ball_front holder_robot (35 / 100) 0 (45 / 100) 60"
    by (rule sees_demo) simp_all
  then show ?thesis
    by (simp add: keeps_ball_def demo_world_def World_def holder_robot_def)
qed

lemma demo_ball: "ball_x (w_ball demo_world) = 35 / 100" "ball_y (w_ball demo_world) = 0"
  by (simp_all add: demo_world_def Ball_def)

lemma possession_flags:
  assumes "kick_cooldown w \<le> 0"
  shows "all_robots (update_possession_and_anchor w dt) = set_flags (holder_of w) (all_robots w)"
proof -
  from assms have cd: "count_down w dt = w" by (simp add: count_down_def)
  define w1 where "w1 = put_robots w (set_flags (holder_of w) (all_robots w))"
  have a1: "all_robots w1 = set_flags (holder_of w) (all_robots w)"
    unfolding w1_def by (rule all_robots_put_robots) (simp add: set_flags_nth)
  have "update_possession_and_anchor w dt
        = (case holder_of w of None \<Rightarrow> w1
           | Some i \<Rightarrow> if sticky_enabled w1 then w1\<lparr> w_ball := anchor_ball w1 (all_robots w1 ! i) \<rparr>
                       else w1)"
    using assms
    by (simp add: update_possession_and_anchor_def cd Let_def holder_of_def w1_def
          split: option.split)
  then have "all_robots (update_possession_and_anchor w dt) = all_robots w1"
    by (simp add: all_robots_def split: option.split)
  with a1 show ?thesis by simp
qed

lemma hypot_sqrt: "hypot a b = sqrt (a\<^sup>2 + b\<^sup>2)"
  by (simp add: hypot_def power2_eq_square)

lemma sees_ball_front_cone:
  "sees_ball_front r (ball_x (w_ball w)) (ball_y (w_ball w)) md deg
   \<longleftrightarrow> ball_distance w r \<le> md \<and> \<bar>angular_error w r\<bar> \<le> deg * pi / 180"
  by (simp add: sees_ball_front_def ball_relative_def Let_def hypot_sqrt ball_distance_def
        angular_error_def radians_def)

lemma keeps_ball_cone:
  "keeps_ball w (ball_x (w_ball w)) (ball_y (w_ball w)) r \<longleftrightarrow> has_ball r \<and> in_off_cone w r"
  by (simp add: keeps_ball_def sees_ball_front_cone in_off_cone_def)

lemma can_take_cone:
  "can_take w (ball_x (w_ball w)) (ball_y (w_ball w)) r \<longleftrightarrow> active r \<and> in_on_cone w r"
  by (simp add: can_take_def sees_ball_front_cone in_on_cone_def)

lemma dist2_distance:
  "dist2 (ball_x (w_ball w)) (ball_y (w_ball w)) r = (ball_distance w r)\<^sup>2"
  by (simp add: dist2_def ball_distance_def power2_commute)

lemma ball_distance_nonneg: "0 \<le> ball_distance w r"
  by (simp add: ball_distance_def)

lemma dist2_le:
  "dist2 (ball_x (w_ball w)) (ball_y (w_ball w)) r \<le> dist2 (ball_x (w_ball w)) (ball_y (w_ball w)) r'
   \<longleftrightarrow> ball_distance w r \<le> ball_distance w r'"
proof -
  have "(ball_distance w r)\<^sup>2 \<le> (ball_distance w r')\<^sup>2
        \<longleftrightarrow> \<bar>ball_distance w r\<bar> \<le> \<bar>ball_distance w r'\<bar>"
    by (rule abs_le_square_iff [symmetric])
  then show ?thesis
    by (simp add: dist2_distance ball_distance_nonneg)
qed

lemma dist2_less:
  "dist2 (ball_x (w_ball w)) (ball_y (w_ball w)) r < dist2 (ball_x (w_ball w)) (ball_y (w_ball w)) r'
   \<longleftrightarrow> ball_distance w r < ball_distance w r'"
  using dist2_le [of w r' r] by (simp add: not_le [symmetric])

lemma atan2_polar:
  assumes "a \<noteq> 0 \<or> b \<noteq> 0"
  shows "hypot a b * cos (atan2 b a) = a" and "hypot a b * sin (atan2 b a) = b"
proof -
  have pos: "hypot a b = \<bar>a\<bar> * sqrt (1 + (b / a)\<^sup>2)" if "a \<noteq> 0"
  proof -
    have "a * a + b * b = a\<^sup>2 * (1 + (b / a)\<^sup>2)"
      using that by (simp add: power2_eq_square field_simps)
    then show ?thesis by (simp add: hypot_def real_sqrt_mult)
  qed
  have sp: "0 < sqrt (1 + (b / a)\<^sup>2)"
    by (simp add: add_pos_nonneg)
  have c: "hypot a b * cos (atan2 b a) = a \<and> hypot a b * sin (atan2 b a) = b"
  proof (cases "0 < a")
    case True
    then have "atan2 b a = arctan (b / a)" by (simp add: atan2_def)
    then show ?thesis using True sp pos by (simp add: cos_arctan sin_arctan)
  next
    case False
    show ?thesis
    proof (cases "a < 0")
      case True
      then have "cos (atan2 b a) = - cos (arctan (b / a))" "sin (atan2 b a) = - sin (arctan (b / a))"
        by (simp_all add: atan2_def)
      then show ?thesis using True sp pos by (simp add: cos_arctan sin_arctan)
    next
      case F2: False
      with False have a0: "a = 0" by simp
      with assms have "b \<noteq> 0" by simp
      then show ?thesis by (cases "0 < b") (simp_all add: a0 atan2_def hypot_def)
    qed
  qed
  from c show "hypot a b * cos (atan2 b a) = a" and "hypot a b * sin (atan2 b a) = b"
    by simp_all
qed

lemma angular_error_direction:
  assumes "0 < ball_distance w r"
  shows "ball_x (w_ball w) = rob_x r + ball_distance w r * cos (theta r + angular_error w r)"
    and "ball_y (w_ball w) = rob_y r + ball_distance w r * sin (theta r + angular_error w r)"
proof -
  define dx where "dx = ball_x (w_ball w) - rob_x r"
  define dy where "dy = ball_y (w_ball w) - rob_y r"
  define al where "al = atan2 dy dx"
  have d: "ball_distance w r = hypot dx dy"
    by (simp add: ball_distance_def hypot_sqrt dx_def dy_def)
  from assms have "dx \<noteq> 0 \<or> dy \<noteq> 0"
    by (auto simp: d hypot_def)
  from atan2_polar [OF this] have p: "hypot dx dy * cos al = dx" "hypot dx dy * sin al = dy"
    by (simp_all add: al_def)
  have e: "angular_error w r = wrap_pi (al - theta r)"
    by (simp add: angular_error_def al_def dx_def dy_def)
  have "cos (theta r + angular_error w r) = cos (theta r + (al - theta r))"
    unfolding e cos_add wrap_pi_direction by (rule refl)
  then have c: "cos (theta r + angular_error w r) = cos al" by simp
  have "sin (theta r + angular_error w r) = sin (theta r + (al - theta r))"
    unfolding e sin_add wrap_pi_direction by (rule refl)
  then have s: "sin (theta r + angular_error w r) = sin al" by simp
  show "ball_x (w_ball w) = rob_x r + ball_distance w r * cos (theta r + angular_error w r)"
    unfolding c d p by (simp add: dx_def)
  show "ball_y (w_ball w) = rob_y r + ball_distance w r * sin (theta r + angular_error w r)"
    unfolding s d p by (simp add: dy_def)
qed


lemma angular_error_range: "- pi \<le> angular_error w r" "angular_error w r \<le> pi"
  using wrap_pi_range by (simp_all add: angular_error_def less_imp_le)

lemma duo_robots: "all_robots (duo_world f) = [duo_left f, duo_right f]"
  by (simp add: all_robots_def duo_world_def World_def)

lemma duo_fields:
  "kick_cooldown (duo_world f) = 0"
  "ball_x (w_ball (duo_world f)) = 35 / 100" "ball_y (w_ball (duo_world f)) = 0"
  "cone_dist_on (duo_world f) = 35 / 100" "cone_angle_on_deg (duo_world f) = 40"
  "cone_dist_off (duo_world f) = 45 / 100" "cone_angle_off_deg (duo_world f) = 60"
  by (simp_all add: duo_world_def World_def Ball_def)

lemma duo_robot_fields:
  "rob_x (duo_left f) = 0" "rob_y (duo_left f) = 0" "theta (duo_left f) = 0"
  "active (duo_left f)" "has_ball (duo_left f) = f"
  "rob_x (duo_right f) = 65 / 100" "rob_y (duo_right f) = 0" "theta (duo_right f) = pi"
  "active (duo_right f)" "has_ball (duo_right f) = f"
  by (simp_all add: duo_left_def duo_right_def Robot_def)

lemma duo_flags:
  "(duo_left f)\<lparr> has_ball := g \<rparr> = duo_left g" "(duo_right f)\<lparr> has_ball := g \<rparr> = duo_right g"
  by (simp_all add: duo_left_def duo_right_def Robot_def)

lemma ball_distance_axis:
  assumes "ball_y (w_ball w) = rob_y r"
  shows "ball_distance w r = \<bar>ball_x (w_ball w) - rob_x r\<bar>"
  using assms by (simp add: ball_distance_def)

lemma duo_distance:
  "ball_distance (duo_world f) (duo_left g) = 35 / 100"
  "ball_distance (duo_world f) (duo_right g) = 30 / 100"
  by (subst ball_distance_axis; simp add: duo_fields duo_robot_fields)+

lemma duo_error:
  "angular_error (duo_world f) (duo_left g) = 0"
  "angular_error (duo_world f) (duo_right g) = 0"
  by (simp_all add: angular_error_def duo_fields duo_robot_fields atan2_def wrap_pi_zero)

lemma duo_cones:
  "in_on_cone (duo_world f) (duo_left g)" "in_on_cone (duo_world f) (duo_right g)"
  "in_off_cone (duo_world f) (duo_left g)" "in_off_cone (duo_world f) (duo_right g)"
  by (simp_all add: in_on_cone_def in_off_cone_def duo_distance duo_error duo_fields)

text \<open>
  Claim C2, as stated, in the world of the two robots that are both flagged and both see
  the ball in the wide cone: the scan for the keeper stops at the first such robot in
  iteration order, so the second one, flagged and inside the off cone, does not remain
  holder.
\<close>

theorem C2_second_keeper_counterexample:
  "kick_cooldown (duo_world True) \<le> 0
   \<and> has_ball (all_robots (duo_world True) ! 1)
   \<and> sees_ball_front (all_robots (duo_world True) ! 1)
         (ball_x (w_ball (duo_world True))) (ball_y (w_ball (duo_world True)))
         (cone_dist_off (duo_world True)) (cone_angle_off_deg (duo_world True))
   \<and> in_off_cone (duo_world True) (all_robots (duo_world True) ! 1)
   \<and> \<not> has_ball (all_robots (update_possession_and_anchor (duo_world True) (1 / 20)) ! 1)"
proof -
  define w where "w = duo_world True"
  have k: "kick_cooldown w \<le> 0" by (simp add: w_def duo_fields)
  have rs: "all_robots w = [duo_left True, duo_right True]" by (simp add: w_def duo_robots)
  have c: "in_off_cone w (duo_left True)" "in_off_cone w (duo_right True)"
    by (simp_all add: w_def duo_cones)
  have s: "sees_ball_front (duo_right True) (ball_x (w_ball w)) (ball_y (w_ball w))
             (cone_dist_off w) (cone_angle_off_deg w)"
    using c(2) by (simp add: sees_ball_front_cone in_off_cone_def)
  have "keeps_ball w (ball_x (w_ball w)) (ball_y (w_ball w)) (duo_left True)"
    using c(1) by (simp add: keeps_ball_cone duo_robot_fields)
  then have "find_keeper w (ball_x (w_ball w)) (ball_y (w_ball w)) (all_robots w) = Some 0"
    by (simp add: find_keeper_Some rs)
  then have h: "holder_of w = Some 0"
    by (simp add: holder_of_def determine_holder_def)
  have "all_robots (update_possession_and_anchor w (1 / 20)) = set_flags (Some 0) (all_robots w)"
    using possession_flags [OF k, of "1 / 20"] by (simp add: h)
  then have "\<not> has_ball (all_robots (update_possession_and_anchor w (1 / 20)) ! 1)"
    by (simp add: rs set_flags_nth)
  with k c s show ?thesis
    unfolding w_def [symmetric] by (simp add: rs duo_robot_fields)
qed

text \<open>
  Claim C2, amended: in a world whose \<open>kick_cooldown\<close> is not positive, the possession
  update determines the holder by hysteresis. If some robot flagged \<open>has_ball\<close> is inside
  the off cone (distance to the ball at most \<open>cone_dist_off\<close> and absolute angular error
  at most \<open>cone_angle_off_deg\<close>), the holder is the first such robot in iteration order
  (left team, then right team, each in roster order); otherwise, if some active robot is
  inside the on cone, the holder is such a robot at minimal distance from the ball, the
  first of these in iteration order; otherwise there is no holder. Afterwards the robots
  are the old ones with \<open>has_ball\<close> true exactly at the holder, so at most one robot of
  the whole world is flagged. The angular error is the angle in \<open>[-\<pi>, \<pi>]\<close> from the
  heading to the direction of the ball: the ball lies at its distance in the direction
  heading plus error.
\<close>

theorem C2_possession_hysteresis:
  assumes "kick_cooldown w \<le> 0"
  shows
   "((\<exists>i<length (all_robots w). has_ball (all_robots w ! i) \<and> in_off_cone w (all_robots w ! i)) \<longrightarrow>
      (\<exists>i. holder_of w = Some i \<and> i < length (all_robots w)
           \<and> has_ball (all_robots w ! i) \<and> in_off_cone w (all_robots w ! i)
           \<and> (\<forall>j<i. \<not> (has_ball (all_robots w ! j) \<and> in_off_cone w (all_robots w ! j)))))
    \<and> ((\<forall>i<length (all_robots w). \<not> (has_ball (all_robots w ! i) \<and> in_off_cone w (all_robots w ! i)))
        \<and> (\<exists>i<length (all_robots w). active (all_robots w ! i) \<and> in_on_cone w (all_robots w ! i)) \<longrightarrow>
         (\<exists>i. holder_of w = Some i \<and> i < length (all_robots w)
           \<and> active (all_robots w ! i) \<and> in_on_cone w (all_robots w ! i)
           \<and> (\<forall>j<length (all_robots w).
                  active (all_robots w ! j) \<and> in_on_cone w (all_robots w ! j) \<longrightarrow>
                  ball_distance w (all_robots w ! i) \<le> ball_distance w (all_robots w ! j))
           \<and> (\<forall>j<i. active (all_robots w ! j) \<and> in_on_cone w (all_robots w ! j) \<longrightarrow>
                  ball_distance w (all_robots w ! i) < ball_distance w (all_robots w ! j))))
    \<and> ((\<forall>i<length (all_robots w).
          \<not> (has_ball (all_robots w ! i) \<and> in_off_cone w (all_robots w ! i))
          \<and> \<not> (active (all_robots w ! i) \<and> in_on_cone w (all_robots w ! i))) \<longrightarrow>
         holder_of w = None)
    \<and> length (all_robots (update_possession_and_anchor w dt)) = length (all_robots w)
    \<and> (\<forall>i<length (all_robots w).
          all_robots (update_possession_and_anchor w dt) ! i
          = (all_robots w ! i)\<lparr> has_ball := (holder_of w = Some i) \<rparr>)
    \<and> (\<forall>i<length (all_robots w). \<forall>j<length (all_robots w).
          has_ball (all_robots (update_possession_and_anchor w dt) ! i)
          \<and> has_ball (all_robots (update_possession_and_anchor w dt) ! j) \<longrightarrow> i = j)
    \<and> (0 < ball_distance w r \<longrightarrow>
          ball_x (w_ball w) = rob_x r + ball_distance w r * cos (theta r + angular_error w r)
          \<and> ball_y (w_ball w) = rob_y r + ball_distance w r * sin (theta r + angular_error w r))
    \<and> (- pi \<le> angular_error w r \<and> angular_error w r \<le> pi)"
proof -
  define rs where "rs = all_robots w"
  define bx where "bx = ball_x (w_ball w)"
  define by' where "by' = ball_y (w_ball w)"
  have kb: "keeps_ball w bx by' q \<longleftrightarrow> has_ball q \<and> in_off_cone w q" for q
    unfolding bx_def by'_def by (rule keeps_ball_cone)
  have ct: "can_take w bx by' q \<longleftrightarrow> active q \<and> in_on_cone w q" for q
    unfolding bx_def by'_def by (rule can_take_cone)
  have dl: "dist2 bx by' q \<le> dist2 bx by' q' \<longleftrightarrow> ball_distance w q \<le> ball_distance w q'" for q q'
    unfolding bx_def by'_def by (rule dist2_le)
  have ds: "dist2 bx by' q < dist2 bx by' q' \<longleftrightarrow> ball_distance w q < ball_distance w q'" for q q'
    unfolding bx_def by'_def by (rule dist2_less)
  have h: "holder_of w = (case find_keeper w bx by' rs of Some i \<Rightarrow> Some i
                          | None \<Rightarrow> find_nearest w bx by' rs)"
    unfolding holder_of_def determine_holder_def rs_def bx_def by'_def by (rule refl)
  have keep: "\<exists>i. holder_of w = Some i \<and> i < length rs
           \<and> has_ball (rs ! i) \<and> in_off_cone w (rs ! i)
           \<and> (\<forall>j<i. \<not> (has_ball (rs ! j) \<and> in_off_cone w (rs ! j)))"
    if "\<exists>i<length rs. has_ball (rs ! i) \<and> in_off_cone w (rs ! i)"
  proof -
    from that have "find_keeper w bx by' rs \<noteq> None" by (simp add: find_keeper_None kb)
    then obtain i where i: "find_keeper w bx by' rs = Some i" by auto
    then have "holder_of w = Some i" by (simp add: h)
    with i show ?thesis by (auto simp: find_keeper_Some kb)
  qed
  have take: "\<exists>i. holder_of w = Some i \<and> i < length rs
           \<and> active (rs ! i) \<and> in_on_cone w (rs ! i)
           \<and> (\<forall>j<length rs. active (rs ! j) \<and> in_on_cone w (rs ! j) \<longrightarrow>
                  ball_distance w (rs ! i) \<le> ball_distance w (rs ! j))
           \<and> (\<forall>j<i. active (rs ! j) \<and> in_on_cone w (rs ! j) \<longrightarrow>
                  ball_distance w (rs ! i) < ball_distance w (rs ! j))"
    if "(\<forall>i<length rs. \<not> (has_ball (rs ! i) \<and> in_off_cone w (rs ! i)))
        \<and> (\<exists>i<length rs. active (rs ! i) \<and> in_on_cone w (rs ! i))"
  proof -
    from that have fk: "find_keeper w bx by' rs = None" by (simp add: find_keeper_None kb)
    then have hn: "holder_of w = find_nearest w bx by' rs" by (simp add: h)
    from that find_nearest_None [of w bx by' rs] have "find_nearest w bx by' rs \<noteq> None"
      unfolding ct by blast
    then obtain i where i: "find_nearest w bx by' rs = Some i" by auto
    from find_nearest_Some [OF i] i hn show ?thesis unfolding ct dl ds by auto
  qed
  have none: "holder_of w = None"
    if "\<forall>i<length rs. \<not> (has_ball (rs ! i) \<and> in_off_cone w (rs ! i))
          \<and> \<not> (active (rs ! i) \<and> in_on_cone w (rs ! i))"
  proof -
    from that have fk: "find_keeper w bx by' rs = None" by (simp add: find_keeper_None kb)
    have "find_nearest w bx by' rs = None"
    proof (rule ccontr)
      assume "find_nearest w bx by' rs \<noteq> None"
      then obtain i where i: "find_nearest w bx by' rs = Some i" by auto
      from find_nearest_Some [OF i] that show False unfolding ct by blast
    qed
    with fk show ?thesis by (simp add: h)
  qed
  have flags: "all_robots (update_possession_and_anchor w dt) = set_flags (holder_of w) rs"
    unfolding rs_def by (rule possession_flags [OF assms])
  have len: "length (all_robots (update_possession_and_anchor w dt)) = length rs"
    by (simp add: flags set_flags_nth)
  have nth: "\<forall>i<length rs. all_robots (update_possession_and_anchor w dt) ! i
          = (rs ! i)\<lparr> has_ball := (holder_of w = Some i) \<rparr>"
    by (simp add: flags set_flags_nth)
  then have uniq: "\<forall>i<length rs. \<forall>j<length rs.
          has_ball (all_robots (update_possession_and_anchor w dt) ! i)
          \<and> has_ball (all_robots (update_possession_and_anchor w dt) ! j) \<longrightarrow> i = j"
    by auto
  have geo: "ball_x (w_ball w) = rob_x r + ball_distance w r * cos (theta r + angular_error w r)
          \<and> ball_y (w_ball w) = rob_y r + ball_distance w r * sin (theta r + angular_error w r)"
    if "0 < ball_distance w r"
    using angular_error_direction [OF that] by simp
  have rng: "- pi \<le> angular_error w r \<and> angular_error w r \<le> pi"
    by (simp add: angular_error_range)
  from keep take none len nth uniq geo rng show ?thesis
    unfolding rs_def by blast
qed

theorem C2_possession_witness:
  "kick_cooldown (duo_world False) \<le> 0
   \<and> \<not> has_ball (all_robots (duo_world False) ! 0)
   \<and> \<not> has_ball (all_robots (duo_world False) ! 1)
   \<and> active (all_robots (duo_world False) ! 0)
   \<and> in_on_cone (duo_world False) (all_robots (duo_world False) ! 0)
   \<and> active (all_robots (duo_world False) ! 1)
   \<and> in_on_cone (duo_world False) (all_robots (duo_world False) ! 1)
   \<and> ball_distance (duo_world False) (all_robots (duo_world False) ! 1)
       < ball_distance (duo_world False) (all_robots (duo_world False) ! 0)
   \<and> 0 < ball_distance (duo_world False) (duo_right False)
   \<and> holder_of (duo_world False) = Some 1
   \<and> all_robots (update_possession_and_anchor (duo_world False) (1 / 20))
       = [duo_left False, duo_right True]
   \<and> ball_x (w_ball (duo_world False))
       = rob_x (duo_right False) + ball_distance (duo_world False) (duo_right False)
           * cos (theta (duo_right False) + angular_error (duo_world False) (duo_right False))"
proof -
  define w where "w = duo_world False"
  have k: "kick_cooldown w \<le> 0" by (simp add: w_def duo_fields)
  have rs: "all_robots w = [duo_left False, duo_right False]" by (simp add: w_def duo_robots)
  have f: "\<not> has_ball (all_robots w ! 0)" "\<not> has_ball (all_robots w ! 1)"
    "active (all_robots w ! 0)" "active (all_robots w ! 1)"
    by (simp_all add: rs duo_robot_fields)
  have c: "in_on_cone w (all_robots w ! 0)" "in_on_cone w (all_robots w ! 1)"
    unfolding rs unfolding w_def by (simp_all add: duo_cones)
  have d: "ball_distance w (all_robots w ! 0) = 35 / 100"
    "ball_distance w (all_robots w ! 1) = 30 / 100"
    unfolding rs unfolding w_def by (simp_all add: duo_distance)
  have dp: "0 < ball_distance w (duo_right False)" by (simp add: w_def duo_distance)
  note inst = C2_possession_hysteresis [OF k, of "1 / 20" "duo_right False"]
  have nk: "\<forall>i<length (all_robots w). \<not> (has_ball (all_robots w ! i) \<and> in_off_cone w (all_robots w ! i))"
    using f by (simp add: rs less_Suc_eq)
  have ex: "\<exists>i<length (all_robots w). active (all_robots w ! i) \<and> in_on_cone w (all_robots w ! i)"
    using f(3) c(1) by (auto simp: rs)
  from inst nk ex obtain i where i: "holder_of w = Some i" "i < length (all_robots w)"
    "\<forall>j<length (all_robots w). active (all_robots w ! j) \<and> in_on_cone w (all_robots w ! j) \<longrightarrow>
        ball_distance w (all_robots w ! i) \<le> ball_distance w (all_robots w ! j)"
    by blast
  have "i \<noteq> 0"
  proof
    assume "i = 0"
    have "(1::nat) < length (all_robots w)" by (simp add: rs)
    with i(3) f(4) c(2) \<open>i = 0\<close>
    have "ball_distance w (all_robots w ! 0) \<le> ball_distance w (all_robots w ! 1)"
      by blast
    then show False unfolding d by simp
  qed
  with i(2) have i1: "i = 1" by (simp add: rs)
  with i(1) have h: "holder_of w = Some 1" by simp
  from inst have "length (all_robots (update_possession_and_anchor w (1 / 20))) = length (all_robots w)"
    and "\<forall>i<length (all_robots w).
          all_robots (update_possession_and_anchor w (1 / 20)) ! i
          = (all_robots w ! i)\<lparr> has_ball := (holder_of w = Some i) \<rparr>"
    by blast+
  then have after: "all_robots (update_possession_and_anchor w (1 / 20)) = [duo_left False, duo_right True]"
    by (intro nth_equalityI) (auto simp: rs h duo_flags less_Suc_eq)
  from inst dp have g: "ball_x (w_ball w)
       = rob_x (duo_right False) + ball_distance w (duo_right False)
           * cos (theta (duo_right False) + angular_error w (duo_right False))"
    by blast
  from k f c d dp h after g show ?thesis
    unfolding w_def [symmetric] by (simp add: rs)
qed

section \<open>The tick of the world\<close>

lemma all_robots_team_update:
  "all_robots (w\<lparr> team_left := team_update (team_left w) dt,
                  team_right := team_update (team_right w) dt \<rparr>)
   = map (\<lambda>r. update r dt) (all_robots w)"
  by (simp add: all_robots_def team_update_def case_prod_beta comp_def)

lemma length_put_active: "length (put_active rs acts) = length rs"
  by (induction rs acts rule: put_active.induct) (auto split: list.split)

lemma all_robots_enforce:
  "all_robots (enforce_no_overlap w it cl re li rnd)
   = put_active (all_robots w) (resolve_active w it cl re li rnd (filter active (all_robots w)))"
  unfolding enforce_no_overlap_def
  by (rule all_robots_put_robots) (simp add: length_put_active)

lemma all_robots_put_flags:
  "all_robots (put_robots w (set_flags h (all_robots w))) = set_flags h (all_robots w)"
  by (rule all_robots_put_robots) (simp add: set_flags_nth)

lemma possession_unfold:
  assumes "\<not> 0 < kick_cooldown (count_down w dt)"
  shows "update_possession_and_anchor w dt
     = (case holder_of (count_down w dt) of
          None \<Rightarrow> put_robots (count_down w dt)
                    (set_flags (holder_of (count_down w dt)) (all_robots (count_down w dt)))
        | Some i \<Rightarrow>
            if sticky_enabled (count_down w dt)
            then (put_robots (count_down w dt)
                    (set_flags (holder_of (count_down w dt)) (all_robots (count_down w dt))))
                   \<lparr> w_ball := anchor_ball
                       (put_robots (count_down w dt)
                          (set_flags (holder_of (count_down w dt)) (all_robots (count_down w dt))))
                       (set_flags (holder_of (count_down w dt)) (all_robots (count_down w dt)) ! i) \<rparr>
            else put_robots (count_down w dt)
                   (set_flags (holder_of (count_down w dt)) (all_robots (count_down w dt))))"
  using assms
  by (simp add: update_possession_and_anchor_def Let_def holder_of_def [symmetric]
        all_robots_put_flags put_robots_frame split: option.split)

lemma anchor_ball_point:
  "(ball_x (anchor_ball w r), ball_y (anchor_ball w r)) = anchor_point w r"
  by (simp add: anchor_ball_def anchor_point_def dribble_anchor_def Let_def set_pos_def
        ball_set_vel_def half_side_def half_w_def half_h_def clamp_def algebra_simps)

lemma anchor_point_frame:
  "anchor_point (w\<lparr> w_ball := b \<rparr>) r = anchor_point w r"
  by (simp add: anchor_point_def Let_def)

lemma put_robots_cones:
  "cone_dist_on (put_robots w rs) = cone_dist_on w"
  "cone_angle_on_deg (put_robots w rs) = cone_angle_on_deg w"
  "cone_dist_off (put_robots w rs) = cone_dist_off w"
  "cone_angle_off_deg (put_robots w rs) = cone_angle_off_deg w"
  by (simp_all add: put_robots_def Let_def)

lemma runner_fields:
  "rob_x (runner_robot\<lparr> rob_x := a \<rparr>) = a" "rob_y (runner_robot\<lparr> rob_x := a \<rparr>) = 0"
  "theta (runner_robot\<lparr> rob_x := a \<rparr>) = 0" "rob_vx (runner_robot\<lparr> rob_x := a \<rparr>) = 1"
  "rob_vy (runner_robot\<lparr> rob_x := a \<rparr>) = 0" "omega (runner_robot\<lparr> rob_x := a \<rparr>) = 0"
  "side_len (runner_robot\<lparr> rob_x := a \<rparr>) = 45 / 100"
  "active (runner_robot\<lparr> rob_x := a \<rparr>)" "has_ball (runner_robot\<lparr> rob_x := a \<rparr>)"
  by (simp_all add: runner_robot_def holder_robot_def Robot_def)

lemma update_runner:
  assumes "0 < dt"
  shows "update runner_robot dt = runner_robot\<lparr> rob_x := dt \<rparr>"
proof -
  have tv: "target_vel runner_robot dt = (1, 0)"
    by (simp add: target_vel_def runner_robot_def holder_robot_def Robot_def hypot_def)
  have sv: "step_vel runner_robot dt = (1, 0)"
    using assms
    by (simp add: step_vel_def tv) (simp add: runner_robot_def holder_robot_def Robot_def hypot_def)
  have so: "step_omega runner_robot dt = 0"
    using assms
    by (simp add: step_omega_def runner_robot_def holder_robot_def Robot_def clamp_def)
  show ?thesis
    using assms
    by (simp add: update_def sv so wrap_pi_zero)
       (simp add: runner_robot_def holder_robot_def Robot_def wrap_pi_zero)
qed

lemma sees_ahead:
  assumes "theta r = 0" and "rob_y r = 0" and "rob_x r < bx" and "bx - rob_x r \<le> md"
    and "0 \<le> deg"
  shows "sees_ball_front r bx 0 md deg"
proof -
  have "atan2 0 (bx - rob_x r) = 0" using assms(3) by (simp add: atan2_def)
  then have "ball_relative r bx 0 = (bx - rob_x r, 0)"
    using assms(1,2,3) by (simp add: ball_relative_def hypot_axis wrap_pi_zero)
  then show ?thesis using assms by (simp add: sees_ball_front_def radians_def)
qed

lemma clamp_runner:
  assumes "half_w w = 11" and "half_h w = 7" and "\<bar>a\<bar> \<le> 10"
  shows "clamp_robot_inside_field w (runner_robot\<lparr> rob_x := a \<rparr>) = runner_robot\<lparr> rob_x := a \<rparr>"
proof -
  have he: "half_extents_xy (runner_robot\<lparr> rob_x := a \<rparr>) = (225 / 1000, 225 / 1000)"
    by (simp add: half_extents_xy_def half_side_def runner_fields Let_def)
  show ?thesis
    using assms
    by (simp add: clamp_robot_inside_field_def he runner_fields clamp_def)
       (simp add: runner_robot_def holder_robot_def Robot_def)
qed

lemma ball_update_xy:
  assumes "0 < dt"
  shows "ball_x (ball_update b dt (Some hw) (Some hh) Clip)
     = (if ball_x b + ball_vx b * dt > hw - radius b then hw - radius b
        else if ball_x b + ball_vx b * dt < - (hw - radius b) then - (hw - radius b)
        else ball_x b + ball_vx b * dt)"
    and "ball_y (ball_update b dt (Some hw) (Some hh) Clip)
     = (if ball_y b + ball_vy b * dt > hh - radius b then hh - radius b
        else if ball_y b + ball_vy b * dt < - (hh - radius b) then - (hh - radius b)
        else ball_y b + ball_vy b * dt)"
  using assms
  by (simp_all add: ball_update_def ball_integrate_def bound_x_def bound_y_def Let_def)

lemma runner_tick:
  assumes "robots (team_left w) = [(1, runner_robot)]" and "robots (team_right w) = []"
    and "field_w w = 22" and "field_h w = 14" and "kick_cooldown w = 0"
    and "w_ball w = Ball\<lparr> ball_x := 35 / 100 \<rparr>"
    and "cone_dist_off w = 45 / 100" and "cone_angle_off_deg w = 60"
    and "sticky_enabled w" and "sticky_clip_field w"
    and "sticky_ball_radius w = 11 / 100" and "sticky_gap w = 15 / 1000"
  shows "all_robots (world_update w (1 / 10) rnd) = [runner_robot\<lparr> rob_x := 1 / 10 \<rparr>]"
    and "ball_x (w_ball (world_update w (1 / 10) rnd)) = 55 / 100"
    and "ball_y (w_ball (world_update w (1 / 10) rnd)) = 0"
    and "w_t (world_update w (1 / 10) rnd) = w_t w + 1 / 10"
    and "anchor_point (world_update w (1 / 10) rnd) (runner_robot\<lparr> rob_x := 1 / 10 \<rparr>)
         = (45 / 100, 0)"
proof -
  define r1 where "r1 = runner_robot\<lparr> rob_x := 1 / 10 \<rparr>"
  define w1 where "w1 = w\<lparr> team_left := team_update (team_left w) (1 / 10),
                        team_right := team_update (team_right w) (1 / 10) \<rparr>"
  define w2 where "w2 = enforce_no_overlap w1 6 (1 / 100) 0 (10 / 100) rnd"
  define w3 where "w3 = update_possession_and_anchor w2 (1 / 10)"
  have a0: "all_robots w = [runner_robot]" using assms(1,2) by (simp add: all_robots_def)
  have a1: "all_robots w1 = [r1]"
    unfolding w1_def all_robots_team_update a0 r1_def by (simp add: update_runner)
  have h1: "half_w w1 = 11" "half_h w1 = 7"
    using assms(3,4) by (simp_all add: w1_def half_w_def half_h_def)
  have act: "active r1" by (simp add: r1_def runner_fields)
  have cl: "clamp_robot_inside_field w1 r1 = r1"
    unfolding r1_def by (rule clamp_runner [OF h1]) simp
  have a2: "all_robots w2 = [r1]"
    unfolding w2_def all_robots_enforce a1 using act by (simp add: resolve_active_def cl)
  have f2: "kick_cooldown w2 = 0" "w_ball w2 = Ball\<lparr> ball_x := 35 / 100 \<rparr>"
    "cone_dist_off w2 = 45 / 100" "cone_angle_off_deg w2 = 60" "sticky_enabled w2"
    "sticky_clip_field w2" "sticky_ball_radius w2 = 11 / 100" "sticky_gap w2 = 15 / 1000"
    "half_w w2 = 11" "half_h w2 = 7" "w_t w2 = w_t w" "field_w w2 = 22" "field_h w2 = 14"
    using assms
    by (simp_all add: w2_def enforce_no_overlap_def put_robots_frame put_robots_cones
          half_put_robots h1) (simp_all add: w1_def)
  have cd: "count_down w2 (1 / 10) = w2" by (simp add: count_down_def f2)
  have sees: "sees_ball_front r1 (35 / 100) 0 (45 / 100) 60"
    by (rule sees_ahead) (simp_all add: r1_def runner_fields)
  then have kb: "keeps_ball w2 (35 / 100) 0 r1"
    by (simp add: keeps_ball_def f2 r1_def runner_fields)
  have "find_keeper w2 (35 / 100) 0 [r1] = Some 0"
    using kb by (simp add: find_keeper_Some)
  then have ho: "holder_of w2 = Some 0"
    by (simp add: holder_of_def determine_holder_def a2 f2 Ball_def)
  have sf: "set_flags (Some 0) [r1] = [r1]"
    by (simp add: set_flags_def r1_def runner_robot_def holder_robot_def Robot_def)
  define w2' where "w2' = put_robots w2 [r1]"
  have f2': "sticky_clip_field w2'" "sticky_ball_radius w2' = 11 / 100"
    "sticky_gap w2' = 15 / 1000" "half_w w2' = 11" "half_h w2' = 7"
    "w_ball w2' = Ball\<lparr> ball_x := 35 / 100 \<rparr>" "w_t w2' = w_t w"
    "field_w w2' = 22" "field_h w2' = 14"
    by (simp_all add: w2'_def put_robots_frame half_put_robots f2)
  have a2': "all_robots w2' = [r1]"
    unfolding w2'_def by (rule all_robots_put_robots) (simp add: a2)
  have w3: "w3 = w2'\<lparr> w_ball := anchor_ball w2' r1 \<rparr>"
    unfolding w3_def using possession_unfold [of w2 "1 / 10"]
    by (simp add: cd f2 ho a2 sf w2'_def)
  have da: "dribble_anchor r1 (11 / 100) (15 / 1000) = (45 / 100, 0, 1, 0)"
    by (simp add: dribble_anchor_def half_side_def r1_def runner_fields)
  have ab: "anchor_ball w2' r1 = Ball\<lparr> ball_x := 45 / 100, ball_vx := 1 \<rparr>"
    using da by (simp add: anchor_ball_def f2' set_pos_def ball_set_vel_def Ball_def)
  have f3: "w_ball w3 = Ball\<lparr> ball_x := 45 / 100, ball_vx := 1 \<rparr>" "half_w w3 = 11"
    "half_h w3 = 7" "w_t w3 = w_t w" "all_robots w3 = [r1]"
    "field_w w3 = 22" "field_h w3 = 14" "sticky_clip_field w3"
    "sticky_ball_radius w3 = 11 / 100" "sticky_gap w3 = 15 / 1000"
    using f2' a2' by (simp_all add: w3 ab half_w_def half_h_def all_robots_def)
  have wu: "world_update w (1 / 10) rnd
      = (w3\<lparr> w_ball := ball_update (w_ball w3) (1 / 10) (Some (half_w w3)) (Some (half_h w3)) Clip \<rparr>)
          \<lparr> w_t := w_t w3 + 1 / 10 \<rparr>"
    by (simp add: world_update_def Let_def w1_def w2_def w3_def)
  show "all_robots (world_update w (1 / 10) rnd) = [runner_robot\<lparr> rob_x := 1 / 10 \<rparr>]"
    using f3(5) by (simp add: wu all_robots_def r1_def)
  show "ball_x (w_ball (world_update w (1 / 10) rnd)) = 55 / 100"
    by (simp add: wu f3 ball_update_xy Ball_def)
  show "ball_y (w_ball (world_update w (1 / 10) rnd)) = 0"
    by (simp add: wu f3 ball_update_xy Ball_def)
  show "w_t (world_update w (1 / 10) rnd) = w_t w + 1 / 10"
    by (simp add: wu f3)
  show "anchor_point (world_update w (1 / 10) rnd) (runner_robot\<lparr> rob_x := 1 / 10 \<rparr>)
         = (45 / 100, 0)"
    by (simp add: wu anchor_point_def f3 runner_fields clamp_def)
qed

lemma moving_world_fields:
  "robots (team_left (moving_world\<lparr> w_state := st \<rparr>)) = [(1, runner_robot)]"
  "robots (team_right (moving_world\<lparr> w_state := st \<rparr>)) = []"
  "field_w (moving_world\<lparr> w_state := st \<rparr>) = 22"
  "field_h (moving_world\<lparr> w_state := st \<rparr>) = 14"
  "kick_cooldown (moving_world\<lparr> w_state := st \<rparr>) = 0"
  "w_ball (moving_world\<lparr> w_state := st \<rparr>) = Ball\<lparr> ball_x := 35 / 100 \<rparr>"
  "cone_dist_off (moving_world\<lparr> w_state := st \<rparr>) = 45 / 100"
  "cone_angle_off_deg (moving_world\<lparr> w_state := st \<rparr>) = 60"
  "sticky_enabled (moving_world\<lparr> w_state := st \<rparr>)"
  "sticky_clip_field (moving_world\<lparr> w_state := st \<rparr>)"
  "sticky_ball_radius (moving_world\<lparr> w_state := st \<rparr>) = 11 / 100"
  "sticky_gap (moving_world\<lparr> w_state := st \<rparr>) = 15 / 1000"
  by (simp_all add: moving_world_def demo_world_def World_def)

lemma moving_world_state: "moving_world\<lparr> w_state := Stopped \<rparr> = moving_world"
  by (simp add: moving_world_def demo_world_def World_def)

lemmas moving_tick = runner_tick [OF moving_world_fields]

lemma holder_fields:
  "rob_x holder_robot = 0" "rob_y holder_robot = 0" "theta holder_robot = 0"
  "rob_vx holder_robot = 0" "rob_vy holder_robot = 0" "omega holder_robot = 0"
  "side_len holder_robot = 45 / 100" "active holder_robot" "has_ball holder_robot"
  by (simp_all add: holder_robot_def Robot_def)

lemma update_holder:
  assumes "0 < dt"
  shows "update holder_robot dt = holder_robot"
proof -
  have tv: "target_vel holder_robot dt = (0, 0)"
    by (simp add: target_vel_def holder_robot_def Robot_def hypot_def)
  have sv: "step_vel holder_robot dt = (0, 0)"
    using assms
    by (simp add: step_vel_def tv) (simp add: holder_robot_def Robot_def hypot_def)
  have so: "step_omega holder_robot dt = 0"
    using assms by (simp add: step_omega_def holder_robot_def Robot_def clamp_def)
  show ?thesis
    using assms
    by (simp add: update_def sv so wrap_pi_zero)
       (simp add: holder_robot_def Robot_def wrap_pi_zero)
qed

lemma clamp_holder:
  assumes "half_w w = 11" and "half_h w = 7"
  shows "clamp_robot_inside_field w holder_robot = holder_robot"
proof -
  have he: "half_extents_xy holder_robot = (225 / 1000, 225 / 1000)"
    by (simp add: half_extents_xy_def half_side_def holder_fields Let_def)
  show ?thesis
    using assms
    by (simp add: clamp_robot_inside_field_def he holder_fields clamp_def)
qed

lemma loose_tick:
  "all_robots (world_update loose_world (1 / 10) rnd) = [holder_robot]"
  "ball_x (w_ball (world_update loose_world (1 / 10) rnd)) = 30 / 100"
  "ball_y (w_ball (world_update loose_world (1 / 10) rnd)) = 0"
  "anchor_point (world_update loose_world (1 / 10) rnd) holder_robot = (35 / 100, 0)"
proof -
  define w where "w = loose_world"
  define w1 where "w1 = w\<lparr> team_left := team_update (team_left w) (1 / 10),
                        team_right := team_update (team_right w) (1 / 10) \<rparr>"
  define w2 where "w2 = enforce_no_overlap w1 6 (1 / 100) 0 (10 / 100) rnd"
  define w3 where "w3 = update_possession_and_anchor w2 (1 / 10)"
  have f0: "field_w w = 22" "field_h w = 14" "kick_cooldown w = 0"
    "w_ball w = Ball\<lparr> ball_x := 30 / 100 \<rparr>" "cone_dist_off w = 45 / 100"
    "cone_angle_off_deg w = 60" "\<not> sticky_enabled w" "sticky_clip_field w"
    "sticky_ball_radius w = 11 / 100" "sticky_gap w = 15 / 1000"
    by (simp_all add: w_def loose_world_def demo_world_def World_def)
  have a0: "all_robots w = [holder_robot]"
    by (simp add: w_def all_robots_def loose_world_def demo_world_def World_def)
  have a1: "all_robots w1 = [holder_robot]"
    unfolding w1_def all_robots_team_update a0 by (simp add: update_holder)
  have h1: "half_w w1 = 11" "half_h w1 = 7"
    using f0(1,2) by (simp_all add: w1_def half_w_def half_h_def)
  have cl: "clamp_robot_inside_field w1 holder_robot = holder_robot"
    by (rule clamp_holder [OF h1])
  have a2: "all_robots w2 = [holder_robot]"
    unfolding w2_def all_robots_enforce a1 by (simp add: resolve_active_def cl holder_fields)
  have f2: "kick_cooldown w2 = 0" "w_ball w2 = Ball\<lparr> ball_x := 30 / 100 \<rparr>"
    "cone_dist_off w2 = 45 / 100" "cone_angle_off_deg w2 = 60" "\<not> sticky_enabled w2"
    "sticky_clip_field w2" "sticky_ball_radius w2 = 11 / 100" "sticky_gap w2 = 15 / 1000"
    "half_w w2 = 11" "half_h w2 = 7" "field_w w2 = 22" "field_h w2 = 14"
    using f0
    by (simp_all add: w2_def enforce_no_overlap_def put_robots_frame put_robots_cones
          half_put_robots h1) (simp_all add: w1_def)
  have cd: "count_down w2 (1 / 10) = w2" by (simp add: count_down_def f2)
  have sees: "sees_ball_front holder_robot (30 / 100) 0 (45 / 100) 60"
    by (rule sees_ahead) (simp_all add: holder_fields)
  then have kb: "keeps_ball w2 (30 / 100) 0 holder_robot"
    by (simp add: keeps_ball_def f2 holder_fields)
  have "find_keeper w2 (30 / 100) 0 [holder_robot] = Some 0"
    using kb by (simp add: find_keeper_Some)
  then have ho: "holder_of w2 = Some 0"
    by (simp add: holder_of_def determine_holder_def a2 f2 Ball_def)
  have sf: "set_flags (Some 0) [holder_robot] = [holder_robot]"
    by (simp add: set_flags_def holder_robot_def Robot_def)
  have w3: "w3 = put_robots w2 [holder_robot]"
    unfolding w3_def using possession_unfold [of w2 "1 / 10"]
    by (simp add: cd f2 ho a2 sf)
  have a3: "all_robots w3 = [holder_robot]"
    unfolding w3 by (rule all_robots_put_robots) (simp add: a2)
  have f3: "w_ball w3 = Ball\<lparr> ball_x := 30 / 100 \<rparr>" "half_w w3 = 11" "half_h w3 = 7"
    "field_w w3 = 22" "field_h w3 = 14" "sticky_clip_field w3"
    "sticky_ball_radius w3 = 11 / 100" "sticky_gap w3 = 15 / 1000"
    by (simp_all add: w3 put_robots_frame half_put_robots f2)
  have wu: "world_update loose_world (1 / 10) rnd
      = (w3\<lparr> w_ball := ball_update (w_ball w3) (1 / 10) (Some (half_w w3)) (Some (half_h w3)) Clip \<rparr>)
          \<lparr> w_t := w_t w3 + 1 / 10 \<rparr>"
    by (simp add: world_update_def Let_def w1_def w2_def w3_def w_def)
  show "all_robots (world_update loose_world (1 / 10) rnd) = [holder_robot]"
    using a3 by (simp add: wu all_robots_def)
  show "ball_x (w_ball (world_update loose_world (1 / 10) rnd)) = 30 / 100"
    by (simp add: wu f3 ball_update_xy Ball_def)
  show "ball_y (w_ball (world_update loose_world (1 / 10) rnd)) = 0"
    by (simp add: wu f3 ball_update_xy Ball_def)
  show "anchor_point (world_update loose_world (1 / 10) rnd) holder_robot = (35 / 100, 0)"
    by (simp add: wu anchor_point_def f3 holder_fields clamp_def)
qed

lemma count_down_frame:
  "all_robots (count_down w dt) = all_robots w" "w_ball (count_down w dt) = w_ball w"
  "half_w (count_down w dt) = half_w w" "half_h (count_down w dt) = half_h w"
  "sticky_enabled (count_down w dt) = sticky_enabled w"
  by (simp_all add: count_down_def all_robots_def half_w_def half_h_def)

lemma possession_frame:
  "half_w (update_possession_and_anchor w dt) = half_w w"
  "half_h (update_possession_and_anchor w dt) = half_h w"
  "radius (w_ball (update_possession_and_anchor w dt)) = radius (w_ball w)"
proof -
  have a: "half_w (v\<lparr> w_ball := b \<rparr>) = half_w v" "half_h (v\<lparr> w_ball := b \<rparr>) = half_h v" for v b
    by (simp_all add: half_w_def half_h_def)
  have r: "radius (anchor_ball v q) = radius (w_ball v)" for v q
    by (simp add: anchor_ball_def set_pos_def ball_set_vel_def Let_def split: prod.split)
  show "half_w (update_possession_and_anchor w dt) = half_w w"
    by (simp add: update_possession_and_anchor_def Let_def half_put_robots count_down_frame a
          split: option.split)
  show "half_h (update_possession_and_anchor w dt) = half_h w"
    by (simp add: update_possession_and_anchor_def Let_def half_put_robots count_down_frame a
          split: option.split)
  show "radius (w_ball (update_possession_and_anchor w dt)) = radius (w_ball w)"
    by (simp add: update_possession_and_anchor_def Let_def put_robots_frame count_down_frame r
          split: option.split)
qed

lemma anchor_ball_again:
  "anchor_ball (v\<lparr> w_ball := anchor_ball v q \<rparr>) q = anchor_ball v q"
  by (simp add: anchor_ball_def set_pos_def ball_set_vel_def Let_def half_w_def half_h_def
        split: prod.split)

lemma anchored_ball:
  assumes "sticky_enabled w"
  shows "\<forall>r \<in> set (all_robots (update_possession_and_anchor w dt)). has_ball r \<longrightarrow>
           w_ball (update_possession_and_anchor w dt)
           = anchor_ball (update_possession_and_anchor w dt) r"
proof (cases "0 < kick_cooldown (count_down w dt)")
  case True
  have "all_robots (update_possession_and_anchor w dt)
        = map (\<lambda>r. r\<lparr> has_ball := False \<rparr>) (all_robots (count_down w dt))"
    using True
    by (simp add: update_possession_and_anchor_def Let_def all_robots_put_robots)
  then show ?thesis by auto
next
  case False
  define w0 where "w0 = count_down w dt"
  define h where "h = holder_of w0"
  define rs where "rs = set_flags h (all_robots w0)"
  define w1 where "w1 = put_robots w0 rs"
  have st: "sticky_enabled w0" using assms by (simp add: w0_def count_down_def)
  have a1: "all_robots w1 = rs"
    unfolding w1_def rs_def by (rule all_robots_put_robots) (simp add: set_flags_nth)
  have unf: "update_possession_and_anchor w dt
     = (case h of None \<Rightarrow> w1 | Some i \<Rightarrow> w1\<lparr> w_ball := anchor_ball w1 (rs ! i) \<rparr>)"
    unfolding possession_unfold [OF False] w0_def [symmetric] h_def [symmetric]
      rs_def [symmetric] w1_def [symmetric]
    using st by (simp split: option.split)
  show ?thesis
  proof (cases h)
    case None
    then have "all_robots (update_possession_and_anchor w dt) = rs"
      by (simp add: unf a1)
    moreover have "\<forall>r \<in> set rs. \<not> has_ball r"
      using None by (auto simp: rs_def set_flags_def)
    ultimately show ?thesis by simp
  next
    case (Some i)
    then have w': "update_possession_and_anchor w dt = w1\<lparr> w_ball := anchor_ball w1 (rs ! i) \<rparr>"
      by (simp add: unf)
    have ar: "all_robots (update_possession_and_anchor w dt) = rs"
      by (simp add: w' all_robots_def a1 [symmetric])
    have "r = rs ! i" if "r \<in> set rs" and "has_ball r" for r
    proof -
      from that(1) obtain j where j: "j < length rs" "r = rs ! j"
        by (auto simp: in_set_conv_nth)
      then have "j < length (all_robots w0)" by (simp add: rs_def set_flags_nth)
      with j that(2) have "h = Some j" by (simp add: rs_def set_flags_nth)
      with Some j show ?thesis by simp
    qed
    then show ?thesis
      unfolding ar unfolding w' by (auto simp: anchor_ball_again)
  qed
qed

lemma anchor_ball_rest:
  assumes "rob_vx r = 0" and "rob_vy r = 0" and "omega r = 0"
  shows "ball_vx (anchor_ball v r) = 0" "ball_vy (anchor_ball v r) = 0"
  using assms
  by (simp_all add: anchor_ball_def dribble_anchor_def set_pos_def ball_set_vel_def Let_def)

lemma anchor_point_tick:
  "anchor_point (v\<lparr> w_ball := b, w_t := t \<rparr>) r = anchor_point v r"
  by (simp add: anchor_point_def Let_def)

lemma resting_holder_ball:
  assumes dt: "0 < dt" and st: "sticky_enabled w"
    and r: "r \<in> set (all_robots (world_update w dt rnd))" and hb: "has_ball r"
    and rest: "rob_vx r = 0" "rob_vy r = 0" "omega r = 0"
  shows "ball_x (w_ball (world_update w dt rnd))
         = (if fst (anchor_point (world_update w dt rnd) r) > half_w w - radius (w_ball w)
            then half_w w - radius (w_ball w)
            else if fst (anchor_point (world_update w dt rnd) r) < - (half_w w - radius (w_ball w))
            then - (half_w w - radius (w_ball w))
            else fst (anchor_point (world_update w dt rnd) r))"
    and "ball_y (w_ball (world_update w dt rnd))
         = (if snd (anchor_point (world_update w dt rnd) r) > half_h w - radius (w_ball w)
            then half_h w - radius (w_ball w)
            else if snd (anchor_point (world_update w dt rnd) r) < - (half_h w - radius (w_ball w))
            then - (half_h w - radius (w_ball w))
            else snd (anchor_point (world_update w dt rnd) r))"
proof -
  define w1 where "w1 = w\<lparr> team_left := team_update (team_left w) dt,
                        team_right := team_update (team_right w) dt \<rparr>"
  define w2 where "w2 = enforce_no_overlap w1 6 (1 / 100) 0 (10 / 100) rnd"
  define w3 where "w3 = update_possession_and_anchor w2 dt"
  have wu: "world_update w dt rnd
      = w3\<lparr> w_ball := ball_update (w_ball w3) dt (Some (half_w w3)) (Some (half_h w3)) Clip,
            w_t := w_t w3 + dt \<rparr>"
    using dt by (simp add: world_update_def Let_def w1_def w2_def w3_def)
  have f1: "half_w w1 = half_w w" "half_h w1 = half_h w" "w_ball w1 = w_ball w"
    "sticky_enabled w1"
    using st by (simp_all add: w1_def half_w_def half_h_def)
  have f2: "half_w w2 = half_w w" "half_h w2 = half_h w" "w_ball w2 = w_ball w"
    "sticky_enabled w2"
    using f1 by (simp_all add: w2_def enforce_no_overlap_def put_robots_frame half_put_robots)
  have f3: "half_w w3 = half_w w" "half_h w3 = half_h w" "radius (w_ball w3) = radius (w_ball w)"
    by (simp_all add: w3_def possession_frame f2)
  have ar: "all_robots (world_update w dt rnd) = all_robots w3"
    by (simp add: wu all_robots_def)
  have ap: "anchor_point (world_update w dt rnd) r = anchor_point w3 r"
    unfolding wu by (rule anchor_point_tick)
  from anchored_ball [OF f2(4), of dt] r hb have b3: "w_ball w3 = anchor_ball w3 r"
    by (simp add: ar w3_def)
  have v: "ball_vx (w_ball w3) = 0" "ball_vy (w_ball w3) = 0"
    unfolding b3 by (rule anchor_ball_rest [OF rest])+
  have p: "ball_x (w_ball w3) = fst (anchor_point w3 r)" "ball_y (w_ball w3) = snd (anchor_point w3 r)"
    using anchor_ball_point [of w3 r] by (simp_all add: b3 [symmetric] prod_eq_iff)
  show "ball_x (w_ball (world_update w dt rnd))
         = (if fst (anchor_point (world_update w dt rnd) r) > half_w w - radius (w_ball w)
            then half_w w - radius (w_ball w)
            else if fst (anchor_point (world_update w dt rnd) r) < - (half_w w - radius (w_ball w))
            then - (half_w w - radius (w_ball w))
            else fst (anchor_point (world_update w dt rnd) r))"
    unfolding ap by (simp add: wu ball_update_xy [OF dt] f3 v p)
  show "ball_y (w_ball (world_update w dt rnd))
         = (if snd (anchor_point (world_update w dt rnd) r) > half_h w - radius (w_ball w)
            then half_h w - radius (w_ball w)
            else if snd (anchor_point (world_update w dt rnd) r) < - (half_h w - radius (w_ball w))
            then - (half_h w - radius (w_ball w))
            else snd (anchor_point (world_update w dt rnd) r))"
    unfolding ap by (simp add: wu ball_update_xy [OF dt] f3 v p)
qed

lemma world_update_frame:
  "field_w (world_update w dt rnd) = field_w w" "field_h (world_update w dt rnd) = field_h w"
  "sticky_clip_field (world_update w dt rnd) = sticky_clip_field w"
  "sticky_ball_radius (world_update w dt rnd) = sticky_ball_radius w"
  "sticky_gap (world_update w dt rnd) = sticky_gap w"
  by (simp_all add: world_update_def Let_def update_possession_and_anchor_def
        enforce_no_overlap_def put_robots_frame count_down_def split: option.split)

lemma anchor_point_clipped:
  assumes "sticky_clip_field w" and "sticky_ball_radius w \<le> half_w w"
    and "sticky_ball_radius w \<le> half_h w"
  shows "\<bar>fst (anchor_point w r)\<bar> \<le> half_w w - sticky_ball_radius w"
    and "\<bar>snd (anchor_point w r)\<bar> \<le> half_h w - sticky_ball_radius w"
  using assms
  by (simp_all add: anchor_point_def Let_def clamp_def half_w_def half_h_def abs_le_iff)

lemma rest_fields:
  "rob_x (holder_robot\<lparr> rob_x := a \<rparr>) = a" "rob_y (holder_robot\<lparr> rob_x := a \<rparr>) = 0"
  "theta (holder_robot\<lparr> rob_x := a \<rparr>) = 0" "rob_vx (holder_robot\<lparr> rob_x := a \<rparr>) = 0"
  "rob_vy (holder_robot\<lparr> rob_x := a \<rparr>) = 0" "omega (holder_robot\<lparr> rob_x := a \<rparr>) = 0"
  "side_len (holder_robot\<lparr> rob_x := a \<rparr>) = 45 / 100"
  "active (holder_robot\<lparr> rob_x := a \<rparr>)" "has_ball (holder_robot\<lparr> rob_x := a \<rparr>)"
  by (simp_all add: holder_robot_def Robot_def)

lemma update_rest:
  assumes "0 < dt"
  shows "update (holder_robot\<lparr> rob_x := a \<rparr>) dt = holder_robot\<lparr> rob_x := a \<rparr>"
proof -
  have tv: "target_vel (holder_robot\<lparr> rob_x := a \<rparr>) dt = (0, 0)"
    by (simp add: target_vel_def holder_robot_def Robot_def hypot_def)
  have sv: "step_vel (holder_robot\<lparr> rob_x := a \<rparr>) dt = (0, 0)"
    using assms
    by (simp add: step_vel_def tv) (simp add: holder_robot_def Robot_def hypot_def)
  have so: "step_omega (holder_robot\<lparr> rob_x := a \<rparr>) dt = 0"
    using assms by (simp add: step_omega_def holder_robot_def Robot_def clamp_def)
  show ?thesis
    using assms
    by (simp add: update_def sv so wrap_pi_zero)
       (simp add: holder_robot_def Robot_def wrap_pi_zero)
qed

lemma clamp_rest:
  assumes "half_w w = 11" and "half_h w = 7" and "\<bar>a\<bar> \<le> 10775 / 1000"
  shows "clamp_robot_inside_field w (holder_robot\<lparr> rob_x := a \<rparr>) = holder_robot\<lparr> rob_x := a \<rparr>"
proof -
  have he: "half_extents_xy (holder_robot\<lparr> rob_x := a \<rparr>) = (225 / 1000, 225 / 1000)"
    by (simp add: half_extents_xy_def half_side_def rest_fields Let_def)
  show ?thesis
    using assms
    by (simp add: clamp_robot_inside_field_def he rest_fields clamp_def)
       (simp add: holder_robot_def Robot_def)
qed

lemma rest_tick:
  assumes "robots (team_left w) = [(1, holder_robot\<lparr> rob_x := a \<rparr>)]"
    and "robots (team_right w) = []"
    and "field_w w = 22" and "field_h w = 14" and "kick_cooldown w = 0"
    and "\<bar>a\<bar> \<le> 10775 / 1000"
    and "ball_y (w_ball w) = 0" and "a < ball_x (w_ball w)" and "ball_x (w_ball w) - a \<le> 45 / 100"
    and "cone_dist_off w = 45 / 100" and "cone_angle_off_deg w = 60"
    and "0 < dt"
  shows "all_robots (world_update w dt rnd) = [holder_robot\<lparr> rob_x := a \<rparr>]"
proof -
  define r where "r = holder_robot\<lparr> rob_x := a \<rparr>"
  define w1 where "w1 = w\<lparr> team_left := team_update (team_left w) dt,
                        team_right := team_update (team_right w) dt \<rparr>"
  define w2 where "w2 = enforce_no_overlap w1 6 (1 / 100) 0 (10 / 100) rnd"
  define w3 where "w3 = update_possession_and_anchor w2 dt"
  have a0: "all_robots w = [r]" using assms(1,2) by (simp add: all_robots_def r_def)
  have a1: "all_robots w1 = [r]"
    unfolding w1_def all_robots_team_update a0 r_def using assms(12) by (simp add: update_rest)
  have h1: "half_w w1 = 11" "half_h w1 = 7"
    using assms(3,4) by (simp_all add: w1_def half_w_def half_h_def)
  have act: "active r" by (simp add: r_def rest_fields)
  have cl: "clamp_robot_inside_field w1 r = r"
    unfolding r_def by (rule clamp_rest [OF h1 assms(6)])
  have a2: "all_robots w2 = [r]"
    unfolding w2_def all_robots_enforce a1 using act by (simp add: resolve_active_def cl)
  have f2: "kick_cooldown w2 = 0" "w_ball w2 = w_ball w"
    "cone_dist_off w2 = 45 / 100" "cone_angle_off_deg w2 = 60"
    using assms
    by (simp_all add: w2_def enforce_no_overlap_def put_robots_frame put_robots_cones)
       (simp_all add: w1_def)
  have sees: "sees_ball_front r (ball_x (w_ball w)) 0 (45 / 100) 60"
    using assms(8,9) by (intro sees_ahead) (simp_all add: r_def rest_fields)
  then have kb: "keeps_ball w2 (ball_x (w_ball w)) 0 r"
    by (simp add: keeps_ball_def f2 r_def rest_fields)
  have "find_keeper w2 (ball_x (w_ball w)) 0 [r] = Some 0"
    using kb by (simp add: find_keeper_Some)
  then have ho: "holder_of w2 = Some 0"
    by (simp add: holder_of_def determine_holder_def a2 f2 assms(7))
  have sf: "set_flags (Some 0) [r] = [r]"
    by (simp add: set_flags_def r_def holder_robot_def Robot_def)
  have a3: "all_robots w3 = [r]"
    unfolding w3_def using possession_flags [of w2 dt] by (simp add: f2 ho a2 sf)
  have wu: "world_update w dt rnd
      = (w3\<lparr> w_ball := ball_update (w_ball w3) dt (Some (half_w w3)) (Some (half_h w3)) Clip \<rparr>)
          \<lparr> w_t := w_t w3 + dt \<rparr>"
    using assms(12) by (simp add: world_update_def Let_def w1_def w2_def w3_def)
  show ?thesis
    using a3 by (simp add: wu all_robots_def r_def)
qed

lemma edge_fields:
  "robots (team_left edge_world) = [(1, holder_robot\<lparr> rob_x := 107 / 10 \<rparr>)]"
  "robots (team_right edge_world) = []"
  "field_w edge_world = 22" "field_h edge_world = 14" "kick_cooldown edge_world = 0"
  "w_ball edge_world = Ball\<lparr> ball_x := 1089 / 100 \<rparr>"
  "cone_dist_off edge_world = 45 / 100" "cone_angle_off_deg edge_world = 60"
  "sticky_enabled edge_world" "\<not> sticky_clip_field edge_world"
  "sticky_ball_radius edge_world = 11 / 100" "sticky_gap edge_world = 15 / 1000"
  by (simp_all add: edge_world_def demo_world_def World_def)

lemma snap_fields:
  "robots (team_left snap_world) = [(1, holder_robot\<lparr> rob_x := 0 \<rparr>)]"
  "robots (team_right snap_world) = []"
  "field_w snap_world = 22" "field_h snap_world = 14" "kick_cooldown snap_world = 0"
  "w_ball snap_world = Ball\<lparr> ball_x := 30 / 100 \<rparr>"
  "cone_dist_off snap_world = 45 / 100" "cone_angle_off_deg snap_world = 60"
  "sticky_enabled snap_world" "sticky_clip_field snap_world"
  "sticky_ball_radius snap_world = 11 / 100" "sticky_gap snap_world = 15 / 1000"
  by (simp_all add: snap_world_def demo_world_def World_def holder_robot_def Robot_def)

lemma edge_tick:
  "all_robots (world_update edge_world (1 / 10) rnd) = [holder_robot\<lparr> rob_x := 107 / 10 \<rparr>]"
  "anchor_point (world_update edge_world (1 / 10) rnd) (holder_robot\<lparr> rob_x := 107 / 10 \<rparr>)
   = (1105 / 100, 0)"
  "ball_x (w_ball (world_update edge_world (1 / 10) rnd)) = 1089 / 100"
  "ball_y (w_ball (world_update edge_world (1 / 10) rnd)) = 0"
proof -
  show ar: "all_robots (world_update edge_world (1 / 10) rnd) = [holder_robot\<lparr> rob_x := 107 / 10 \<rparr>]"
    by (rule rest_tick [OF edge_fields(1-5)]) (simp_all add: edge_fields Ball_def)
  show ap: "anchor_point (world_update edge_world (1 / 10) rnd) (holder_robot\<lparr> rob_x := 107 / 10 \<rparr>)
   = (1105 / 100, 0)"
    by (simp add: anchor_point_def world_update_frame edge_fields rest_fields)
  have hw: "half_w edge_world = 11" "half_h edge_world = 7" "radius (w_ball edge_world) = 11 / 100"
    by (simp_all add: half_w_def half_h_def edge_fields Ball_def)
  have m: "holder_robot\<lparr> rob_x := 107 / 10 \<rparr> \<in> set (all_robots (world_update edge_world (1 / 10) rnd))"
    by (simp add: ar)
  note b = resting_holder_ball [OF _ edge_fields(9) m rest_fields(9) rest_fields(4,5,6)]
  show "ball_x (w_ball (world_update edge_world (1 / 10) rnd)) = 1089 / 100"
    by (subst b(1)) (simp_all add: ap hw)
  show "ball_y (w_ball (world_update edge_world (1 / 10) rnd)) = 0"
    by (subst b(2)) (simp_all add: ap hw)
qed

lemma snap_tick:
  "all_robots (world_update snap_world (1 / 10) rnd) = [holder_robot\<lparr> rob_x := 0 \<rparr>]"
  "anchor_point (world_update snap_world (1 / 10) rnd) (holder_robot\<lparr> rob_x := 0 \<rparr>)
   = (35 / 100, 0)"
proof -
  show "all_robots (world_update snap_world (1 / 10) rnd) = [holder_robot\<lparr> rob_x := 0 \<rparr>]"
    by (rule rest_tick [OF snap_fields(1-5)]) (simp_all add: snap_fields Ball_def)
  show "anchor_point (world_update snap_world (1 / 10) rnd) (holder_robot\<lparr> rob_x := 0 \<rparr>)
   = (35 / 100, 0)"
    by (simp add: anchor_point_def world_update_frame snap_fields rest_fields clamp_def)
qed

text \<open>
  On the code: \<open>World.update\<close> calls \<open>Ball.update\<close> also on a ball that the possession
  step has just anchored, and the anchored ball carries the velocity of the anchor. In the
  world whose holder moves at 1 m/s, after a tick of 0.1 s the robot is still the holder,
  its anchor point is \<open>(0.45, 0)\<close>, and the ball is at \<open>(0.55, 0)\<close>.
\<close>

lemma anchored_ball_integrated:
  "all_robots (world_update moving_world (1 / 10) rnd_fixed) = [runner_robot\<lparr> rob_x := 1 / 10 \<rparr>]
   \<and> has_ball (runner_robot\<lparr> rob_x := 1 / 10 \<rparr>)
   \<and> anchor_point (world_update moving_world (1 / 10) rnd_fixed) (runner_robot\<lparr> rob_x := 1 / 10 \<rparr>)
       = (45 / 100, 0)
   \<and> (ball_x (w_ball (world_update moving_world (1 / 10) rnd_fixed)),
       ball_y (w_ball (world_update moving_world (1 / 10) rnd_fixed))) = (55 / 100, 0)"
  using moving_tick [of Stopped rnd_fixed]
  by (simp add: moving_world_state runner_fields)

text \<open>
  Claim C1, as stated, at two example worlds with a resting holder and \<open>dt = 0.1\<close>. With
  sticky attach switched off, after the tick the robot is still the holder, its anchor
  point is \<open>(0.35, 0)\<close>, and the ball is where it was, at \<open>(0.30, 0)\<close>. With sticky attach
  on, field clipping of the anchor off and the holder at \<open>x = 10.7\<close> facing the goal line,
  the anchor point is \<open>(11.05, 0)\<close>, beyond the line at \<open>x = 11\<close>, and the ball, anchored
  there, is put back by its own boundary handling to \<open>(10.89, 0)\<close>.
\<close>

theorem C1_unanchored_counterexample:
  "(0::real) < 1 / 10
   \<and> all_robots (world_update loose_world (1 / 10) rnd_fixed) = [holder_robot]
   \<and> has_ball holder_robot
   \<and> anchor_point (world_update loose_world (1 / 10) rnd_fixed) holder_robot = (35 / 100, 0)
   \<and> (ball_x (w_ball (world_update loose_world (1 / 10) rnd_fixed)),
       ball_y (w_ball (world_update loose_world (1 / 10) rnd_fixed))) = (30 / 100, 0)
   \<and> sticky_enabled edge_world
   \<and> all_robots (world_update edge_world (1 / 10) rnd_fixed) = [holder_robot\<lparr> rob_x := 107 / 10 \<rparr>]
   \<and> has_ball (holder_robot\<lparr> rob_x := 107 / 10 \<rparr>)
   \<and> anchor_point (world_update edge_world (1 / 10) rnd_fixed) (holder_robot\<lparr> rob_x := 107 / 10 \<rparr>)
       = (1105 / 100, 0)
   \<and> (ball_x (w_ball (world_update edge_world (1 / 10) rnd_fixed)),
       ball_y (w_ball (world_update edge_world (1 / 10) rnd_fixed))) = (1089 / 100, 0)"
  using loose_tick [of rnd_fixed] edge_tick [of rnd_fixed]
  by (simp add: holder_fields rest_fields edge_fields)

text \<open>
  Claim C1, amended: for every tick of \<open>World.update\<close> with \<open>dt > 0\<close> in a world with
  sticky attach enabled, after which some agent has \<open>has_ball\<close> and is at rest (zero linear
  and angular velocity), the ball's position at the end of the tick equals the holder's
  anchor point, provided the anchor point lies in the field shrunk by the ball's radius;
  and it does lie there when sticky field-clipping is enabled, \<open>sticky_ball_radius\<close> is at
  least the ball's radius and the field is at least as large as the ball.
\<close>

theorem C1_ball_at_anchor_end_of_tick:
  assumes "0 < dt" and "sticky_enabled w"
  shows
   "(\<forall>r \<in> set (all_robots (world_update w dt rnd)).
       has_ball r \<and> rob_vx r = 0 \<and> rob_vy r = 0 \<and> omega r = 0
       \<and> \<bar>fst (anchor_point (world_update w dt rnd) r)\<bar> \<le> half_w w - radius (w_ball w)
       \<and> \<bar>snd (anchor_point (world_update w dt rnd) r)\<bar> \<le> half_h w - radius (w_ball w) \<longrightarrow>
       (ball_x (w_ball (world_update w dt rnd)), ball_y (w_ball (world_update w dt rnd)))
       = anchor_point (world_update w dt rnd) r)
    \<and> (sticky_clip_field w \<and> radius (w_ball w) \<le> sticky_ball_radius w
        \<and> sticky_ball_radius w \<le> half_w w \<and> sticky_ball_radius w \<le> half_h w \<longrightarrow>
        (\<forall>r \<in> set (all_robots (world_update w dt rnd)).
           has_ball r \<and> rob_vx r = 0 \<and> rob_vy r = 0 \<and> omega r = 0 \<longrightarrow>
           (ball_x (w_ball (world_update w dt rnd)), ball_y (w_ball (world_update w dt rnd)))
           = anchor_point (world_update w dt rnd) r))"
proof -
  define w' where "w' = world_update w dt rnd"
  have at: "(ball_x (w_ball w'), ball_y (w_ball w')) = anchor_point w' r"
    if r: "r \<in> set (all_robots w')" and hb: "has_ball r"
      and rest: "rob_vx r = 0" "rob_vy r = 0" "omega r = 0"
      and inx: "\<bar>fst (anchor_point w' r)\<bar> \<le> half_w w - radius (w_ball w)"
      and iny: "\<bar>snd (anchor_point w' r)\<bar> \<le> half_h w - radius (w_ball w)"
    for r
  proof -
    note b = resting_holder_ball [OF assms r [unfolded w'_def] hb rest]
    have "ball_x (w_ball w') = fst (anchor_point w' r)"
      unfolding w'_def using inx [unfolded w'_def] by (subst b(1)) (simp add: abs_le_iff)
    moreover have "ball_y (w_ball w') = snd (anchor_point w' r)"
      unfolding w'_def using iny [unfolded w'_def] by (subst b(2)) (simp add: abs_le_iff)
    ultimately show ?thesis by (simp add: prod_eq_iff)
  qed
  have clip: "\<bar>fst (anchor_point w' r)\<bar> \<le> half_w w - radius (w_ball w)
      \<and> \<bar>snd (anchor_point w' r)\<bar> \<le> half_h w - radius (w_ball w)"
    if c: "sticky_clip_field w \<and> radius (w_ball w) \<le> sticky_ball_radius w
        \<and> sticky_ball_radius w \<le> half_w w \<and> sticky_ball_radius w \<le> half_h w"
    for r
  proof -
    have f: "sticky_clip_field w'" "sticky_ball_radius w' = sticky_ball_radius w"
      "half_w w' = half_w w" "half_h w' = half_h w"
      using c by (simp_all add: w'_def world_update_frame half_w_def half_h_def)
    from anchor_point_clipped [of w' r] c
    have "\<bar>fst (anchor_point w' r)\<bar> \<le> half_w w - sticky_ball_radius w"
      "\<bar>snd (anchor_point w' r)\<bar> \<le> half_h w - sticky_ball_radius w"
      by (simp_all add: f)
    with c show ?thesis by linarith
  qed
  from at clip show ?thesis unfolding w'_def by blast
qed

theorem C1_anchor_witness:
  "(0::real) < 1 / 10 \<and> sticky_enabled snap_world \<and> sticky_clip_field snap_world
   \<and> radius (w_ball snap_world) \<le> sticky_ball_radius snap_world
   \<and> sticky_ball_radius snap_world \<le> half_w snap_world
   \<and> sticky_ball_radius snap_world \<le> half_h snap_world
   \<and> (ball_x (w_ball snap_world), ball_y (w_ball snap_world)) = (30 / 100, 0)
   \<and> holder_robot\<lparr> rob_x := 0 \<rparr> \<in> set (all_robots (world_update snap_world (1 / 10) rnd_fixed))
   \<and> has_ball (holder_robot\<lparr> rob_x := 0 \<rparr>)
   \<and> rob_vx (holder_robot\<lparr> rob_x := 0 \<rparr>) = 0 \<and> rob_vy (holder_robot\<lparr> rob_x := 0 \<rparr>) = 0
   \<and> omega (holder_robot\<lparr> rob_x := 0 \<rparr>) = 0
   \<and> anchor_point (world_update snap_world (1 / 10) rnd_fixed) (holder_robot\<lparr> rob_x := 0 \<rparr>)
       = (35 / 100, 0)
   \<and> (ball_x (w_ball (world_update snap_world (1 / 10) rnd_fixed)),
       ball_y (w_ball (world_update snap_world (1 / 10) rnd_fixed))) = (35 / 100, 0)"
proof -
  have d: "(0::real) < 1 / 10" by simp
  have c: "sticky_clip_field snap_world \<and> radius (w_ball snap_world) \<le> sticky_ball_radius snap_world
        \<and> sticky_ball_radius snap_world \<le> half_w snap_world
        \<and> sticky_ball_radius snap_world \<le> half_h snap_world"
    by (simp add: snap_fields half_w_def half_h_def Ball_def)
  have b0: "(ball_x (w_ball snap_world), ball_y (w_ball snap_world)) = (30 / 100, 0)"
    by (simp add: snap_fields Ball_def)
  have m: "holder_robot\<lparr> rob_x := 0 \<rparr> \<in> set (all_robots (world_update snap_world (1 / 10) rnd_fixed))"
    by (simp add: snap_tick)
  from C1_ball_at_anchor_end_of_tick [OF d snap_fields(9), of rnd_fixed] c m
  have "(ball_x (w_ball (world_update snap_world (1 / 10) rnd_fixed)),
         ball_y (w_ball (world_update snap_world (1 / 10) rnd_fixed)))
        = anchor_point (world_update snap_world (1 / 10) rnd_fixed) (holder_robot\<lparr> rob_x := 0 \<rparr>)"
    by (simp add: rest_fields)
  with d c b0 m snap_fields(9) show ?thesis
    by (simp add: rest_fields snap_tick)
qed

text \<open>
  Claim C4 on the code: \<open>halt\<close> sets the state to \<open>Halt\<close>, but \<open>World.update\<close> never reads
  the state. In the halted example world with the moving holder, one tick of 0.1 s moves
  the robot from \<open>x = 0\<close> to \<open>x = 0.1\<close>, the ball from \<open>x = 0.35\<close> to \<open>x = 0.55\<close>, and
  advances the time.
\<close>

theorem C4_halt_does_not_freeze:
  "w_state (halt w) = Halt
   \<and> w_state (halt moving_world) = Halt
   \<and> map rob_x (all_robots (halt moving_world)) = [0]
   \<and> map rob_x (all_robots (world_update (halt moving_world) (1 / 10) rnd_fixed)) = [1 / 10]
   \<and> ball_x (w_ball (halt moving_world)) = 35 / 100
   \<and> ball_x (w_ball (world_update (halt moving_world) (1 / 10) rnd_fixed)) = 55 / 100
   \<and> w_t (world_update (halt moving_world) (1 / 10) rnd_fixed) = w_t (halt moving_world) + 1 / 10"
proof -
  have h: "halt moving_world = moving_world\<lparr> w_state := Halt \<rparr>" by (simp add: halt_def)
  have a: "map rob_x (all_robots (halt moving_world)) = [0]"
    by (simp add: halt_def all_robots_def moving_world_def demo_world_def World_def
          runner_robot_def holder_robot_def Robot_def)
  have b: "ball_x (w_ball (halt moving_world)) = 35 / 100"
    by (simp add: halt_def moving_world_def demo_world_def World_def Ball_def)
  from moving_tick [of Halt rnd_fixed] a b show ?thesis
    by (simp add: h [symmetric] runner_fields) (simp add: halt_def)
qed

section \<open>Collision resolution\<close>




















lemma radius_bounds:
  "318 / 1000 < hypot (225 / 1000) (225 / 1000)" "hypot (225 / 1000) (225 / 1000) < 319 / 1000"
proof -
  have "(318 / 1000)\<^sup>2 < (225 / 1000 * (225 / 1000) + 225 / 1000 * (225 / 1000) :: real)"
    by (simp add: power2_eq_square)
  then show "318 / 1000 < hypot (225 / 1000) (225 / 1000)"
    unfolding hypot_def by (rule real_less_rsqrt)
  show "hypot (225 / 1000) (225 / 1000) < 319 / 1000"
    unfolding hypot_def
  proof (rule real_less_lsqrt)
    show "(0::real) \<le> 319 / 1000" by simp
    show "(225 / 1000 * (225 / 1000) + 225 / 1000 * (225 / 1000) :: real) < (319 / 1000)\<^sup>2"
      by (simp add: power2_eq_square)
  qed
qed




lemma upt_six: "[0..<6] = [0, 1, 2, 3, 4, 5]"
  by (simp add: upt_rec)









section \<open>Kickoff formation\<close>

lemma length_kickoff_templates:
  "length (kickoff_templates n xg xd xm xf ym ymax) = n"
  by (simp add: kickoff_templates_def Let_def min_def)

lemma kickoff_templates_x:
  assumes "p \<in> set (kickoff_templates n xg xd xm xf ym ymax)"
  shows "fst p \<in> {xg, xd, xm, xf}"
proof -
  from assms have "p \<in> set (take n [(xg, 0), (xd, 0), (xm, ym), (xm, - ym), (xf, 0)]) \<or> fst p = xm"
    by (auto simp: kickoff_templates_def Let_def)
  then show ?thesis
  proof
    assume "p \<in> set (take n [(xg, 0), (xd, 0), (xm, ym), (xm, - ym), (xf, 0)])"
    then have "p \<in> set [(xg, 0), (xd, 0), (xm, ym), (xm, - ym), (xf, 0)]"
      by (rule in_set_takeD)
    then show ?thesis by auto
  next
    assume "fst p = xm"
    then show ?thesis by simp
  qed
qed

lemma kickoff_templates_first:
  "0 < n \<Longrightarrow> kickoff_templates n xg xd xm xf ym ymax ! 0 = (xg, 0)"
  by (cases n) (simp_all add: kickoff_templates_def Let_def)

lemma place_kickoff_pose: "kickoff_pose hw hh face p (place_kickoff hw hh face r p)"
  by (simp add: kickoff_pose_def place_kickoff_def stop_def set_vel_def set_pose_def
        split: prod.split)

text \<open>The head of a sorted list has a minimal key.\<close>

lemma hd_sort_key_min:
  assumes "x \<in> set xs"
  shows "f (hd (sort_key f xs)) \<le> f x"
proof -
  define ys where "ys = sort_key f xs"
  have s: "sorted (map f ys)" and m: "set ys = set xs" by (simp_all add: ys_def)
  from assms m have ne: "ys \<noteq> []" by auto
  then obtain a rest where ys: "ys = a # rest" by (cases ys) auto
  from assms m ys have "x = a \<or> x \<in> set rest" by auto
  with s ys have "f a \<le> f x" by auto
  then show ?thesis by (simp add: ys_def [symmetric] ys)
qed

text \<open>Rosters under \<open>add_robot\<close>.\<close>

lemma set_alist_update: "set (AList.update k v al) \<subseteq> insert (k, v) (set al)"
  by (induction al) auto

lemma alist_update_mem: "(k, v) \<in> set (AList.update k v al)"
  by (induction al) auto

lemma alist_update_keys: "fst ` set al \<subseteq> fst ` set (AList.update k v al)"
  by (induction al) auto

lemma add_robot_fields:
  "side (add_robot tm None None) = side tm"
  "robots (add_robot tm None None)
     = AList.update (next_robot_id tm) (Robot\<lparr> team_id := tm_id tm, robot_id := next_robot_id tm \<rparr>)
         (robots tm)"
  "goalie_id (add_robot tm None None)
     = (case goalie_id tm of None \<Rightarrow> Some (next_robot_id tm) | Some g \<Rightarrow> Some g)"
  by (simp_all add: add_robot_def alloc_id_def Let_def split: option.split)

lemma add_robot_ok:
  assumes "team_ok tm"
  shows "team_ok (add_robot tm None None)" and "robots (add_robot tm None None) \<noteq> []"
proof -
  define rid where "rid = next_robot_id tm"
  define r1 where "r1 = Robot\<lparr> team_id := tm_id tm, robot_id := rid \<rparr>"
  have rb: "robots (add_robot tm None None) = AList.update rid r1 (robots tm)"
    by (simp add: add_robot_fields rid_def r1_def)
  have mem: "(rid, r1) \<in> set (robots (add_robot tm None None))"
    by (simp add: rb alist_update_mem)
  then show "robots (add_robot tm None None) \<noteq> []" by auto
  have ids: "\<forall>(k, r) \<in> set (robots (add_robot tm None None)). robot_id r = k"
  proof -
    have "robot_id r = k" if "(k, r) \<in> set (AList.update rid r1 (robots tm))" for k r
    proof -
      from that set_alist_update [of rid r1 "robots tm"]
      have "(k, r) = (rid, r1) \<or> (k, r) \<in> set (robots tm)" by auto
      then show ?thesis using assms by (auto simp: team_ok_def r1_def)
    qed
    then show ?thesis by (auto simp: rb)
  qed
  have gk: "case goalie_id (add_robot tm None None) of None \<Rightarrow> True
            | Some g \<Rightarrow> g \<in> fst ` set (robots (add_robot tm None None))"
  proof (cases "goalie_id tm")
    case None
    then have "goalie_id (add_robot tm None None) = Some rid"
      by (simp add: add_robot_fields rid_def)
    with mem show ?thesis by (force simp: image_iff)
  next
    case (Some g)
    then have g: "goalie_id (add_robot tm None None) = Some g"
      by (simp add: add_robot_fields)
    from Some assms have "g \<in> fst ` set (robots tm)" by (simp add: team_ok_def)
    with alist_update_keys [of "robots tm" rid r1] show ?thesis
      by (auto simp: g rb)
  qed
  from ids gk show "team_ok (add_robot tm None None)" by (simp add: team_ok_def)
qed

lemma funpow_add_robot:
  assumes "team_ok tm"
  shows "team_ok (((\<lambda>t. add_robot t None None) ^^ n) tm)
     \<and> side (((\<lambda>t. add_robot t None None) ^^ n) tm) = side tm
     \<and> (0 < n \<longrightarrow> robots (((\<lambda>t. add_robot t None None) ^^ n) tm) \<noteq> [])"
proof (induction n)
  case 0
  then show ?case using assms by simp
next
  case (Suc n)
  then show ?case
    using add_robot_ok [of "((\<lambda>t. add_robot t None None) ^^ n) tm"]
    by (simp add: add_robot_fields)
qed

lemma ensure_size_empty:
  assumes "robots tm = []" and "team_ok tm"
  shows "team_ok (ensure_size tm n)" and "side (ensure_size tm n) = side tm"
    and "robots (ensure_size tm n) \<noteq> []"
proof -
  have e: "ensure_size tm n = ((\<lambda>t. add_robot t None None) ^^ nat (max 1 n)) tm"
    using assms(1) by (simp add: ensure_size_def Let_def)
  have pos: "0 < nat (max 1 n)" by simp
  from funpow_add_robot [OF assms(2), of "nat (max 1 n)"] pos
  show "team_ok (ensure_size tm n)" and "side (ensure_size tm n) = side tm"
    and "robots (ensure_size tm n) \<noteq> []"
    by (simp_all add: e)
qed

lemma side_ensure_size_empty:
  assumes "robots tm = []"
  shows "side (ensure_size tm n) = side tm"
proof -
  have e: "ensure_size tm n = ((\<lambda>t. add_robot t None None) ^^ nat (max 1 n)) tm"
    using assms(1) by (simp add: ensure_size_def Let_def)
  have "side (((\<lambda>t. add_robot t None None) ^^ m) tm) = side tm" for m
    by (induction m) (simp_all add: add_robot_fields)
  then show ?thesis by (simp add: e)
qed

lemma attack_sign_one: "attack_sign tm = 1 \<longleftrightarrow> side tm = Left"
  by (simp add: attack_sign_def)

lemma auto_position_kickoff_unfold:
  "robots (auto_position_kickoff tm fw fh (1 / 2))
     = map (\<lambda>(k, r). (k, case map_of (kickoff_placed tm fw fh (kickoff_team tm)) k of
                          None \<Rightarrow> r | Some r' \<Rightarrow> r'))
         (robots (kickoff_team tm))"
  "goalie_id (auto_position_kickoff tm fw fh (1 / 2)) = kickoff_goalie (kickoff_team tm)"
  "side (auto_position_kickoff tm fw fh (1 / 2)) = side (kickoff_team tm)"
  by (simp_all add: auto_position_kickoff_def Let_def kickoff_team_def kickoff_order_def
        kickoff_goalie_def kickoff_placed_def formation_def face_theta_def attack_sign_one
        split: list.split)

lemma robots_list_set: "set (robots_list tm) = set (robots tm)"
  "length (robots_list tm) = length (robots tm)"
  "robots_list tm = [] \<longleftrightarrow> robots tm = []"
  by (simp_all add: robots_list_def) (metis length_0_conv length_sort)

lemma kickoff_order_set: "set (kickoff_order tm1) = set (robots tm1)"
  "length (kickoff_order tm1) = length (robots tm1)"
  by (simp_all add: kickoff_order_def robots_list_set)

lemma kickoff_team_props:
  "side (kickoff_team tm) = side tm"
  "team_ok tm \<Longrightarrow> team_ok (kickoff_team tm)"
  "team_ok tm \<Longrightarrow> robots (kickoff_team tm) \<noteq> []"
proof -
  show "side (kickoff_team tm) = side tm"
    by (simp add: kickoff_team_def robots_list_set side_ensure_size_empty)
  show "team_ok (kickoff_team tm)" if "team_ok tm"
    using that by (simp add: kickoff_team_def robots_list_set ensure_size_empty)
  show "robots (kickoff_team tm) \<noteq> []" if "team_ok tm"
    using that by (simp add: kickoff_team_def robots_list_set ensure_size_empty)
qed

lemma kickoff_placed_keys:
  "map fst (kickoff_placed tm fw fh tm1) = map fst (kickoff_order tm1)"
proof -
  define order where "order = kickoff_order tm1"
  define ts where "ts = formation tm fw fh (length order)"
  have len: "length order = length ts"
    by (simp add: ts_def formation_def length_kickoff_templates)
  have "map fst (kickoff_placed tm fw fh tm1) = map fst (map fst (zip order ts))"
    by (simp add: kickoff_placed_def order_def ts_def case_prod_beta comp_def)
  also have "\<dots> = map fst order" using len by (simp only: map_fst_zip)
  finally show ?thesis by (simp add: order_def)
qed

lemma kickoff_placed_mem:
  assumes "(k, r') \<in> set (kickoff_placed tm fw fh tm1)"
  shows "\<exists>p \<in> set (formation tm fw fh (length (robots tm1))).
           kickoff_pose (fw / 2) (fh / 2) (face_theta tm) p r'"
proof -
  from assms obtain r0 p where
    z: "((k, r0), p) \<in> set (zip (kickoff_order tm1) (formation tm fw fh (length (kickoff_order tm1))))"
    and r': "r' = place_kickoff (fw / 2) (fh / 2) (face_theta tm) r0 p"
    by (auto simp: kickoff_placed_def)
  from z have "p \<in> set (formation tm fw fh (length (kickoff_order tm1)))"
    by (rule set_zip_rightD)
  then have "p \<in> set (formation tm fw fh (length (robots tm1)))"
    by (simp add: kickoff_order_set)
  with r' show ?thesis using place_kickoff_pose by blast
qed

lemma kickoff_robot_placed:
  assumes "(k, r) \<in> set (robots (auto_position_kickoff tm fw fh (1 / 2)))"
  shows "(k, r) \<in> set (kickoff_placed tm fw fh (kickoff_team tm))
         \<and> map_of (kickoff_placed tm fw fh (kickoff_team tm)) k = Some r"
proof -
  define tm1 where "tm1 = kickoff_team tm"
  define placed where "placed = kickoff_placed tm fw fh tm1"
  from assms obtain r0 where r0: "(k, r0) \<in> set (robots tm1)"
    and r: "r = (case map_of placed k of None \<Rightarrow> r0 | Some r' \<Rightarrow> r')"
    by (auto simp: auto_position_kickoff_unfold tm1_def placed_def)
  from r0 have "k \<in> fst ` set (kickoff_order tm1)"
    by (force simp: kickoff_order_set)
  then have "k \<in> set (map fst placed)"
    by (simp add: placed_def kickoff_placed_keys)
  then have "map_of placed k \<noteq> None" by (simp add: map_of_eq_None_iff)
  then obtain r' where m: "map_of placed k = Some r'" by auto
  then have "(k, r') \<in> set placed" by (rule map_of_SomeD)
  with m r show ?thesis by (simp add: placed_def tm1_def)
qed

lemma kickoff_length:
  "length (robots (auto_position_kickoff tm fw fh (1 / 2))) = length (robots (kickoff_team tm))"
  "fst ` set (robots (auto_position_kickoff tm fw fh (1 / 2))) = fst ` set (robots (kickoff_team tm))"
  by (auto simp: auto_position_kickoff_unfold image_iff) force+

lemma kickoff_goalie_head:
  assumes "team_ok tm1" and "robots tm1 \<noteq> []"
  shows "kickoff_order tm1 \<noteq> [] \<and> kickoff_goalie tm1 = Some (fst (hd (kickoff_order tm1)))"
proof -
  have ne: "kickoff_order tm1 \<noteq> []"
    using assms(2) kickoff_order_set(2) [of tm1] by auto
  have ids: "robot_id r = k" if "(k, r) \<in> set (robots tm1)" for k r
    using assms(1) that by (auto simp: team_ok_def)
  have hd_mem: "hd (kickoff_order tm1) \<in> set (robots tm1)"
    using ne kickoff_order_set(1) [of tm1] by (metis hd_in_set)
  have hd_id: "robot_id (snd (hd (kickoff_order tm1))) = fst (hd (kickoff_order tm1))"
    using ids [of "fst (hd (kickoff_order tm1))" "snd (hd (kickoff_order tm1))"] hd_mem by simp
  show ?thesis
  proof (cases "goalie_id tm1")
    case None
    then have o: "kickoff_order tm1 = robots_list tm1" by (simp add: kickoff_order_def)
    with ne obtain k r rest where l: "robots_list tm1 = (k, r) # rest"
      by (cases "robots_list tm1") auto
    then have "kickoff_goalie tm1 = Some (robot_id r)"
      using None by (simp add: kickoff_goalie_def)
    with hd_id o l ne show ?thesis by simp
  next
    case (Some g)
    define f :: "int \<times> robot \<Rightarrow> nat \<times> int"
      where "f = (\<lambda>(k, r). (if Some (robot_id r) = goalie_id tm1 then 0 else 1, robot_id r))"
    have o: "kickoff_order tm1 = sort_key f (robots_list tm1)"
      using Some by (simp add: kickoff_order_def f_def)
    from Some assms(1) obtain r0 where r0: "(g, r0) \<in> set (robots tm1)"
      by (auto simp: team_ok_def)
    then have fr0: "f (g, r0) = (0, g)" using ids [OF r0] Some by (simp add: f_def)
    from r0 have "(g, r0) \<in> set (robots_list tm1)" by (simp add: robots_list_set)
    then have "f (hd (kickoff_order tm1)) \<le> f (g, r0)"
      unfolding o by (rule hd_sort_key_min)
    then have "fst (f (hd (kickoff_order tm1))) = 0"
      by (auto simp: fr0 less_eq_prod_def)
    then have "robot_id (snd (hd (kickoff_order tm1))) = g"
      using Some by (auto simp: f_def case_prod_beta split: if_splits)
    with hd_id have "fst (hd (kickoff_order tm1)) = g" by simp
    with Some ne show ?thesis by (simp add: kickoff_goalie_def)
  qed
qed

lemma kickoff_placed_goalie:
  assumes "team_ok tm1" and "robots tm1 \<noteq> []" and "kickoff_goalie tm1 = Some g"
    and "map_of (kickoff_placed tm fw fh tm1) g = Some r"
  shows "kickoff_pose (fw / 2) (fh / 2) (face_theta tm) (- attack_sign tm * (fw / 2 - 1 / 2), 0) r"
proof -
  from kickoff_goalie_head [OF assms(1,2)] assms(3)
  have ne: "kickoff_order tm1 \<noteq> []" and g: "fst (hd (kickoff_order tm1)) = g" by simp_all
  then obtain r0 rest where o: "kickoff_order tm1 = (g, r0) # rest"
    by (cases "kickoff_order tm1") auto
  define n where "n = length (kickoff_order tm1)"
  have n: "0 < n" using ne by (simp add: n_def)
  define ts where "ts = formation tm fw fh n"
  have "length ts = n" by (simp add: ts_def formation_def length_kickoff_templates)
  with n obtain t0 trest where ts: "ts = t0 # trest" by (cases ts) auto
  have "ts ! 0 = (- attack_sign tm * (fw / 2 - 1 / 2), 0)"
    using n by (simp add: ts_def formation_def kickoff_templates_first)
  with ts have t0: "t0 = (- attack_sign tm * (fw / 2 - 1 / 2), 0)" by simp
  have "kickoff_placed tm fw fh tm1
        = (g, place_kickoff (fw / 2) (fh / 2) (face_theta tm) r0 t0)
          # map (\<lambda>((k, r), p). (k, place_kickoff (fw / 2) (fh / 2) (face_theta tm) r p))
              (zip rest trest)"
    unfolding kickoff_placed_def n_def [symmetric] ts_def [symmetric] by (simp add: o ts)
  with assms(4) have "r = place_kickoff (fw / 2) (fh / 2) (face_theta tm) r0 t0" by simp
  then show ?thesis
    using place_kickoff_pose [of "fw / 2" "fh / 2" "face_theta tm" t0 r0] by (simp add: t0)
qed

lemma abs_le_hypot: "\<bar>a\<bar> \<le> hypot a b"
proof -
  have "sqrt (a * a) \<le> sqrt (a * a + b * b)" by (rule real_sqrt_le_mono) simp
  then show ?thesis by (simp add: hypot_def)
qed

lemma attack_sign_cases: "attack_sign tm = 1 \<or> attack_sign tm = - 1"
  by (simp add: attack_sign_def)

lemma goalie_dist:
  assumes "13 \<le> fw" and "1 / 5 \<le> fh"
    and "kickoff_pose (fw / 2) (fh / 2) face (- attack_sign tm * (fw / 2 - 1 / 2), 0) r"
  shows "goal_dist tm fw r = 1 / 2"
proof -
  from assms have "rob_x r = - attack_sign tm * (fw / 2 - 1 / 2) \<and> rob_y r = 0"
    using attack_sign_cases [of tm]
    by (auto simp: kickoff_pose_def clip_xy_def)
  then show ?thesis
    using attack_sign_cases [of tm] by (auto simp: goal_dist_def hypot_axis algebra_simps)
qed

lemma other_dist:
  assumes "13 \<le> fw" and "p \<in> set (formation tm fw fh n)"
    and "kickoff_pose (fw / 2) (fh / 2) face p r"
  shows "1 / 2 \<le> goal_dist tm fw r"
proof -
  obtain px py where p: "p = (px, py)" by (cases p)
  from assms(2) have "fst p \<in> {- attack_sign tm * (fw / 2 - 1 / 2), - attack_sign tm * 6,
                               - attack_sign tm * 3, - attack_sign tm * 1}"
    unfolding formation_def by (rule kickoff_templates_x)
  then have px: "px \<in> {- attack_sign tm * (fw / 2 - 1 / 2), - attack_sign tm * 6,
                               - attack_sign tm * 3, - attack_sign tm * 1}"
    by (simp add: p)
  from assms(3) have x: "rob_x r = max (- (fw / 2) + 1 / 10) (min (fw / 2 - 1 / 10) px)"
    by (simp add: kickoff_pose_def clip_xy_def p)
  have "1 / 2 \<le> \<bar>rob_x r + attack_sign tm * (fw / 2)\<bar>"
    using px assms(1) attack_sign_cases [of tm] unfolding x by auto
  also have "\<dots> \<le> goal_dist tm fw r" unfolding goal_dist_def by (rule abs_le_hypot)
  finally show ?thesis .
qed

lemma auto_position_kickoff_formed:
  "kickoff_formed tm fw fh (auto_position_kickoff tm fw fh (1 / 2))"
proof -
  define tm1 where "tm1 = kickoff_team tm"
  define tm' where "tm' = auto_position_kickoff tm fw fh (1 / 2)"
  define placed where "placed = kickoff_placed tm fw fh tm1"
  have sd: "side tm' = side tm"
    by (simp add: tm'_def auto_position_kickoff_unfold kickoff_team_props)
  have len: "length (robots tm') = length (robots tm1)"
    and keys: "fst ` set (robots tm') = fst ` set (robots tm1)"
    unfolding tm'_def tm1_def by (rule kickoff_length)+
  have gid: "goalie_id tm' = kickoff_goalie tm1"
    by (simp add: tm'_def tm1_def auto_position_kickoff_unfold)
  have mem: "(k, r) \<in> set placed \<and> map_of placed k = Some r" if "(k, r) \<in> set (robots tm')" for k r
    using that unfolding tm'_def placed_def tm1_def by (rule kickoff_robot_placed)
  have pose: "\<exists>p \<in> set (formation tm fw fh (length (robots tm'))).
                kickoff_pose (fw / 2) (fh / 2) (face_theta tm) p r"
    if "(k, r) \<in> set (robots tm')" for k r
  proof -
    from mem [OF that] have "(k, r) \<in> set (kickoff_placed tm fw fh tm1)" by (simp add: placed_def)
    from kickoff_placed_mem [OF this] show ?thesis by (simp add: len)
  qed
  have gk: "\<exists>g. goalie_id tm' = Some g \<and> g \<in> fst ` set (robots tm')
             \<and> (\<forall>(k, r) \<in> set (robots tm'). k = g \<longrightarrow>
                   kickoff_pose (fw / 2) (fh / 2) (face_theta tm)
                     (- attack_sign tm * (fw / 2 - 1 / 2), 0) r)"
    if ok: "team_ok tm"
  proof -
    from ok have ok1: "team_ok tm1" and ne1: "robots tm1 \<noteq> []"
      by (simp_all add: tm1_def kickoff_team_props)
    from kickoff_goalie_head [OF ok1 ne1]
    have one: "kickoff_order tm1 \<noteq> []"
      and g: "kickoff_goalie tm1 = Some (fst (hd (kickoff_order tm1)))" by simp_all
    define g where "g = fst (hd (kickoff_order tm1))"
    from one have "hd (kickoff_order tm1) \<in> set (robots tm1)"
      using kickoff_order_set(1) [of tm1] by (metis hd_in_set)
    then have gin: "g \<in> fst ` set (robots tm')" by (simp add: keys g_def)
    have "kickoff_pose (fw / 2) (fh / 2) (face_theta tm) (- attack_sign tm * (fw / 2 - 1 / 2), 0) r"
      if "(k, r) \<in> set (robots tm')" and "k = g" for k r
    proof -
      from mem [OF that(1)] that(2) have "map_of (kickoff_placed tm fw fh tm1) g = Some r"
        by (simp add: placed_def)
      with ok1 ne1 g show ?thesis
        unfolding g_def by (intro kickoff_placed_goalie [of tm1]) simp_all
    qed
    with gin g show ?thesis by (auto simp: gid g_def)
  qed
  have near: "goal_dist tm fw r \<le> goal_dist tm fw r'"
    if "team_ok tm \<and> 13 \<le> fw \<and> 1 / 5 \<le> fh" and "(k, r) \<in> set (robots tm')"
      and "(k', r') \<in> set (robots tm')" and "goalie_id tm' = Some k" for k r k' r'
  proof -
    from that(1) gk obtain g where g: "goalie_id tm' = Some g"
      and gp: "\<forall>(k, r) \<in> set (robots tm'). k = g \<longrightarrow>
                   kickoff_pose (fw / 2) (fh / 2) (face_theta tm)
                     (- attack_sign tm * (fw / 2 - 1 / 2), 0) r"
      by blast
    from g that(4) have "k = g" by simp
    with gp that(2) have "kickoff_pose (fw / 2) (fh / 2) (face_theta tm)
                     (- attack_sign tm * (fw / 2 - 1 / 2), 0) r" by auto
    with that(1) have d: "goal_dist tm fw r = 1 / 2" by (intro goalie_dist) simp_all
    from pose [OF that(3)] obtain p where "p \<in> set (formation tm fw fh (length (robots tm')))"
      and "kickoff_pose (fw / 2) (fh / 2) (face_theta tm) p r'" by blast
    with that(1) have "1 / 2 \<le> goal_dist tm fw r'" by (intro other_dist) simp_all
    with d show ?thesis by simp
  qed
  show ?thesis
    unfolding kickoff_formed_def tm'_def [symmetric]
    using sd pose gk near by (intro conjI) blast+
qed

lemma goal_scored_fields:
  "score (goal_scored w sd)
     = (if sd = Left then (score w)\<lparr> score_left := score_left (score w) + 1 \<rparr>
        else (score w)\<lparr> score_right := score_right (score w) + 1 \<rparr>)"
  "w_state (goal_scored w sd) = (if sd = Left then Kickoff_right else Kickoff_left)"
  "team_left (goal_scored w sd) = auto_position_kickoff (team_left w) (field_w w) (field_h w) (1 / 2)"
  "team_right (goal_scored w sd) = auto_position_kickoff (team_right w) (field_w w) (field_h w) (1 / 2)"
  "w_ball (goal_scored w sd) = (w_ball w)\<lparr> ball_x := 0, ball_y := 0, ball_vx := 0, ball_vy := 0 \<rparr>"
  "field_w (goal_scored w sd) = field_w w"
  by (simp_all add: goal_scored_def set_kickoff_def world_auto_position_kickoff_def
        reset_ball_center_def set_pos_def ball_set_vel_def)

text \<open>Evaluation on a roster of two.\<close>

lemma two_kickoff:
  assumes "robots tm = [(1, a), (2, b)]" and "goalie_id tm = Some 1"
    and "robot_id a = 1" and "robot_id b = 2" and "side tm = Left"
  shows "robots (auto_position_kickoff tm fw fh (1 / 2))
         = [(1, place_kickoff (fw / 2) (fh / 2) 0 a (- (fw / 2 - 1 / 2), 0)),
            (2, place_kickoff (fw / 2) (fh / 2) 0 b (- 6, 0))]"
    and "goalie_id (auto_position_kickoff tm fw fh (1 / 2)) = Some 1"
proof -
  have rl: "robots_list tm = [(1, a), (2, b)]" by (simp add: robots_list_def assms(1))
  have kt: "kickoff_team tm = tm" by (simp add: kickoff_team_def rl)
  have ko: "kickoff_order tm = [(1, a), (2, b)]"
    by (simp add: kickoff_order_def rl assms less_eq_prod_def)
  have fo: "formation tm fw fh (length (kickoff_order tm)) = [(- (fw / 2 - 1 / 2), 0), (- 6, 0)]"
    by (simp add: ko formation_def kickoff_templates_def attack_sign_def assms(5) Let_def)
  have kp: "kickoff_placed tm fw fh tm
            = [(1, place_kickoff (fw / 2) (fh / 2) 0 a (- (fw / 2 - 1 / 2), 0)),
               (2, place_kickoff (fw / 2) (fh / 2) 0 b (- 6, 0))]"
    unfolding kickoff_placed_def fo by (simp add: ko face_theta_def assms(5))
  show "robots (auto_position_kickoff tm fw fh (1 / 2))
         = [(1, place_kickoff (fw / 2) (fh / 2) 0 a (- (fw / 2 - 1 / 2), 0)),
            (2, place_kickoff (fw / 2) (fh / 2) 0 b (- 6, 0))]"
    by (simp add: auto_position_kickoff_unfold kt kp assms(1))
  show "goalie_id (auto_position_kickoff tm fw fh (1 / 2)) = Some 1"
    by (simp add: auto_position_kickoff_unfold kt kickoff_goalie_def assms(2))
qed

lemma place_kickoff_xy:
  "rob_x (place_kickoff hw hh face r p) = fst (clip_xy hw hh p)"
  "rob_y (place_kickoff hw hh face r p) = snd (clip_xy hw hh p)"
  by (simp_all add: place_kickoff_def stop_def set_vel_def set_pose_def split: prod.split)

text \<open>
  Claim C9, as stated, at the example world with a field of 4 m by 3 m: after a goal the
  goalkeeper (robot 1) stands 0.5 m from the centre of its own goal line, and robot 2,
  whose slot at \<open>x = -6\<close> is clipped to the field, stands 0.1 m from it: the goalkeeper is
  not the robot nearest its own goal.
\<close>

theorem C9_goalkeeper_counterexample:
  "goalie_id (team_left (goal_scored small_world Right)) = Some 1
   \<and> map fst (robots (team_left (goal_scored small_world Right))) = [1, 2]
   \<and> goal_dist (team_left small_world) (field_w small_world)
        (snd (robots (team_left (goal_scored small_world Right)) ! 1)) = 1 / 10
   \<and> goal_dist (team_left small_world) (field_w small_world)
        (snd (robots (team_left (goal_scored small_world Right)) ! 0)) = 1 / 2"
proof -
  have f: "robots (team_left small_world) = [(1, Robot\<lparr> robot_id := 1 \<rparr>), (2, Robot\<lparr> robot_id := 2 \<rparr>)]"
    "goalie_id (team_left small_world) = Some 1" "side (team_left small_world) = Left"
    "field_w small_world = 4" "field_h small_world = 3"
    by (simp_all add: small_world_def World_def)
  have s: "attack_sign (team_left small_world) = 1" by (simp add: attack_sign_def f)
  note k = two_kickoff [OF f(1) f(2) _ _ f(3), of 4 3]
  have r: "robots (team_left (goal_scored small_world Right))
         = [(1, place_kickoff (4 / 2) (3 / 2) 0 (Robot\<lparr> robot_id := 1 \<rparr>) (- (4 / 2 - 1 / 2), 0)),
            (2, place_kickoff (4 / 2) (3 / 2) 0 (Robot\<lparr> robot_id := 2 \<rparr>) (- 6, 0))]"
    unfolding goal_scored_fields f(4,5) by (rule k(1)) simp_all
  have g: "goalie_id (team_left (goal_scored small_world Right)) = Some 1"
    unfolding goal_scored_fields f(4,5) by (rule k(2)) simp_all
  show ?thesis
    unfolding r g
    by (simp add: goal_dist_def place_kickoff_xy clip_xy_def s f hypot_axis)
qed

text \<open>
  Claim C9, amended: \<open>goal_scored\<close> increments the counter of the scoring side, sets the
  state to the kickoff of the other side, resets the ball to the centre with zero
  velocity, and puts both teams in kickoff formation: every robot of both teams stands on
  a clipped slot of the formation, faces the attack direction and has zero velocities and
  zero commands; in a well-formed team the goalkeeper stands on the first slot, 0.5 m in
  front of its own goal line, and on a field at least 13 m long and 0.2 m wide no robot
  of the team is nearer to the own goal than the goalkeeper.
\<close>

theorem C9_goal_scored_kickoff:
  "score (goal_scored w sd)
     = (if sd = Left then (score w)\<lparr> score_left := score_left (score w) + 1 \<rparr>
        else (score w)\<lparr> score_right := score_right (score w) + 1 \<rparr>)
   \<and> w_state (goal_scored w sd) = (if sd = Left then Kickoff_right else Kickoff_left)
   \<and> kickoff_formed (team_left w) (field_w w) (field_h w) (team_left (goal_scored w sd))
   \<and> kickoff_formed (team_right w) (field_w w) (field_h w) (team_right (goal_scored w sd))
   \<and> w_ball (goal_scored w sd) = (w_ball w)\<lparr> ball_x := 0, ball_y := 0, ball_vx := 0, ball_vy := 0 \<rparr>"
  by (simp only: goal_scored_fields auto_position_kickoff_formed simp_thms)

theorem C9_goal_scored_witness:
  "team_ok (team_left wall_world)
   \<and> (13::real) \<le> field_w wall_world \<and> 1 / 5 \<le> field_h wall_world
   \<and> w_state (goal_scored wall_world Left) = Kickoff_right
   \<and> kickoff_formed (team_left wall_world) (field_w wall_world) (field_h wall_world)
         (team_left (goal_scored wall_world Left))"
proof -
  have ok: "team_ok (team_left wall_world)"
    by (simp add: team_ok_def wall_world_def World_def wall_robot_def)
  have f: "(13::real) \<le> field_w wall_world" "1 / 5 \<le> field_h wall_world"
    by (simp_all add: wall_world_def World_def)
  from C9_goal_scored_kickoff [of wall_world Left] ok f show ?thesis by simp
qed

section \<open>Interception probability\<close>

lemma ramp_spec_range: "0 \<le> ramp_spec v \<and> ramp_spec v \<le> 1"
  by (simp add: ramp_spec_def)

lemma ramp_spec_mono: "u \<le> v \<Longrightarrow> ramp_spec u \<le> ramp_spec v"
  by (auto simp: ramp_spec_def divide_le_cancel)

lemma interception_crit_antimono:
  assumes "s1 \<le> s2"
  shows "interception_crit start cible vd s2 icd tro L i
         \<le> interception_crit start cible vd s1 icd tro L i"
proof -
  obtain d t where dt: "seg_point_distance start cible i = (d, t)"
    by (cases "seg_point_distance start cible i")
  define d_eff where "d_eff = max 0 (d - icd)"
  define tr where "tr = (if d_eff = 0 then 0 else tro)"
  define m where "m = max (1 / 10 ^ 6) (t * L / max (1 / 10 ^ 6) vd)"
  have m: "0 < m" by (simp add: m_def max_def)
  have d: "0 \<le> d_eff" by (simp add: d_eff_def)
  define m1 where "m1 = max (1 / 10 ^ 6) s1"
  define m2 where "m2 = max (1 / 10 ^ 6) s2"
  have m12: "m1 \<le> m2" using assms by (simp add: m1_def m2_def)
  have m1: "0 < m1" by (simp add: m1_def max_def)
  have "d_eff / m2 \<le> d_eff / m1"
    using d m1 m12 by (intro frac_le) simp_all
  then have "d_eff / max (1 / 10 ^ 6) s2 \<le> d_eff / max (1 / 10 ^ 6) s1"
    by (simp only: m1_def m2_def)
  then have le: "(d_eff / max (1 / 10 ^ 6) s2 + tr) / m \<le> (d_eff / max (1 / 10 ^ 6) s1 + tr) / m"
    using m by (intro divide_right_mono) simp_all
  have eq: "interception_crit start cible vd q icd tro L i = (d_eff / max (1 / 10 ^ 6) q + tr) / m"
    for q
    unfolding interception_crit_def dt d_eff_def tr_def m_def Let_def
    by (simp only: prod.case)
  from le show ?thesis by (simp only: eq)
qed

lemma min_list_map_mono:
  assumes "xs \<noteq> []" and "\<And>i. i \<in> set xs \<Longrightarrow> f i \<le> (g i :: real)"
  shows "min_list (map f xs) \<le> min_list (map g xs)"
proof -
  have ne: "map f xs \<noteq> []" "map g xs \<noteq> []" using assms(1) by simp_all
  have "Min (set (map g xs)) \<in> set (map g xs)"
    using ne by (intro Min_in) simp_all
  then obtain i where i: "i \<in> set xs" "Min (set (map g xs)) = g i" by auto
  have "Min (set (map f xs)) \<le> f i"
    using i(1) by (intro Min_le) simp_all
  also have "\<dots> \<le> g i" using assms(2) i(1) by simp
  finally show ?thesis using ne i(2) by (simp add: min_list_Min)
qed

lemma hypot_point_dist: "hypot (a - c) (b - d) = point_dist (a, b) (c, d)"
  by (simp add: hypot_def point_dist_def power2_eq_square)

lemma interception_crit_ratio:
  "interception_crit start cible vd s icd tro
       (hypot (fst cible - fst start) (snd cible - snd start)) p
   = time_ratio start cible vd s icd tro p"
proof -
  obtain d t where dt: "seg_point_distance start cible p = (d, t)"
    by (cases "seg_point_distance start cible p")
  show ?thesis
    unfolding interception_crit_def time_ratio_def dt Let_def opponent_time_def mover_time_def
    by (simp add: max_def)
qed

lemma seg_point_distance_short:
  assumes "(fst p1 - fst p0)\<^sup>2 + (snd p1 - snd p0)\<^sup>2 \<le> 1 / 10 ^ 12"
  shows "seg_point_distance p0 p1 p = (point_dist p p0, 0)"
  using assms
  by (cases p0, cases p1, cases p)
     (simp add: seg_point_distance_def Let_def hypot_def point_dist_def power2_eq_square)

lemma seg_point_distance_closest:
  assumes "1 / 10 ^ 12 < (fst p1 - fst p0)\<^sup>2 + (snd p1 - snd p0)\<^sup>2"
  shows "0 \<le> snd (seg_point_distance p0 p1 p)"
    and "snd (seg_point_distance p0 p1 p) \<le> 1"
    and "fst (seg_point_distance p0 p1 p)
         = point_dist p (seg_point p0 p1 (snd (seg_point_distance p0 p1 p)))"
    and "0 \<le> u \<Longrightarrow> u \<le> 1 \<Longrightarrow>
         fst (seg_point_distance p0 p1 p) \<le> point_dist p (seg_point p0 p1 u)"
proof -
  obtain x0 y0 x1 y1 px py where p: "p0 = (x0, y0)" "p1 = (x1, y1)" "p = (px, py)"
    by (cases p0, cases p1, cases p) auto
  define vx where "vx = x1 - x0"
  define vy where "vy = y1 - y0"
  define L2 where "L2 = vx * vx + vy * vy"
  define D where "D = (px - x0) * vx + (py - y0) * vy"
  define t where "t = max 0 (min 1 (D / L2))"
  define g where "g = (\<lambda>u. (px - (x0 + u * vx))\<^sup>2 + (py - (y0 + u * vy))\<^sup>2)"
  from assms have L2: "1 / 10 ^ 12 < L2"
    by (simp add: p L2_def vx_def vy_def power2_eq_square)
  then have pos: "0 < L2" by simp
  have nL: "\<not> (x1 - x0) * (x1 - x0) + (y1 - y0) * (y1 - y0) \<le> 1 / 10 ^ 12"
    using L2 by (simp add: L2_def vx_def vy_def)
  have spd: "seg_point_distance p0 p1 p = (hypot (px - (x0 + t * vx)) (py - (y0 + t * vy)), t)"
    unfolding p seg_point_distance_def prod.case Let_def t_def D_def L2_def vx_def vy_def
    using nL by (simp only: if_False)
  have d: "fst (seg_point_distance p0 p1 p) = sqrt (g t)"
    by (simp add: spd hypot_def g_def power2_eq_square)
  have pd: "point_dist p (seg_point p0 p1 v) = sqrt (g v)" for v
    by (simp add: point_dist_def seg_point_def p g_def vx_def vy_def)
  show "0 \<le> snd (seg_point_distance p0 p1 p)" by (simp add: spd t_def)
  show "snd (seg_point_distance p0 p1 p) \<le> 1" by (simp add: spd t_def)
  show "fst (seg_point_distance p0 p1 p)
         = point_dist p (seg_point p0 p1 (snd (seg_point_distance p0 p1 p)))"
    unfolding pd d by (simp add: spd)
  show "fst (seg_point_distance p0 p1 p) \<le> point_dist p (seg_point p0 p1 u)"
    if u: "0 \<le> u" "u \<le> 1"
  proof -
    have diff: "g u - g t = (u - t) * (L2 * (u + t) - 2 * D)"
      by (simp add: g_def L2_def D_def power2_eq_square algebra_simps)
    have "0 \<le> (u - t) * (L2 * (u + t) - 2 * D)"
    proof (cases "D / L2 \<le> 0")
      case True
      then have t0: "t = 0" by (simp add: t_def)
      from True pos have "D \<le> 0" by (simp add: divide_le_0_iff)
      moreover have "0 \<le> L2 * u" using pos u by simp
      ultimately have "0 \<le> L2 * (u + 0) - 2 * D" by simp
      moreover have "0 \<le> u - 0" using u by simp
      ultimately show ?thesis unfolding t0 by (rule mult_nonneg_nonneg [rotated])
    next
      case False
      show ?thesis
      proof (cases "1 \<le> D / L2")
        case True
        then have t1: "t = 1" by (simp add: t_def)
        from True pos have "L2 \<le> D" by (simp add: le_divide_eq)
        moreover have "L2 * u \<le> L2" using pos u by simp
        ultimately have "L2 * (u + 1) - 2 * D \<le> 0" by (simp add: algebra_simps)
        moreover have "u - 1 \<le> 0" using u by simp
        ultimately show ?thesis unfolding t1 by (rule mult_nonpos_nonpos [rotated])
      next
        case F2: False
        with False have tt: "t = D / L2" by (simp add: t_def)
        then have "D = t * L2" using pos by simp
        then have "(u - t) * (L2 * (u + t) - 2 * D) = L2 * (u - t)\<^sup>2"
          by (simp add: power2_eq_square algebra_simps)
        then show ?thesis using pos by simp
      qed
    qed
    then have "g t \<le> g u" using diff by simp
    then show ?thesis unfolding pd d by simp
  qed
qed


lemma hypot_axis2: "hypot 0 b = \<bar>b\<bar>"
  by (simp add: hypot_def)

lemma short_segment:
  "seg_point_distance (0, 0) (5 / 10 ^ 10, 0) (0, 0) = (0, 0)"
  by (simp add: seg_point_distance_def Let_def hypot_def)

lemma unit_segment:
  "seg_point_distance (0, 0) (1, 0) (1 / 2, 7 / 10) = (7 / 10, 1 / 2)"
  by (simp add: seg_point_distance_def Let_def hypot_axis2)

lemma unit_ratio:
  "time_ratio (0, 0) (1, 0) 1 1 (35 / 100) (1 / 10) (1 / 2, 7 / 10) = 9 / 10"
  "time_ratio (0, 0) (1, 0) 1 2 (35 / 100) (1 / 10) (1 / 2, 7 / 10) = 55 / 100"
  unfolding time_ratio_def unit_segment
  by (simp_all add: opponent_time_def mover_time_def hypot_axis)

text \<open>
  Claim C6, as stated, at a segment of length \<open>5e-10\<close> with one opponent standing on its
  start: start and target differ, the ratio of the opponent is 0, so the ramp of the
  minimum ratio is 0, but the primitive returns 1, as it does for every segment no longer
  than \<open>1e-9\<close>.
\<close>

theorem C6_short_segment_counterexample:
  "(0 :: real, 0 :: real) \<noteq> (5 / 10 ^ 10, 0)
   \<and> evaluate_success_probability_absence_interception (0, 0) (5 / 10 ^ 10, 0) [(0, 0)]
         6 (25 / 10) (35 / 100) (1 / 10) = 1
   \<and> interception_crit (0, 0) (5 / 10 ^ 10, 0) 6 (25 / 10) (35 / 100) (1 / 10)
         (hypot (5 / 10 ^ 10 - 0) (0 - 0)) (0, 0) = 0
   \<and> time_ratio (0, 0) (5 / 10 ^ 10, 0) 6 (25 / 10) (35 / 100) (1 / 10) (0, 0) = 0
   \<and> ramp_spec (Min (time_ratio (0, 0) (5 / 10 ^ 10, 0) 6 (25 / 10) (35 / 100) (1 / 10)
                        ` set [(0, 0)])) = 0"
proof -
  have e: "evaluate_success_probability_absence_interception (0, 0) (5 / 10 ^ 10, 0) [(0, 0)]
         6 (25 / 10) (35 / 100) (1 / 10) = 1"
    by (simp add: evaluate_success_probability_absence_interception_def hypot_axis)
  have c: "interception_crit (0, 0) (5 / 10 ^ 10, 0) 6 (25 / 10) (35 / 100) (1 / 10)
         (hypot (5 / 10 ^ 10 - 0) (0 - 0)) (0, 0) = 0"
    unfolding interception_crit_def short_segment by (simp add: Let_def)
  have t: "time_ratio (0, 0) (5 / 10 ^ 10, 0) 6 (25 / 10) (35 / 100) (1 / 10) (0, 0) = 0"
    unfolding time_ratio_def short_segment by (simp add: opponent_time_def)
  have r: "ramp_spec 0 = 0" by (simp add: ramp_spec_def)
  from e c t r show ?thesis by simp
qed

text \<open>
  Claim C6, amended: the interception-probability primitive returns a value in \<open>[0, 1]\<close>;
  it returns 1 for an empty list of opponents and for every segment no longer than
  \<open>1e-9\<close>, in particular when start equals target; for a longer segment and at least one
  opponent its result is the ramp of the specification applied to the minimum over the
  opponents of the ratio of opponent time to mover time; and a larger assumed opponent
  speed never gives a larger probability. The point of the segment that the ratio is taken
  at is, for a segment longer than \<open>1e-6\<close>, the point of the segment nearest to the
  opponent, at a parameter in \<open>[0, 1]\<close>; for a shorter segment it is the start.
\<close>

theorem C6_interception_probability:
  "(0 \<le> evaluate_success_probability_absence_interception start cible ints vd s icd tro
    \<and> evaluate_success_probability_absence_interception start cible ints vd s icd tro \<le> 1)
   \<and> evaluate_success_probability_absence_interception start cible [] vd s icd tro = 1
   \<and> (point_dist start cible \<le> 1 / 10 ^ 9 \<longrightarrow>
        evaluate_success_probability_absence_interception start cible ints vd s icd tro = 1)
   \<and> evaluate_success_probability_absence_interception start start ints vd s icd tro = 1
   \<and> (1 / 10 ^ 9 < point_dist start cible \<and> ints \<noteq> [] \<longrightarrow>
        evaluate_success_probability_absence_interception start cible ints vd s icd tro
          = ramp_spec (Min (time_ratio start cible vd s icd tro ` set ints)))
   \<and> (s \<le> s' \<longrightarrow>
        evaluate_success_probability_absence_interception start cible ints vd s' icd tro
        \<le> evaluate_success_probability_absence_interception start cible ints vd s icd tro)
   \<and> (1 / 10 ^ 6 < point_dist start cible \<longrightarrow>
        0 \<le> snd (seg_point_distance start cible p)
        \<and> snd (seg_point_distance start cible p) \<le> 1
        \<and> fst (seg_point_distance start cible p)
            = point_dist p (seg_point start cible (snd (seg_point_distance start cible p)))
        \<and> (\<forall>u. 0 \<le> u \<and> u \<le> 1 \<longrightarrow>
              fst (seg_point_distance start cible p) \<le> point_dist p (seg_point start cible u)))
   \<and> (point_dist start cible \<le> 1 / 10 ^ 6 \<longrightarrow>
        seg_point_distance start cible p = (point_dist p start, 0))"
proof -
  obtain sx sy cx cy where sc: "start = (sx, sy)" "cible = (cx, cy)"
    by (cases start, cases cible) auto
  define L where "L = hypot (cx - sx) (cy - sy)"
  have LL: "L = hypot (fst cible - fst start) (snd cible - snd start)"
    by (simp add: L_def sc)
  have Lp: "L = point_dist start cible"
    by (simp add: L_def sc hypot_def point_dist_def power2_eq_square algebra_simps)
  define sq2 where "sq2 = (fst cible - fst start)\<^sup>2 + (snd cible - snd start)\<^sup>2"
  have pq: "point_dist start cible = sqrt sq2"
    by (simp add: point_dist_def sq2_def power2_commute)
  have q0: "0 \<le> sq2" by (simp add: sq2_def)
  have sq6: "sqrt (1 / 10 ^ 12) = 1 / 10 ^ 6"
    by (rule real_sqrt_unique) (simp_all add: power2_eq_square)
  have short: "point_dist start cible \<le> 1 / 10 ^ 6 \<longleftrightarrow> sq2 \<le> 1 / 10 ^ 12"
    unfolding pq sq6 [symmetric] by (rule real_sqrt_le_iff)
  have unfold: "evaluate_success_probability_absence_interception start cible ints vd q icd tro
      = (if L \<le> 1 / 10 ^ 9 \<or> ints = [] then 1
         else ramp_spec (min_list (map (interception_crit start cible vd q icd tro L) ints)))" for q ints
    by (simp add: evaluate_success_probability_absence_interception_def sc L_def Let_def
        linear_in_interval_def ramp_spec_def)
  have crit: "interception_crit start cible vd q icd tro L = time_ratio start cible vd q icd tro" for q
    unfolding LL by (rule ext) (rule interception_crit_ratio)
  have rng: "0 \<le> evaluate_success_probability_absence_interception start cible ints vd s icd tro
    \<and> evaluate_success_probability_absence_interception start cible ints vd s icd tro \<le> 1"
    by (simp add: unfold ramp_spec_range)
  have emp: "evaluate_success_probability_absence_interception start cible [] vd s icd tro = 1"
    by (simp add: unfold)
  have tiny: "evaluate_success_probability_absence_interception start cible ints vd s icd tro = 1"
    if "point_dist start cible \<le> 1 / 10 ^ 9"
    using that by (simp add: unfold Lp)
  have same: "evaluate_success_probability_absence_interception start start ints vd s icd tro = 1"
    by (simp add: evaluate_success_probability_absence_interception_def sc hypot_def)
  have ramp: "evaluate_success_probability_absence_interception start cible ints vd s icd tro
          = ramp_spec (Min (time_ratio start cible vd s icd tro ` set ints))"
    if "1 / 10 ^ 9 < point_dist start cible \<and> ints \<noteq> []"
    using that unfolding unfold crit by (simp add: Lp min_list_Min)
  have mono: "evaluate_success_probability_absence_interception start cible ints vd s' icd tro
        \<le> evaluate_success_probability_absence_interception start cible ints vd s icd tro"
    if "s \<le> s'"
  proof (cases "L \<le> 1 / 10 ^ 9 \<or> ints = []")
    case True
    then show ?thesis by (simp add: unfold)
  next
    case False
    then have "min_list (map (interception_crit start cible vd s' icd tro L) ints)
        \<le> min_list (map (interception_crit start cible vd s icd tro L) ints)"
      using that by (intro min_list_map_mono interception_crit_antimono) simp_all
    then show ?thesis using False by (simp add: unfold ramp_spec_mono)
  qed
  have geo: "0 \<le> snd (seg_point_distance start cible p)
        \<and> snd (seg_point_distance start cible p) \<le> 1
        \<and> fst (seg_point_distance start cible p)
            = point_dist p (seg_point start cible (snd (seg_point_distance start cible p)))
        \<and> (\<forall>u. 0 \<le> u \<and> u \<le> 1 \<longrightarrow>
              fst (seg_point_distance start cible p) \<le> point_dist p (seg_point start cible u))"
    if "1 / 10 ^ 6 < point_dist start cible"
  proof -
    from that short have "1 / 10 ^ 12 < sq2" by simp
    then have a: "1 / 10 ^ 12 < (fst cible - fst start)\<^sup>2 + (snd cible - snd start)\<^sup>2"
      by (simp add: sq2_def)
    from seg_point_distance_closest [OF a, where p = p] show ?thesis by blast
  qed
  have deg: "seg_point_distance start cible p = (point_dist p start, 0)"
    if "point_dist start cible \<le> 1 / 10 ^ 6"
  proof -
    from that short have "sq2 \<le> 1 / 10 ^ 12" by simp
    then have a: "(fst cible - fst start)\<^sup>2 + (snd cible - snd start)\<^sup>2 \<le> 1 / 10 ^ 12"
      by (simp add: sq2_def)
    from seg_point_distance_short [OF a] show ?thesis .
  qed
  from rng emp tiny same ramp mono geo deg show ?thesis by blast
qed

theorem C6_interception_probability_witness:
  "1 / 10 ^ 9 < point_dist (0, 0) (1, 0)
   \<and> 1 / 10 ^ 6 < point_dist (0, 0) (1, 0)
   \<and> [(1 / 2, 7 / 10)] \<noteq> ([] :: (real \<times> real) list)
   \<and> (1::real) \<le> 2
   \<and> seg_point_distance (0, 0) (1, 0) (1 / 2, 7 / 10) = (7 / 10, 1 / 2)
   \<and> fst (seg_point_distance (0, 0) (1, 0) (1 / 2, 7 / 10))
       \<le> point_dist (1 / 2, 7 / 10) (seg_point (0, 0) (1, 0) 1)
   \<and> Min (time_ratio (0, 0) (1, 0) 1 1 (35 / 100) (1 / 10) ` set [(1 / 2, 7 / 10)]) = 9 / 10
   \<and> evaluate_success_probability_absence_interception (0, 0) (1, 0) [(1 / 2, 7 / 10)]
         1 1 (35 / 100) (1 / 10) = 1 / 2
   \<and> evaluate_success_probability_absence_interception (0, 0) (1, 0) [(1 / 2, 7 / 10)]
         1 2 (35 / 100) (1 / 10)
       \<le> evaluate_success_probability_absence_interception (0, 0) (1, 0) [(1 / 2, 7 / 10)]
           1 1 (35 / 100) (1 / 10)"
proof -
  have d: "point_dist (0, 0) (1, 0) = 1" by (simp add: point_dist_def)
  have h: "1 / 10 ^ 9 < point_dist (0, 0) (1, 0)" "1 / 10 ^ 6 < point_dist (0, 0) (1, 0)"
    by (simp_all add: d)
  have n: "[(1 / 2, 7 / 10)] \<noteq> ([] :: (real \<times> real) list)" by simp
  have l: "(1::real) \<le> 2" by simp
  have m: "Min (time_ratio (0, 0) (1, 0) 1 1 (35 / 100) (1 / 10) ` set [(1 / 2, 7 / 10)]) = 9 / 10"
    using unit_ratio(1) by simp
  have r: "ramp_spec (9 / 10) = 1 / 2" by (simp add: ramp_spec_def)
  note inst = C6_interception_probability
         [of "(0, 0)" "(1, 0)" "[(1 / 2, 7 / 10)]" 1 1 "35 / 100" "1 / 10" 2 "(1 / 2, 7 / 10)"]
  from inst h n have v: "evaluate_success_probability_absence_interception (0, 0) (1, 0)
         [(1 / 2, 7 / 10)] 1 1 (35 / 100) (1 / 10) = 1 / 2"
    unfolding m r by blast
  from inst l have mono: "evaluate_success_probability_absence_interception (0, 0) (1, 0)
         [(1 / 2, 7 / 10)] 1 2 (35 / 100) (1 / 10)
       \<le> evaluate_success_probability_absence_interception (0, 0) (1, 0) [(1 / 2, 7 / 10)]
           1 1 (35 / 100) (1 / 10)"
    by blast
  from inst h have c: "fst (seg_point_distance (0, 0) (1, 0) (1 / 2, 7 / 10))
       \<le> point_dist (1 / 2, 7 / 10) (seg_point (0, 0) (1, 0) 1)"
    by force
  from h n l unit_segment c m v mono show ?thesis by simp
qed

section \<open>Speed limits\<close>

lemma hypot_cmod: "hypot a b = cmod (Complex a b)"
  by (simp add: hypot_def cmod_def power2_eq_square)

lemma hypot_nonneg: "0 \<le> hypot a b"
  by (simp add: hypot_def)

lemma hypot_scale: "hypot (a * k) (b * k) = \<bar>k\<bar> * hypot a b"
proof -
  have "a * k * (a * k) + b * k * (b * k) = k\<^sup>2 * (a * a + b * b)"
    by (simp add: power2_eq_square algebra_simps)
  then show ?thesis
    by (simp add: hypot_def real_sqrt_mult)
qed

lemma hypot_convex:
  assumes "hypot a b \<le> M" and "hypot c d \<le> M" and "0 \<le> s" and "s \<le> 1"
  shows "hypot (a + (c - a) * s) (b + (d - b) * s) \<le> M"
proof -
  have eq: "Complex (a + (c - a) * s) (b + (d - b) * s)
        = (1 - s) *\<^sub>R Complex a b + s *\<^sub>R Complex c d"
    by (simp add: complex_eq_iff algebra_simps)
  have "cmod ((1 - s) *\<^sub>R Complex a b + s *\<^sub>R Complex c d)
        \<le> cmod ((1 - s) *\<^sub>R Complex a b) + cmod (s *\<^sub>R Complex c d)"
    by (rule norm_triangle_ineq)
  also have "\<dots> = (1 - s) * cmod (Complex a b) + s * cmod (Complex c d)"
    using assms(3,4) by simp
  also have "\<dots> \<le> (1 - s) * M + s * M"
    using assms by (intro add_mono mult_left_mono) (simp_all add: hypot_cmod)
  also have "\<dots> = M" by (simp add: algebra_simps)
  finally show ?thesis by (simp add: hypot_cmod eq)
qed

lemma target_vel_bounded:
  assumes "0 < max_speed r"
  shows "hypot (fst (target_vel r dt)) (snd (target_vel r dt)) \<le> max_speed r"
proof -
  define a where "a = rob_vx r + alpha (tau_v r) dt * (desired_vx r - rob_vx r)"
  define b where "b = rob_vy r + alpha (tau_v r) dt * (desired_vy r - rob_vy r)"
  show ?thesis
  proof (cases "hypot a b > max_speed r")
    case True
    then have tv: "target_vel r dt = (a * (max_speed r / hypot a b), b * (max_speed r / hypot a b))"
      using assms by (simp add: target_vel_def a_def b_def Let_def)
    from True assms have pos: "0 < hypot a b" by linarith
    have "hypot (a * (max_speed r / hypot a b)) (b * (max_speed r / hypot a b))
          = \<bar>max_speed r / hypot a b\<bar> * hypot a b"
      by (rule hypot_scale)
    also have "\<dots> = max_speed r" using pos assms by simp
    finally show ?thesis by (simp add: tv)
  next
    case False
    then have "target_vel r dt = (a, b)"
      by (simp add: target_vel_def a_def b_def Let_def)
    with False show ?thesis by simp
  qed
qed

lemma update_speed:
  "speed (update r dt) = (if \<not> active r \<or> dt \<le> 0 then speed r
     else hypot (fst (step_vel r dt)) (snd (step_vel r dt)))"
  by (simp add: update_def speed_def split: prod.split)

lemma command_velocity_bounded:
  assumes "0 \<le> max_speed r"
  shows "hypot (desired_vx (command_velocity r ux uy w)) (desired_vy (command_velocity r ux uy w))
         \<le> max (max_speed r) (1 / 10 ^ 9)"
proof (cases "hypot ux uy > 1 / 10 ^ 9 \<and> hypot ux uy > max_speed r")
  case True
  with assms have pos: "0 < hypot ux uy" by auto
  have "hypot (ux * (max_speed r / hypot ux uy)) (uy * (max_speed r / hypot ux uy))
        = \<bar>max_speed r / hypot ux uy\<bar> * hypot ux uy"
    by (rule hypot_scale)
  also have "\<dots> = max_speed r" using pos assms by simp
  finally show ?thesis using True by (simp add: command_velocity_def Let_def)
next
  case False
  then show ?thesis by (auto simp: command_velocity_def Let_def)
qed

lemma cruiser_fields:
  "rob_x (cruiser n px py ux uy cx cy) = px" "rob_y (cruiser n px py ux uy cx cy) = py"
  "rob_vx (cruiser n px py ux uy cx cy) = ux" "rob_vy (cruiser n px py ux uy cx cy) = uy"
  "desired_vx (cruiser n px py ux uy cx cy) = cx" "desired_vy (cruiser n px py ux uy cx cy) = cy"
  "theta (cruiser n px py ux uy cx cy) = 0" "omega (cruiser n px py ux uy cx cy) = 0"
  "desired_omega (cruiser n px py ux uy cx cy) = 0"
  "side_len (cruiser n px py ux uy cx cy) = 45 / 100"
  "max_speed (cruiser n px py ux uy cx cy) = 25 / 10"
  "active (cruiser n px py ux uy cx cy)" "\<not> has_ball (cruiser n px py ux uy cx cy)"
  by (simp_all add: cruiser_def Robot_def)

lemma cruiser_moved:
  "(cruiser n px py ux uy cx cy)\<lparr> rob_x := a, rob_y := b \<rparr> = cruiser n a b ux uy cx cy"
  "(cruiser n px py ux uy cx cy)\<lparr> rob_vx := c, rob_vy := d \<rparr> = cruiser n px py c d cx cy"
  "(cruiser n px py ux uy cx cy)\<lparr> has_ball := False \<rparr> = cruiser n px py ux uy cx cy"
  by (simp_all add: cruiser_def Robot_def)

lemma update_cruiser:
  assumes "0 < dt" and "hypot ux uy \<le> 25 / 10"
  shows "update (cruiser n px py ux uy ux uy) dt = cruiser n (px + ux * dt) (py + uy * dt) ux uy ux uy"
proof -
  have tv: "target_vel (cruiser n px py ux uy ux uy) dt = (ux, uy)"
    using assms(2) by (simp add: target_vel_def cruiser_fields Let_def)
  have h0: "hypot 0 0 = 0" by (simp add: hypot_def)
  have sv: "step_vel (cruiser n px py ux uy ux uy) dt = (ux, uy)"
    using assms(1) by (simp add: step_vel_def tv cruiser_fields Let_def h0)
  have so: "step_omega (cruiser n px py ux uy ux uy) dt = 0"
    using assms(1) by (simp add: step_omega_def cruiser_fields clamp_def Let_def)
       (simp add: cruiser_def Robot_def)
  show ?thesis
    using assms(1)
    by (simp add: update_def sv so cruiser_fields wrap_pi_zero)
       (simp add: cruiser_def Robot_def)
qed

lemma not_sees_far:
  assumes "md < hypot (bx - rob_x r) (by' - rob_y r)"
  shows "\<not> sees_ball_front r bx by' md deg"
  using assms by (simp add: sees_ball_front_def ball_relative_def Let_def)

lemma crash_clamp:
  assumes "half_w w = 11" and "half_h w = 7" and "\<bar>a\<bar> \<le> 10" and "\<bar>b\<bar> \<le> 6"
  shows "clamp_robot_inside_field w (cruiser n a b ux uy cx cy) = cruiser n a b ux uy cx cy"
proof -
  have he: "half_extents_xy (cruiser n a b ux uy cx cy) = (225 / 1000, 225 / 1000)"
    by (simp add: half_extents_xy_def half_side_def cruiser_fields Let_def)
  show ?thesis
    using assms
    by (simp add: clamp_robot_inside_field_def he cruiser_fields clamp_def)
qed


lemma crash_first_pass:
  fixes M :: real
  assumes "1 / 2 < M" and "M < 7 / 10" and "half_w w = 11" and "half_h w = 7"
  shows "relax_pass w 0 (1 / 10) rnd_fixed [M / 2, M / 2] n
           ([cruiser 1 5 0 (25 / 10) 0 (25 / 10) 0, cruiser 2 (55 / 10) 0 0 (25 / 10) 0 (25 / 10)], k)
         = ([cruiser 1 (5 - (M - 1 / 2) / 2) 0 (125 / 100) 0 (25 / 10) 0,
             cruiser 2 (55 / 10 + (M - 1 / 2) / 2) 0 (125 / 100) (25 / 10) 0 (25 / 10)], k)"
proof -
  define a where "a = cruiser 1 5 0 (25 / 10) 0 (25 / 10) 0"
  define b where "b = cruiser 2 (55 / 10) 0 0 (25 / 10) 0 (25 / 10)"
  define a' where "a' = cruiser 1 (5 - (M - 1 / 2) / 2) 0 (125 / 100) 0 (25 / 10) 0"
  define b' where "b' = cruiser 2 (55 / 10 + (M - 1 / 2) / 2) 0 (125 / 100) (25 / 10) 0 (25 / 10)"
  have mn: "min ((1 / 2) * (M - 1 / 2)) (1 / 10) = (M - 1 / 2) / 2"
    using assms by simp
  have pa: "push_apart 0 (1 / 10) 0 (Suc 0) (1 / 2) 0 (1 / 2) M [a, b] = [a', b']"
    unfolding push_apart_def Let_def mn
    by (simp add: a_def b_def cruiser_fields)
       (simp add: a'_def b'_def cruiser_def Robot_def)
  have sq: "sqrt (1 / 4) = 1 / 2"
    by (rule real_sqrt_unique) (simp_all add: power2_eq_square)
  have rp: "resolve_pair 0 (1 / 10) rnd_fixed [M / 2, M / 2] 0 5 0 (Suc 0) ([a, b], k) = ([a', b'], k)"
    using assms(1) pa
    by (simp add: resolve_pair_def Let_def a_def b_def cruiser_fields sq)
  have rf0: "resolve_from 0 (1 / 10) rnd_fixed [M / 2, M / 2] 0 ([a, b], k) = ([a', b'], k)"
    using rp by (simp add: resolve_from_def) (simp add: a_def cruiser_fields)
  have rf1: "resolve_from 0 (1 / 10) rnd_fixed [M / 2, M / 2] (Suc 0) st = st"
    if "length (fst st) = 2" for st
    using that by (simp add: resolve_from_def)
  have perm: "rnd_perm rnd_fixed n = [0, Suc 0]" by (simp add: rnd_fixed_def)
  have fo: "fold (resolve_from 0 (1 / 10) rnd_fixed [M / 2, M / 2]) (rnd_perm rnd_fixed n) ([a, b], k)
            = ([a', b'], k)"
    by (simp add: perm rf0 rf1)
  have ab: "\<bar>5 - (M - 1 / 2) / 2\<bar> \<le> 10" "\<bar>55 / 10 + (M - 1 / 2) / 2\<bar> \<le> 10"
    using assms(1,2) by (simp_all add: abs_le_iff field_simps)
  have c1: "clamp_robot_inside_field w a' = a'"
    unfolding a'_def using assms(3,4) ab by (intro crash_clamp) simp_all
  have c2: "clamp_robot_inside_field w b' = b'"
    unfolding b'_def using assms(3,4) ab by (intro crash_clamp) simp_all
  show ?thesis
    unfolding relax_pass_def a_def [symmetric] b_def [symmetric] a'_def [symmetric]
      b'_def [symmetric] fo
    by (simp add: c1 c2)
qed

lemma crash_later_pass:
  fixes M :: real
  assumes "1 / 2 < M" and "M < 7 / 10" and "half_w w = 11" and "half_h w = 7"
  shows "relax_pass w 0 (1 / 10) rnd_fixed [M / 2, M / 2] n
           ([cruiser 1 (5 - (M - 1 / 2) / 2) 0 (125 / 100) 0 (25 / 10) 0,
             cruiser 2 (55 / 10 + (M - 1 / 2) / 2) 0 (125 / 100) (25 / 10) 0 (25 / 10)], k)
         = ([cruiser 1 (5 - (M - 1 / 2) / 2) 0 (125 / 100) 0 (25 / 10) 0,
             cruiser 2 (55 / 10 + (M - 1 / 2) / 2) 0 (125 / 100) (25 / 10) 0 (25 / 10)], k)"
proof -
  define a' where "a' = cruiser 1 (5 - (M - 1 / 2) / 2) 0 (125 / 100) 0 (25 / 10) 0"
  define b' where "b' = cruiser 2 (55 / 10 + (M - 1 / 2) / 2) 0 (125 / 100) (25 / 10) 0 (25 / 10)"
  have dx: "rob_x b' - rob_x a' = M" by (simp add: a'_def b'_def cruiser_fields field_simps)
  have Mp: "0 < M" using assms by simp
  have sq: "sqrt (M * M) = M" using Mp by simp
  have dd: "\<not> M * M < 1 / 10 ^ 12"
  proof -
    have "1 / 2 * (1 / 2) \<le> M * M" using assms(1) by (intro mult_mono) simp_all
    then show ?thesis by simp
  qed
  have rp: "resolve_pair 0 (1 / 10) rnd_fixed [M / 2, M / 2] 0 (rob_x a') (rob_y a') (Suc 0) ([a', b'], k)
            = ([a', b'], k)"
    unfolding resolve_pair_def Let_def
    using dd by (simp add: dx) (simp add: a'_def b'_def cruiser_fields sq)
  have rf0: "resolve_from 0 (1 / 10) rnd_fixed [M / 2, M / 2] 0 ([a', b'], k) = ([a', b'], k)"
    using rp by (simp add: resolve_from_def)
  have rf1: "resolve_from 0 (1 / 10) rnd_fixed [M / 2, M / 2] (Suc 0) st = st"
    if "length (fst st) = 2" for st
    using that by (simp add: resolve_from_def)
  have perm: "rnd_perm rnd_fixed n = [0, Suc 0]" by (simp add: rnd_fixed_def)
  have fo: "fold (resolve_from 0 (1 / 10) rnd_fixed [M / 2, M / 2]) (rnd_perm rnd_fixed n) ([a', b'], k)
            = ([a', b'], k)"
    by (simp add: perm rf0 rf1)
  have ab: "\<bar>5 - (M - 1 / 2) / 2\<bar> \<le> 10" "\<bar>55 / 10 + (M - 1 / 2) / 2\<bar> \<le> 10"
    using assms(1,2) by (simp_all add: abs_le_iff field_simps)
  have c1: "clamp_robot_inside_field w a' = a'"
    unfolding a'_def using assms(3,4) ab by (intro crash_clamp) simp_all
  have c2: "clamp_robot_inside_field w b' = b'"
    unfolding b'_def using assms(3,4) ab by (intro crash_clamp) simp_all
  show ?thesis
    unfolding relax_pass_def a'_def [symmetric] b'_def [symmetric] fo
    by (simp add: c1 c2)
qed


lemma cruiser_radius: "outer_radius (cruiser n px py ux uy cx cy) = hypot (225 / 1000) (225 / 1000)"
  by (simp add: outer_radius_def half_side_def cruiser_fields)

lemma crash_tick:
  "all_robots (world_update crash_world (1 / 10) rnd_fixed)
   = [cruiser 1 (5 - (2 * (hypot (225 / 1000) (225 / 1000) + 1 / 200) - 1 / 2) / 2) 0
        (125 / 100) 0 (25 / 10) 0,
      cruiser 2 (55 / 10 + (2 * (hypot (225 / 1000) (225 / 1000) + 1 / 200) - 1 / 2) / 2) 0
        (125 / 100) (25 / 10) 0 (25 / 10)]"
proof -
  define M where "M = 2 * (hypot (225 / 1000) (225 / 1000) + 1 / 200)"
  define a where "a = cruiser 1 5 0 (25 / 10) 0 (25 / 10) 0"
  define b where "b = cruiser 2 (55 / 10) 0 0 (25 / 10) 0 (25 / 10)"
  define a' where "a' = cruiser 1 (5 - (M - 1 / 2) / 2) 0 (125 / 100) 0 (25 / 10) 0"
  define b' where "b' = cruiser 2 (55 / 10 + (M - 1 / 2) / 2) 0 (125 / 100) (25 / 10) 0 (25 / 10)"
  define w where "w = crash_world"
  define w1 where "w1 = w\<lparr> team_left := team_update (team_left w) (1 / 10),
                        team_right := team_update (team_right w) (1 / 10) \<rparr>"
  define w2 where "w2 = enforce_no_overlap w1 6 (1 / 100) 0 (10 / 100) rnd_fixed"
  define w3 where "w3 = update_possession_and_anchor w2 (1 / 10)"
  have Mb: "1 / 2 < M" "M < 7 / 10"
    using radius_bounds by (simp_all add: M_def)
  have f0: "field_w w = 22" "field_h w = 14" "kick_cooldown w = 0" "w_ball w = Ball"
    "cone_dist_on w = 35 / 100"
    by (simp_all add: w_def crash_world_def World_def)
  have a0: "all_robots w = [cruiser 1 (475 / 100) 0 (25 / 10) 0 (25 / 10) 0,
                            cruiser 2 (55 / 10) (- 25 / 100) 0 (25 / 10) 0 (25 / 10)]"
    by (simp add: w_def all_robots_def crash_world_def World_def)
  have u1: "update (cruiser 1 (475 / 100) 0 (25 / 10) 0 (25 / 10) 0) (1 / 10) = a"
    unfolding a_def by (subst update_cruiser) (simp_all add: hypot_axis)
  have u2: "update (cruiser 2 (55 / 10) (- 25 / 100) 0 (25 / 10) 0 (25 / 10)) (1 / 10) = b"
    unfolding b_def by (subst update_cruiser) (simp_all add: hypot_axis2)
  have a1: "all_robots w1 = [a, b]"
    unfolding w1_def all_robots_team_update a0 list.map u1 u2 by (rule refl)
  have h1: "half_w w1 = 11" "half_h w1 = 7"
    using f0(1,2) by (simp_all add: w1_def half_w_def half_h_def)
  have fa: "filter active [a, b] = [a, b]" by (simp add: a_def b_def cruiser_fields)
  have radii: "map (\<lambda>r. outer_radius r + 1 / 100 * (1 / 2)) [a, b] = [M / 2, M / 2]"
    by (simp add: a_def b_def cruiser_radius M_def)
  have p1: "relax_pass w1 0 (1 / 10) rnd_fixed [M / 2, M / 2] n ([a, b], 0) = ([a', b'], 0)" for n
    unfolding a_def b_def a'_def b'_def by (rule crash_first_pass [OF Mb h1])
  have p2: "relax_pass w1 0 (1 / 10) rnd_fixed [M / 2, M / 2] n ([a', b'], 0) = ([a', b'], 0)" for n
    unfolding a'_def b'_def by (rule crash_later_pass [OF Mb h1])
  have fo: "fst (fold (relax_pass w1 0 (1 / 10) rnd_fixed [M / 2, M / 2]) [0..<6] ([a, b], 0))
            = [a', b']"
    unfolding upt_six by (simp only: fold_simps p1 p2 fst_conv)
  have ra: "resolve_active w1 6 (1 / 100) 0 (10 / 100) rnd_fixed [a, b] = [a', b']"
    unfolding resolve_active_def Let_def radii using fo by simp
  have a2: "all_robots w2 = [a', b']"
    unfolding w2_def all_robots_enforce a1 fa ra
    by (simp add: a_def b_def cruiser_fields)
  have f2: "kick_cooldown w2 = 0" "w_ball w2 = Ball" "cone_dist_on w2 = 35 / 100"
    using f0
    by (simp_all add: w2_def enforce_no_overlap_def put_robots_frame put_robots_cones)
       (simp_all add: w1_def)
  have cd: "count_down w2 (1 / 10) = w2" by (simp add: count_down_def f2)
  have nk: "\<not> keeps_ball w2 bx by' r" if "r = a' \<or> r = b'" for r bx by'
    using that by (auto simp: keeps_ball_def a'_def b'_def cruiser_fields)
  have pb: "0 \<le> (M - 1 / 2) / 2" "(M - 1 / 2) / 2 \<le> 1 / 10"
    using Mb by simp_all
  have xs: "rob_x a' = 5 - (M - 1 / 2) / 2" "rob_x b' = 55 / 10 + (M - 1 / 2) / 2"
    "rob_y a' = 0" "rob_y b' = 0"
    by (simp_all add: a'_def b'_def cruiser_fields)
  have gen: "35 / 100 < \<bar>5 - q\<bar> \<and> 35 / 100 < \<bar>55 / 10 + q\<bar>"
    if "0 \<le> q" "q \<le> 1 / 10" for q :: real
    using that by (simp add: abs_if)
  have "35 / 100 < \<bar>rob_x a'\<bar>" "35 / 100 < \<bar>rob_x b'\<bar>"
    unfolding xs using gen [OF pb] by simp_all
  then have far: "35 / 100 < hypot (0 - rob_x r) (0 - rob_y r)" if "r = a' \<or> r = b'" for r
    using that by (auto simp: xs(3,4) hypot_axis)
  have nt: "\<not> can_take w2 0 0 r" if "r = a' \<or> r = b'" for r
    using not_sees_far [OF far [OF that]] by (simp add: can_take_def f2)
  have fk: "find_keeper w2 0 0 [a', b'] = None"
    unfolding find_keeper_None using nk by (simp add: less_Suc_eq)
  have fn: "find_nearest w2 0 0 [a', b'] = None"
  proof (rule ccontr)
    assume "find_nearest w2 0 0 [a', b'] \<noteq> None"
    then obtain i where i: "find_nearest w2 0 0 [a', b'] = Some i" by auto
    from find_nearest_Some [OF i] have "i < 2" "can_take w2 0 0 ([a', b'] ! i)" by simp_all
    with nt show False by (auto simp: less_Suc_eq numeral_2_eq_2)
  qed
  have ho: "holder_of w2 = None"
    by (simp add: holder_of_def determine_holder_def a2 f2 Ball_def fk fn)
  have sf: "set_flags None [a', b'] = [a', b']"
    by (simp add: set_flags_def a'_def b'_def cruiser_moved)
  have w3: "w3 = put_robots w2 [a', b']"
    unfolding w3_def using possession_unfold [of w2 "1 / 10"]
    by (simp add: cd f2 ho a2 sf)
  have a3: "all_robots w3 = [a', b']"
    unfolding w3 by (rule all_robots_put_robots) (simp add: a2)
  have wu: "world_update crash_world (1 / 10) rnd_fixed
      = (w3\<lparr> w_ball := ball_update (w_ball w3) (1 / 10) (Some (half_w w3)) (Some (half_h w3)) Clip \<rparr>)
          \<lparr> w_t := w_t w3 + 1 / 10 \<rparr>"
    by (simp add: world_update_def Let_def w1_def w2_def w3_def w_def)
  show ?thesis
    unfolding M_def [symmetric] a'_def [symmetric] b'_def [symmetric]
    using a3 by (simp add: wu all_robots_def)
qed

lemma crash_speed: "25 / 10 < hypot (125 / 100) (25 / 10)"
proof -
  have "(25 / 10)\<^sup>2 < (125 / 100 * (125 / 100) + 25 / 10 * (25 / 10) :: real)"
    by (simp add: power2_eq_square)
  then show ?thesis unfolding hypot_def by (rule real_less_rsqrt)
qed


lemma step_vel_within:
  assumes "0 < max_speed r" and "0 \<le> eps" and "speed r \<le> max_speed r + eps"
  shows "hypot (fst (step_vel r dt)) (snd (step_vel r dt)) \<le> max_speed r + eps"
proof -
  obtain c d where tv: "target_vel r dt = (c, d)" by (cases "target_vel r dt")
  from target_vel_bounded [OF assms(1), of dt] tv assms(2)
  have cd: "hypot c d \<le> max_speed r + eps" by simp
  from assms(3) have ab: "hypot (rob_vx r) (rob_vy r) \<le> max_speed r + eps"
    by (simp add: speed_def)
  define dv where "dv = hypot (c - rob_vx r) (d - rob_vy r)"
  define s where "s = (if dv > max_accel r * dt \<and> max_accel r * dt > 0
                       then max_accel r * dt / dv else 1)"
  have s01: "0 \<le> s \<and> s \<le> 1"
    by (auto simp: s_def dv_def hypot_nonneg)
  have sv: "step_vel r dt = (rob_vx r + (c - rob_vx r) * s, rob_vy r + (d - rob_vy r) * s)"
    by (simp add: step_vel_def tv Let_def s_def dv_def)
  from hypot_convex [OF ab cd] s01 show ?thesis by (simp add: sv)
qed

text \<open>
  Claim C7, as stated, at three inputs. A robot with \<open>max_speed = 0\<close> that stands still
  and is asked to move: the speed clamp of \<open>Robot.update\<close> is guarded by
  \<open>max_speed > 0\<close>, so the robot accelerates and its speed exceeds \<open>max_speed\<close>. A robot
  with \<open>max_speed = 1e-10\<close>: \<open>command_velocity\<close> scales only commands faster than
  \<open>1e-9\<close>, so the command \<open>(5e-10, 0)\<close> is stored as it is. And the world of the two
  robots that drive into each other, both at their \<open>max_speed\<close> of 2.5 m/s: in one tick of
  0.1 s the collision resolver, which runs after the kinematics, gives the second robot
  half of the closing speed along the line of centres, and it ends the tick with the
  velocity \<open>(1.25, 2.5)\<close>, about 2.8 m/s.
\<close>

theorem C7_zero_max_speed_counterexample:
  "speed (Robot\<lparr> max_speed := 0, desired_vx := 1 \<rparr>) \<le> max_speed (Robot\<lparr> max_speed := 0, desired_vx := 1 \<rparr>)
   \<and> (0::real) < 1
   \<and> max_speed (Robot\<lparr> max_speed := 0, desired_vx := 1 \<rparr>)
       < speed (update (Robot\<lparr> max_speed := 0, desired_vx := 1 \<rparr>) 1)
   \<and> max_speed (Robot\<lparr> max_speed := 1 / 10 ^ 10 \<rparr>)
       < hypot (desired_vx (command_velocity (Robot\<lparr> max_speed := 1 / 10 ^ 10 \<rparr>) (5 / 10 ^ 10) 0 0))
               (desired_vy (command_velocity (Robot\<lparr> max_speed := 1 / 10 ^ 10 \<rparr>) (5 / 10 ^ 10) 0 0))
   \<and> 0 < max_speed (all_robots crash_world ! 1)
   \<and> speed (all_robots crash_world ! 0) \<le> max_speed (all_robots crash_world ! 0)
   \<and> speed (all_robots crash_world ! 1) \<le> max_speed (all_robots crash_world ! 1)
   \<and> (0::real) < 1 / 10
   \<and> max_speed (all_robots (world_update crash_world (1 / 10) rnd_fixed) ! 1)
       < speed (all_robots (world_update crash_world (1 / 10) rnd_fixed) ! 1)"
proof -
  have a: "speed (Robot\<lparr> max_speed := 0, desired_vx := 1 \<rparr>)
             \<le> max_speed (Robot\<lparr> max_speed := 0, desired_vx := 1 \<rparr>)
         \<and> max_speed (Robot\<lparr> max_speed := 0, desired_vx := 1 \<rparr>)
             < speed (update (Robot\<lparr> max_speed := 0, desired_vx := 1 \<rparr>) 1)"
    by (simp add: Let_def speed_def update_def Robot_def step_vel_def target_vel_def alpha_def
        hypot_def)
  have b: "max_speed (Robot\<lparr> max_speed := 1 / 10 ^ 10 \<rparr>)
       < hypot (desired_vx (command_velocity (Robot\<lparr> max_speed := 1 / 10 ^ 10 \<rparr>) (5 / 10 ^ 10) 0 0))
               (desired_vy (command_velocity (Robot\<lparr> max_speed := 1 / 10 ^ 10 \<rparr>) (5 / 10 ^ 10) 0 0))"
    by (simp add: command_velocity_def Robot_def hypot_axis Let_def)
  have ar: "all_robots crash_world = [cruiser 1 (475 / 100) 0 (25 / 10) 0 (25 / 10) 0,
                            cruiser 2 (55 / 10) (- 25 / 100) 0 (25 / 10) 0 (25 / 10)]"
    by (simp add: all_robots_def crash_world_def World_def)
  have c: "0 < max_speed (all_robots crash_world ! 1)"
    "speed (all_robots crash_world ! 0) \<le> max_speed (all_robots crash_world ! 0)"
    "speed (all_robots crash_world ! 1) \<le> max_speed (all_robots crash_world ! 1)"
    by (simp_all add: ar speed_def cruiser_fields hypot_axis hypot_axis2)
  have d: "max_speed (all_robots (world_update crash_world (1 / 10) rnd_fixed) ! 1)
       < speed (all_robots (world_update crash_world (1 / 10) rnd_fixed) ! 1)"
    unfolding crash_tick using crash_speed by (simp add: speed_def cruiser_fields)
  from a b c d show ?thesis by simp
qed

text \<open>
  Claim C7, amended: for a robot with \<open>max_speed > 0\<close>, \<open>command_velocity\<close> stores a
  desired velocity that is the commanded one scaled by a factor in \<open>(0, 1]\<close> and whose
  magnitude is at most \<open>max_speed\<close> (at most \<open>1e-9\<close> where \<open>max_speed\<close> is smaller than
  that threshold of the source); and for every \<open>\<epsilon> \<ge> 0\<close> and every \<open>dt\<close>, a robot whose
  speed is at most \<open>max_speed + \<epsilon>\<close> has a speed of at most \<open>max_speed + \<epsilon>\<close> after
  \<open>Robot.update\<close>, in particular at most \<open>max_speed\<close> if it was so before. The bound is
  one of the kinematics update; the collision resolver changes velocities after it.
\<close>

theorem C7_speed_within_max_speed:
  assumes "0 < max_speed r"
  shows "hypot (desired_vx (command_velocity r ux uy w)) (desired_vy (command_velocity r ux uy w))
           \<le> max (max_speed r) (1 / 10 ^ 9)
       \<and> (\<exists>k. 0 < k \<and> k \<le> 1 \<and> desired_vx (command_velocity r ux uy w) = ux * k
                \<and> desired_vy (command_velocity r ux uy w) = uy * k)
       \<and> (0 \<le> eps \<and> speed r \<le> max_speed r + eps \<longrightarrow>
            speed (update r dt) \<le> max_speed r + eps)
       \<and> (speed r \<le> max_speed r \<longrightarrow> speed (update r dt) \<le> max_speed r)"
proof -
  have bound: "hypot (desired_vx (command_velocity r ux uy w)) (desired_vy (command_velocity r ux uy w))
           \<le> max (max_speed r) (1 / 10 ^ 9)"
    using assms by (intro command_velocity_bounded) simp
  define k where "k = (if hypot ux uy > 1 / 10 ^ 9 \<and> hypot ux uy > max_speed r
                       then max_speed r / hypot ux uy else 1)"
  have "0 < k \<and> k \<le> 1" using assms by (auto simp: k_def)
  moreover have "desired_vx (command_velocity r ux uy w) = ux * k
      \<and> desired_vy (command_velocity r ux uy w) = uy * k"
    by (simp add: command_velocity_def Let_def k_def)
  ultimately have dir: "\<exists>k. 0 < k \<and> k \<le> 1 \<and> desired_vx (command_velocity r ux uy w) = ux * k
                \<and> desired_vy (command_velocity r ux uy w) = uy * k"
    by blast
  have upd: "speed (update r dt) \<le> max_speed r + e" if "0 \<le> e \<and> speed r \<le> max_speed r + e" for e
    using that step_vel_within [OF assms, of e dt] by (simp add: update_speed)
  from upd [of 0] have upd0: "speed (update r dt) \<le> max_speed r" if "speed r \<le> max_speed r"
    using that by simp
  from bound dir upd [of eps] upd0 show ?thesis by blast
qed

theorem C7_speed_witness:
  "0 < max_speed (cruiser 1 0 0 2 0 3 4)
   \<and> speed (cruiser 1 0 0 2 0 3 4) \<le> max_speed (cruiser 1 0 0 2 0 3 4)
   \<and> (0::real) \<le> 1 / 10
   \<and> speed (cruiser 1 0 0 (255 / 100) 0 3 4) \<le> max_speed (cruiser 1 0 0 (255 / 100) 0 3 4) + 1 / 10
   \<and> hypot (desired_vx (command_velocity (cruiser 1 0 0 2 0 3 4) 3 4 0))
            (desired_vy (command_velocity (cruiser 1 0 0 2 0 3 4) 3 4 0))
           \<le> max (max_speed (cruiser 1 0 0 2 0 3 4)) (1 / 10 ^ 9)
   \<and> speed (update (cruiser 1 0 0 2 0 3 4) (1 / 20)) \<le> max_speed (cruiser 1 0 0 2 0 3 4)
   \<and> speed (update (cruiser 1 0 0 (255 / 100) 0 3 4) (1 / 20))
       \<le> max_speed (cruiser 1 0 0 (255 / 100) 0 3 4) + 1 / 10"
proof -
  have m: "0 < max_speed (cruiser 1 0 0 u 0 3 4)" for u by (simp add: cruiser_fields)
  have s: "speed (cruiser 1 0 0 2 0 3 4) \<le> max_speed (cruiser 1 0 0 2 0 3 4)"
    by (simp add: cruiser_fields speed_def hypot_axis)
  have s': "speed (cruiser 1 0 0 (255 / 100) 0 3 4) \<le> max_speed (cruiser 1 0 0 (255 / 100) 0 3 4) + 1 / 10"
    by (simp add: cruiser_fields speed_def hypot_axis)
  have e: "(0::real) \<le> 1 / 10" by simp
  from C7_speed_within_max_speed [OF m, of 2 3 4 0 0 "1 / 20"]
       C7_speed_within_max_speed [OF m, of "255 / 100" 3 4 0 "1 / 10" "1 / 20"] m s s' e
  show ?thesis by blast
qed

section \<open>Command intents\<close>

lemma clamp_id: "lo \<le> v \<Longrightarrow> v \<le> hi \<Longrightarrow> clamp v lo hi = v"
  by (simp add: clamp_def)

lemma command_velocity_zero:
  "command_velocity r 0 0 w
     = r\<lparr> desired_vx := 0, desired_vy := 0, desired_omega := clamp w (- max_omega r) (max_omega r) \<rparr>"
  by (simp add: command_velocity_def hypot_def)

lemma command_velocity_omega:
  "desired_omega (command_velocity r ux uy w) = clamp w (- max_omega r) (max_omega r)"
  by (simp add: command_velocity_def Let_def)

lemma command_move_towards_omega:
  "desired_omega (command_move_towards r tx ty so) = clamp (desired_omega r) (- max_omega r) (max_omega r)"
  by (simp add: command_move_towards_def Let_def command_velocity_omega)

lemma atan2_up: "atan2 1 0 = pi / 2"
  by (simp add: atan2_def)

text \<open>
  Claim C10, as stated, at the default robot: \<open>command_face_point\<close> with gain 10 and
  \<open>max_rate = 8\<close> towards a point straight to the left stores \<open>desired_omega = 8\<close>; a
  following \<open>command_move_towards\<close> to the robot's own position (distance 0) passes that
  value through \<open>command_velocity\<close>, which clamps it to \<open>max_omega = 6\<close>.
\<close>

theorem C10_desired_omega_counterexample:
  "desired_omega (command_face_point Robot 0 1 10 (Some 8)) = 8
   \<and> hypot (0 - rob_x (command_face_point Robot 0 1 10 (Some 8)))
            (0 - rob_y (command_face_point Robot 0 1 10 (Some 8))) < 1 / 10 ^ 6
   \<and> desired_omega (command_move_towards (command_face_point Robot 0 1 10 (Some 8)) 0 0 None) = 6"
proof -
  have w: "wrap_pi (pi / 2) = pi / 2"
    by (rule wrap_pi_fixed) (use pi_gt_zero in simp_all)
  have big: "8 < 10 * (pi / 2)" using pi_ge_two by simp
  have o: "desired_omega (command_face_point Robot 0 1 10 (Some 8)) = 8"
    using big by (simp add: command_face_point_def Robot_def atan2_up w rate_or_def clamp_def)
  have m: "max_omega (command_face_point Robot 0 1 10 (Some 8)) = 6"
    by (simp add: command_face_point_def Robot_def Let_def)
  have p: "rob_x (command_face_point Robot 0 1 10 (Some 8)) = 0
           \<and> rob_y (command_face_point Robot 0 1 10 (Some 8)) = 0"
    by (simp add: command_face_point_def Robot_def Let_def)
  have "desired_omega (command_move_towards (command_face_point Robot 0 1 10 (Some 8)) 0 0 None) = 6"
    by (simp add: command_move_towards_omega o m clamp_def)
  with o p show ?thesis by (simp add: hypot_def)
qed

text \<open>
  Claim C10, amended: \<open>command_face_point\<close> changes only \<open>desired_omega\<close>, which becomes
  the gain times the wrapped heading error, clamped to \<open>\<plusminus>max_rate\<close> when a non-zero
  \<open>max_rate\<close> is given and to \<open>\<plusminus>max_omega\<close> when none is given; \<open>command_move_towards\<close>
  with a target closer than \<open>1e-6\<close> changes only the desired fields, sets \<open>desired_vx\<close>
  and \<open>desired_vy\<close> to 0, and (as for every target) stores the current \<open>desired_omega\<close>
  clamped to \<open>\<plusminus>max_omega\<close>, so it preserves a \<open>desired_omega\<close> of magnitude at most
  \<open>max_omega\<close>.
\<close>

theorem C10_command_frame:
  "(max_rate \<noteq> Some 0 \<longrightarrow>
      command_face_point r tx ty kp max_rate
        = r\<lparr> desired_omega :=
               clamp (kp * wrap_pi (atan2 (ty - rob_y r) (tx - rob_x r) - theta r))
                 (- (case max_rate of None \<Rightarrow> max_omega r | Some m \<Rightarrow> m))
                 (case max_rate of None \<Rightarrow> max_omega r | Some m \<Rightarrow> m) \<rparr>)
   \<and> (hypot (tx - rob_x r) (ty - rob_y r) < 1 / 10 ^ 6 \<longrightarrow>
        command_move_towards r tx ty so
          = r\<lparr> desired_vx := 0, desired_vy := 0,
                 desired_omega := clamp (desired_omega r) (- max_omega r) (max_omega r) \<rparr>)
   \<and> desired_omega (command_move_towards r tx ty so)
        = clamp (desired_omega r) (- max_omega r) (max_omega r)
   \<and> (\<bar>desired_omega r\<bar> \<le> max_omega r \<longrightarrow>
        desired_omega (command_move_towards r tx ty so) = desired_omega r)"
proof -
  have face: "command_face_point r tx ty kp max_rate
        = r\<lparr> desired_omega :=
               clamp (kp * wrap_pi (atan2 (ty - rob_y r) (tx - rob_x r) - theta r))
                 (- (case max_rate of None \<Rightarrow> max_omega r | Some m \<Rightarrow> m))
                 (case max_rate of None \<Rightarrow> max_omega r | Some m \<Rightarrow> m) \<rparr>"
    if "max_rate \<noteq> Some 0"
    using that by (simp add: command_face_point_def rate_or_def split: option.split)
  have near: "command_move_towards r tx ty so
          = r\<lparr> desired_vx := 0, desired_vy := 0,
                 desired_omega := clamp (desired_omega r) (- max_omega r) (max_omega r) \<rparr>"
    if "hypot (tx - rob_x r) (ty - rob_y r) < 1 / 10 ^ 6"
    using that by (simp add: command_move_towards_def Let_def command_velocity_zero)
  have keep: "desired_omega (command_move_towards r tx ty so) = desired_omega r"
    if "\<bar>desired_omega r\<bar> \<le> max_omega r"
    using that by (simp add: command_move_towards_omega clamp_id)
  from face near keep command_move_towards_omega [of r tx ty so] show ?thesis by blast
qed

theorem C10_command_frame_witness:
  "Some (2::real) \<noteq> Some 0
   \<and> hypot (0 - rob_x Robot) (0 - rob_y Robot) < 1 / 10 ^ 6
   \<and> \<bar>desired_omega Robot\<bar> \<le> max_omega Robot
   \<and> command_face_point Robot 0 0 3 (Some 2)
        = Robot\<lparr> desired_omega :=
               clamp (3 * wrap_pi (atan2 (0 - rob_y Robot) (0 - rob_x Robot) - theta Robot)) (- 2) 2 \<rparr>
   \<and> command_move_towards Robot 0 0 None
          = Robot\<lparr> desired_vx := 0, desired_vy := 0,
                 desired_omega := clamp (desired_omega Robot) (- max_omega Robot) (max_omega Robot) \<rparr>
   \<and> desired_omega (command_move_towards Robot 0 0 None) = desired_omega Robot"
proof -
  have h: "hypot (0 - rob_x Robot) (0 - rob_y Robot) < 1 / 10 ^ 6"
    by (simp add: Robot_def hypot_def)
  have b: "\<bar>desired_omega Robot\<bar> \<le> max_omega Robot" by (simp add: Robot_def)
  from C10_command_frame [of "Some 2" Robot 0 0 3 None] h b show ?thesis by simp
qed

end
